(* ===== verification/Sar_Prelude.thy ===== *)
theory Sar_Prelude
  imports Main "HOL-Library.Word"
begin

text \<open>
  Shared vocabulary of the development: the Go integer types as words, big-endian
  encoding (\<open>encoding/binary\<close>), Go strings as character lists with their byte
  view, and \<open>time.Time\<close> / \<open>time.Duration\<close> as integers.
\<close>

unbundle bit_operations_syntax

named_theorems wire_simps \<open>lengths and round trips of the wire encodings\<close>
named_theorems time_simps \<open>facts about Go times and durations\<close>

section \<open>Machine integers\<close>

type_synonym byte = "8 word"
type_synonym u8 = "8 word"
type_synonym u16 = "16 word"
type_synonym u32 = "32 word"
type_synonym u64 = "64 word"

subsection \<open>Big-endian encoding\<close>

text \<open>\<open>binary.BigEndian.PutUint16\<close>, \<open>PutUint32\<close> and \<open>AppendUint64\<close>: the most significant
  byte comes first.\<close>

definition put_u16 :: "u16 \<Rightarrow> byte list" where
  "put_u16 w = [ucast (drop_bit 8 w), ucast w]"

definition put_u32 :: "u32 \<Rightarrow> byte list" where
  "put_u32 w = [ucast (drop_bit 24 w), ucast (drop_bit 16 w), ucast (drop_bit 8 w), ucast w]"

definition put_u64 :: "u64 \<Rightarrow> byte list" where
  "put_u64 w =
     [ucast (drop_bit 56 w), ucast (drop_bit 48 w), ucast (drop_bit 40 w), ucast (drop_bit 32 w),
      ucast (drop_bit 24 w), ucast (drop_bit 16 w), ucast (drop_bit 8 w), ucast w]"

text \<open>The readers look at the first two, four or eight bytes of a slice. Go panics on a
  shorter slice; every caller of the development has checked the length before.\<close>

definition get_u16 :: "byte list \<Rightarrow> u16" where
  "get_u16 b = ucast (b ! 1) OR push_bit 8 (ucast (b ! 0))"

definition get_u32 :: "byte list \<Rightarrow> u32" where
  "get_u32 b = ucast (b ! 3) OR push_bit 8 (ucast (b ! 2)) OR
               push_bit 16 (ucast (b ! 1)) OR push_bit 24 (ucast (b ! 0))"

definition get_u64 :: "byte list \<Rightarrow> u64" where
  "get_u64 b = ucast (b ! 7) OR push_bit 8 (ucast (b ! 6)) OR
               push_bit 16 (ucast (b ! 5)) OR push_bit 24 (ucast (b ! 4)) OR
               push_bit 32 (ucast (b ! 3)) OR push_bit 40 (ucast (b ! 2)) OR
               push_bit 48 (ucast (b ! 1)) OR push_bit 56 (ucast (b ! 0))"

lemma length_put [simp, wire_simps]:
  "length (put_u16 a) = 2" "length (put_u32 b) = 4" "length (put_u64 c) = 8"
  by (simp_all add: put_u16_def put_u32_def put_u64_def)

lemma put_ne_Nil [simp]: "put_u16 a \<noteq> []" "put_u32 b \<noteq> []" "put_u64 c \<noteq> []"
  by (simp_all add: put_u16_def put_u32_def put_u64_def)

lemma bit_byte_at:
  "bit (push_bit k (ucast (b :: byte)) :: 'a::len word) n \<longleftrightarrow>
     k \<le> n \<and> n < k + 8 \<and> n < LENGTH('a) \<and> bit b (n - k)"
  by (auto simp: bit_simps dest: bit_imp_le_length)

lemma bit_byte_low:
  "bit (ucast (b :: byte) :: 'a::len word) n \<longleftrightarrow> n < 8 \<and> n < LENGTH('a) \<and> bit b n"
  by (auto simp: bit_simps dest: bit_imp_le_length)

text \<open>Each bit of a decoded integer is a bit of exactly one byte.\<close>

lemma bit_get_u16:
  "bit (get_u16 (a1 # a0 # r)) n \<longleftrightarrow> (if n < 8 then bit a0 n else n < 16 \<and> bit a1 (n - 8))"
  by (simp add: get_u16_def bit_or_iff bit_byte_at bit_byte_low)

lemma bit_get_u32:
  "bit (get_u32 (a3 # a2 # a1 # a0 # r)) n \<longleftrightarrow>
     (if n < 8 then bit a0 n else if n < 16 then bit a1 (n - 8)
      else if n < 24 then bit a2 (n - 16) else n < 32 \<and> bit a3 (n - 24))"
  by (simp add: get_u32_def bit_or_iff bit_byte_at bit_byte_low)

lemma bit_get_u64:
  "bit (get_u64 (a7 # a6 # a5 # a4 # a3 # a2 # a1 # a0 # r)) n \<longleftrightarrow>
     (if n < 8 then bit a0 n else if n < 16 then bit a1 (n - 8)
      else if n < 24 then bit a2 (n - 16) else if n < 32 then bit a3 (n - 24)
      else if n < 40 then bit a4 (n - 32) else if n < 48 then bit a5 (n - 40)
      else if n < 56 then bit a6 (n - 48) else n < 64 \<and> bit a7 (n - 56))"
  by (simp add: get_u64_def bit_or_iff bit_byte_at bit_byte_low)

lemma get_put_u16 [simp, wire_simps]: "get_u16 (put_u16 w @ r) = w"
  by (rule bit_word_eqI) (simp add: put_u16_def bit_get_u16 bit_simps less_diff_conv2)

lemma get_put_u32 [simp, wire_simps]: "get_u32 (put_u32 w @ r) = w"
  by (rule bit_word_eqI) (simp add: put_u32_def bit_get_u32 bit_simps less_diff_conv2)

lemma get_put_u64 [simp, wire_simps]: "get_u64 (put_u64 w @ r) = w"
  by (rule bit_word_eqI) (simp add: put_u64_def bit_get_u64 bit_simps less_diff_conv2)

lemma put_get_u16_Cons: "put_u16 (get_u16 (a # b # r)) = [a, b]"
  by (auto simp: put_u16_def bit_get_u16 bit_simps intro!: bit_word_eqI)

lemma put_get_u32_Cons: "put_u32 (get_u32 (a # b # c # d # r)) = [a, b, c, d]"
  by (auto simp: put_u32_def bit_get_u32 bit_simps intro!: bit_word_eqI)

lemma put_get_u64_Cons:
  "put_u64 (get_u64 (a # b # c # d # e # f # g # h # r)) = [a, b, c, d, e, f, g, h]"
  by (auto simp: put_u64_def bit_get_u64 bit_simps intro!: bit_word_eqI)

text \<open>Re-encoding what was read gives back the bytes that were read.\<close>

lemma put_get_u16: "2 \<le> length b \<Longrightarrow> put_u16 (get_u16 b) = take 2 b"
  by (auto simp: numeral_2_eq_2 Suc_le_length_iff put_get_u16_Cons)

lemma put_get_u32: "4 \<le> length b \<Longrightarrow> put_u32 (get_u32 b) = take 4 b"
  by (auto simp: eval_nat_numeral Suc_le_length_iff put_get_u32_Cons)

lemma put_get_u64: "8 \<le> length b \<Longrightarrow> put_u64 (get_u64 b) = take 8 b"
  by (auto simp: eval_nat_numeral Suc_le_length_iff put_get_u64_Cons)

lemma get_put_Nil [simp]: "get_u16 (put_u16 a) = a" "get_u32 (put_u32 b) = b" "get_u64 (put_u64 c) = c"
  using get_put_u16 [of a "[]"] get_put_u32 [of b "[]"] get_put_u64 [of c "[]"]
  by (simp_all del: get_put_u16 get_put_u32 get_put_u64)

lemma unat_less_pow: "unat (w :: 'a::len word) < 2 ^ LENGTH('a)"
  by (rule unsigned_less)

lemma unat_word_of_nat_le: "n \<le> unat (m :: 'a::len word) \<Longrightarrow> unat (word_of_nat n :: 'a word) = n"
  by (simp add: unat_of_nat le_less_trans [OF _ unat_less_pow])

section \<open>Go strings\<close>

text \<open>A Go string is a sequence of bytes; literals are easier to read as HOL strings, so a
  string is a \<^typ>\<open>string\<close> and the two conversions below are \<open>[]byte(s)\<close> and \<open>string(b)\<close>.\<close>

definition byte_of :: "char \<Rightarrow> byte" where
  "byte_of c = word_of_nat (of_char c)"

definition char_at :: "byte \<Rightarrow> char" where
  "char_at b = char_of (unat b)"

definition bytes_of :: "string \<Rightarrow> byte list" where
  "bytes_of s = map byte_of s"

definition string_of :: "byte list \<Rightarrow> string" where
  "string_of b = map char_at b"

lemma char_at_byte_of [simp]: "char_at (byte_of c) = c"
proof -
  have "unat (word_of_nat (of_char c) :: byte) = of_char c"
    by (simp add: unat_of_nat)
  then show ?thesis by (simp add: char_at_def byte_of_def)
qed

lemma byte_of_char_at [simp]: "byte_of (char_at b) = b"
proof -
  have "unat b < 256" using unat_less_pow [of b] by simp
  then show ?thesis by (simp add: char_at_def byte_of_def)
qed

lemma string_of_bytes_of [simp, wire_simps]: "string_of (bytes_of s) = s"
  by (induction s) (simp_all add: string_of_def bytes_of_def)

lemma bytes_of_string_of [simp, wire_simps]: "bytes_of (string_of b) = b"
  by (induction b) (simp_all add: string_of_def bytes_of_def)

lemma length_bytes_of [simp, wire_simps]: "length (bytes_of s) = length s"
  by (simp add: bytes_of_def)

lemma length_string_of [simp, wire_simps]: "length (string_of b) = length b"
  by (simp add: string_of_def)

lemma bytes_of_Nil [simp]: "bytes_of [] = []" "string_of [] = []"
  by (simp_all add: bytes_of_def string_of_def)

lemma bytes_of_eq_Nil [simp]: "bytes_of s = [] \<longleftrightarrow> s = []" "string_of b = [] \<longleftrightarrow> b = []"
  by (simp_all add: bytes_of_def string_of_def)

lemma bytes_of_inject [simp]: "bytes_of s = bytes_of t \<longleftrightarrow> s = t"
  by (metis string_of_bytes_of)

section \<open>Time\<close>

text \<open>
  A \<open>time.Time\<close> is the number of nanoseconds since Go's zero time (1 January of year 1,
  UTC); a \<open>time.Duration\<close> is a number of nanoseconds. Both are unbounded integers here,
  except where the code leaves the range: \<open>time.Unix\<close> adds the epoch offset in 64-bit
  arithmetic, \<open>Time.Unix\<close> subtracts it again, and \<open>Time.Sub\<close> saturates at the ends of the
  64-bit range.
\<close>

type_synonym time = int
type_synonym duration = int

definition Nanosecond :: duration where "Nanosecond = 1"
definition Millisecond :: duration where "Millisecond = 1000000"
definition Second :: duration where "Second = 1000000000"
definition Minute :: duration where "Minute = 60 * Second"
definition Hour :: duration where "Hour = 60 * Minute"

lemmas duration_defs = Nanosecond_def Millisecond_def Second_def Minute_def Hour_def

definition zero_time :: time where "zero_time = 0"

definition IsZero :: "time \<Rightarrow> bool" where "IsZero t \<longleftrightarrow> t = zero_time"

text \<open>Seconds between the zero time and 1 January 1970.\<close>

definition unixToInternal :: int where "unixToInternal = 62135596800"

definition time_Unix :: "u64 \<Rightarrow> time" where
  "time_Unix sec = sint (sec + word_of_int unixToInternal) * Second"

definition Unix_secs :: "time \<Rightarrow> u64" where
  "Unix_secs t = word_of_int (t div Second) - word_of_int unixToInternal"

definition Truncate_sec :: "time \<Rightarrow> time" where
  "Truncate_sec t = t - t mod Second"

definition maxDuration :: duration where "maxDuration = 2 ^ 63 - 1"
definition minDuration :: duration where "minDuration = - (2 ^ 63)"

definition time_Sub :: "time \<Rightarrow> time \<Rightarrow> duration" where
  "time_Sub t u = max minDuration (min maxDuration (t - u))"

text \<open>The seconds of a time lie in the signed 64-bit range, as the internal field does.\<close>

definition time_ok :: "time \<Rightarrow> bool" where
  "time_ok t \<longleftrightarrow> - (2 ^ 63) \<le> t div Second \<and> t div Second < 2 ^ 63"

lemma Second_pos [simp]: "0 < Second" "0 \<le> Second" "Second \<noteq> 0"
  by (simp_all add: Second_def)

lemma Unix_secs_time_Unix [simp, time_simps]: "Unix_secs (time_Unix w) = w"
  by (simp add: Unix_secs_def time_Unix_def)

lemma time_Unix_Unix_secs [time_simps]: "time_ok t \<Longrightarrow> time_Unix (Unix_secs t) = Truncate_sec t"
  by (simp add: time_Unix_def Unix_secs_def time_ok_def Truncate_sec_def sint_sbintrunc'
      signed_take_bit_int_eq_self minus_mod_eq_div_mult)

lemma time_ok_time_Unix [simp, time_simps]: "time_ok (time_Unix w)"
  using sint_lt [of "w + word_of_int unixToInternal"] sint_ge [of "w + word_of_int unixToInternal"]
  by (simp add: time_ok_def time_Unix_def)

lemma Truncate_sec_div [simp, time_simps]: "Truncate_sec t div Second = t div Second"
  by (simp add: Truncate_sec_def minus_mod_eq_div_mult)

lemma Truncate_sec_idem [simp, time_simps]: "Truncate_sec (Truncate_sec t) = Truncate_sec t"
  by (simp add: Truncate_sec_def minus_mod_eq_div_mult)

lemma Truncate_sec_time_Unix [simp, time_simps]: "Truncate_sec (time_Unix w) = time_Unix w"
  by (simp add: Truncate_sec_def time_Unix_def)

lemma time_ok_Truncate [simp, time_simps]: "time_ok (Truncate_sec t) = time_ok t"
  by (simp add: time_ok_def)

lemma Unix_secs_Truncate [simp, time_simps]: "Unix_secs (Truncate_sec t) = Unix_secs t"
  by (simp add: Unix_secs_def)

lemma Truncate_sec_bounds [time_simps]: "Truncate_sec t \<le> t" "t < Truncate_sec t + Second"
  by (simp_all add: Truncate_sec_def)

lemma Truncate_sec_mono: "s \<le> t \<Longrightarrow> Truncate_sec s \<le> Truncate_sec t"
  by (simp add: Truncate_sec_def minus_mod_eq_div_mult zdiv_mono1)

lemma Truncate_sec_add_mult:
  "Truncate_sec t = t \<Longrightarrow> Second dvd d \<Longrightarrow> Truncate_sec (t + d) = t + d"
  by (auto simp: Truncate_sec_def mod_add_right_eq elim!: dvdE)

text \<open>Saturation does not change a comparison with a bound inside the range.\<close>

lemma time_Sub_le_iff [time_simps]:
  "minDuration \<le> d \<Longrightarrow> d < maxDuration \<Longrightarrow> time_Sub t u \<le> d \<longleftrightarrow> t - u \<le> d"
  by (auto simp: time_Sub_def)

lemma time_Sub_exact [time_simps]:
  "minDuration \<le> t - u \<Longrightarrow> t - u \<le> maxDuration \<Longrightarrow> time_Sub t u = t - u"
  by (simp add: time_Sub_def)

section \<open>Wire codecs\<close>

text \<open>
  The contract of an encoder and a validating decoder: every representable message decodes to
  itself, and whatever the decoder accepts is representable. A strict codec moreover accepts
  one encoding per message only, so that a decoded value determines the bytes it came from
  (which is what a signature over re-encoded bytes relies on).
\<close>

locale wire_codec =
  fixes enc :: "'a \<Rightarrow> byte list"
    and dec :: "byte list \<Rightarrow> 'e + 'a"
    and ok :: "'a \<Rightarrow> bool"
  assumes dec_enc: "ok a \<Longrightarrow> dec (enc a) = Inr a"
    and dec_ok: "dec b = Inr a \<Longrightarrow> ok a"
begin

lemma enc_inject: "ok a \<Longrightarrow> ok a' \<Longrightarrow> enc a = enc a' \<longleftrightarrow> a = a'"
  by (metis dec_enc sum.inject(2))

lemma ok_iff_decodable: "ok a \<longleftrightarrow> dec (enc a) = Inr a"
  using dec_enc dec_ok by blast

lemma reencode: "dec b = Inr a \<Longrightarrow> dec (enc a) = Inr a"
  using dec_enc dec_ok by blast

end

locale strict_codec = wire_codec enc dec ok
  for enc :: "'a \<Rightarrow> byte list" and dec :: "byte list \<Rightarrow> 'e + 'a" and ok :: "'a \<Rightarrow> bool" +
  assumes dec_canonical: "dec b = Inr a \<Longrightarrow> b = enc a"
begin

lemma dec_iff: "dec b = Inr a \<longleftrightarrow> ok a \<and> b = enc a"
  using dec_enc dec_ok dec_canonical by blast

lemma dec_unique: "dec b = Inr a \<Longrightarrow> dec b' = Inr a \<Longrightarrow> b = b'"
  using dec_canonical by blast

end

end
