(* ===== verification/Proto_Frame.thy ===== *)
theory Proto_Frame
  imports Sar_Prelude
begin

text \<open>
  The data-plane frame codec: limits (\<open>internal/proto/limits.go\<close>), reason codes
  (\<open>reason.go\<close>), the frame header and its validation (\<open>frame.go\<close>) and the frame reader and
  writer (\<open>codec.go\<close>). A connection is read as the bytes it will still deliver together with
  the error it reports after them, and written as the bytes sent so far together with the
  number of \<open>Write\<close> calls that still succeed.
\<close>

section \<open>Limits and timeouts\<close>

definition MaxFramePayload :: u32 where "MaxFramePayload = 64 * 1024"
definition MaxStreamsPerConnection :: u32 where "MaxStreamsPerConnection = 16"
definition InitialWindow :: u32 where "InitialWindow = 256 * 1024"

definition HandshakeTimeout :: duration where "HandshakeTimeout = 10 * Second"
definition IdleTimeout :: duration where "IdleTimeout = 60 * Second"
definition DialTimeout :: duration where "DialTimeout = 5 * Second"

section \<open>Reason codes\<close>

type_synonym reason = string

definition ReasonOK :: reason where "ReasonOK = ''ok''"
definition ReasonGrantInvalidSignature :: reason where "ReasonGrantInvalidSignature = ''grant_invalid_signature''"
definition ReasonGrantExpired :: reason where "ReasonGrantExpired = ''grant_expired''"
definition ReasonGrantNotYetValid :: reason where "ReasonGrantNotYetValid = ''grant_not_yet_valid''"
definition ReasonGrantDeviceMismatch :: reason where "ReasonGrantDeviceMismatch = ''grant_device_mismatch''"
definition ReasonGrantRevoked :: reason where "ReasonGrantRevoked = ''grant_revoked''"
definition ReasonResourceUnknown :: reason where "ReasonResourceUnknown = ''resource_unknown''"
definition ReasonResourceTargetNotLoopback :: reason where "ReasonResourceTargetNotLoopback = ''resource_target_not_loopback''"
definition ReasonPolicyDenied :: reason where "ReasonPolicyDenied = ''policy_denied''"
definition ReasonLimitStreamsExceeded :: reason where "ReasonLimitStreamsExceeded = ''limit_streams_exceeded''"
definition ReasonLimitBytesExceeded :: reason where "ReasonLimitBytesExceeded = ''limit_bytes_exceeded''"
definition ReasonLimitFrameTooLarge :: reason where "ReasonLimitFrameTooLarge = ''limit_frame_too_large''"
definition ReasonTargetConnectionRefused :: reason where "ReasonTargetConnectionRefused = ''target_connection_refused''"
definition ReasonTargetTimeout :: reason where "ReasonTargetTimeout = ''target_timeout''"
definition ReasonProtocolVersionUnsupported :: reason where "ReasonProtocolVersionUnsupported = ''protocol_version_unsupported''"
definition ReasonProtocolMalformedFrame :: reason where "ReasonProtocolMalformedFrame = ''protocol_malformed_frame''"
definition ReasonFlowControlViolation :: reason where "ReasonFlowControlViolation = ''flow_control_violation''"
definition ReasonAuthFailed :: reason where "ReasonAuthFailed = ''auth_failed''"
definition ReasonSessionReplaced :: reason where "ReasonSessionReplaced = ''session_replaced''"
definition ReasonIdleTimeout :: reason where "ReasonIdleTimeout = ''idle_timeout''"
definition ReasonShutdown :: reason where "ReasonShutdown = ''shutdown''"
definition ReasonNoAgent :: reason where "ReasonNoAgent = ''no_agent''"

lemmas reason_defs =
  ReasonOK_def ReasonGrantInvalidSignature_def ReasonGrantExpired_def
  ReasonGrantNotYetValid_def ReasonGrantDeviceMismatch_def ReasonGrantRevoked_def
  ReasonResourceUnknown_def ReasonResourceTargetNotLoopback_def ReasonPolicyDenied_def
  ReasonLimitStreamsExceeded_def ReasonLimitBytesExceeded_def ReasonLimitFrameTooLarge_def
  ReasonTargetConnectionRefused_def ReasonTargetTimeout_def ReasonProtocolVersionUnsupported_def
  ReasonProtocolMalformedFrame_def ReasonFlowControlViolation_def ReasonAuthFailed_def
  ReasonSessionReplaced_def ReasonIdleTimeout_def ReasonShutdown_def
  ReasonNoAgent_def

text \<open>The closed list of codes, in the order of the source.\<close>

definition all_reasons :: "reason list" where
  "all_reasons =
     [ReasonOK, ReasonGrantInvalidSignature, ReasonGrantExpired,
      ReasonGrantNotYetValid, ReasonGrantDeviceMismatch, ReasonGrantRevoked,
      ReasonResourceUnknown, ReasonResourceTargetNotLoopback, ReasonPolicyDenied,
      ReasonLimitStreamsExceeded, ReasonLimitBytesExceeded, ReasonLimitFrameTooLarge,
      ReasonTargetConnectionRefused, ReasonTargetTimeout, ReasonProtocolVersionUnsupported,
      ReasonProtocolMalformedFrame, ReasonFlowControlViolation, ReasonAuthFailed,
      ReasonSessionReplaced, ReasonIdleTimeout, ReasonShutdown,
      ReasonNoAgent]"

section \<open>Frame types and headers\<close>

definition Version :: u8 where "Version = 1"
definition HeaderSize :: nat where "HeaderSize = 10"

definition offVersion :: nat where "offVersion = 0"
definition offType :: nat where "offType = 1"
definition offStreamID :: nat where "offStreamID = 2"
definition offLength :: nat where "offLength = 6"

definition TypeHello :: u8 where "TypeHello = 0x01"
definition TypeHelloAck :: u8 where "TypeHelloAck = 0x02"
definition TypeAuth :: u8 where "TypeAuth = 0x03"
definition TypeAuthOK :: u8 where "TypeAuthOK = 0x04"
definition TypeOpenStream :: u8 where "TypeOpenStream = 0x10"
definition TypeStreamOK :: u8 where "TypeStreamOK = 0x11"
definition TypeStreamData :: u8 where "TypeStreamData = 0x12"
definition TypeStreamWindow :: u8 where "TypeStreamWindow = 0x13"
definition TypeCloseStream :: u8 where "TypeCloseStream = 0x14"
definition TypePing :: u8 where "TypePing = 0x20"
definition TypePong :: u8 where "TypePong = 0x21"
definition TypeError :: u8 where "TypeError = 0x7F"

lemmas type_defs =
  TypeHello_def TypeHelloAck_def TypeAuth_def TypeAuthOK_def
  TypeOpenStream_def TypeStreamOK_def TypeStreamData_def TypeStreamWindow_def
  TypeCloseStream_def TypePing_def TypePong_def TypeError_def

text \<open>\<open>%02x\<close>: two lower-case hexadecimal digits.\<close>

definition hex_digit :: "nat \<Rightarrow> char" where
  "hex_digit n = (if n < 10 then char_of (48 + n) else char_of (87 + n))"

definition hex_u8 :: "u8 \<Rightarrow> string" where
  "hex_u8 b = [hex_digit (unat b div 16), hex_digit (unat b mod 16)]"

definition Type_String :: "u8 \<Rightarrow> string" where
  "Type_String t =
    (if t = TypeHello then ''HELLO''
     else if t = TypeHelloAck then ''HELLO_ACK''
     else if t = TypeAuth then ''AUTH''
     else if t = TypeAuthOK then ''AUTH_OK''
     else if t = TypeOpenStream then ''OPEN_STREAM''
     else if t = TypeStreamOK then ''STREAM_OK''
     else if t = TypeStreamData then ''STREAM_DATA''
     else if t = TypeStreamWindow then ''STREAM_WINDOW''
     else if t = TypeCloseStream then ''CLOSE_STREAM''
     else if t = TypePing then ''PING''
     else if t = TypePong then ''PONG''
     else if t = TypeError then ''ERROR''
     else ''UNKNOWN(0x'' @ hex_u8 t @ '')'')"

definition type_known :: "u8 \<Rightarrow> bool" where
  "type_known t \<longleftrightarrow>
     t \<in> set [TypeHello, TypeHelloAck, TypeAuth, TypeAuthOK,
       TypeOpenStream, TypeStreamOK, TypeStreamData, TypeStreamWindow,
       TypeCloseStream, TypePing, TypePong, TypeError]"

record frame =
  fr_Type :: u8
  fr_StreamID :: u32
  fr_Payload :: "byte list"

text \<open>The errors of the codec: its three sentinels, and whatever the connection reports.\<close>

datatype io_err = EOF | ErrUnexpectedEOF | IOError string

datatype proto_err =
    ErrFrameTooLarge
  | ErrMalformedFrame
  | ErrUnsupportedVersion
  | ErrIO io_err

fun ReasonFor :: "proto_err option \<Rightarrow> reason" where
  "ReasonFor None = ReasonOK"
| "ReasonFor (Some ErrFrameTooLarge) = ReasonLimitFrameTooLarge"
| "ReasonFor (Some ErrUnsupportedVersion) = ReasonProtocolVersionUnsupported"
| "ReasonFor (Some ErrMalformedFrame) = ReasonProtocolMalformedFrame"
| "ReasonFor (Some _) = ReasonShutdown"

text \<open>The destination is always a whole ten-byte header array, so encoding yields the array.\<close>

definition encodeHeader :: "u8 \<Rightarrow> u32 \<Rightarrow> u32 \<Rightarrow> byte list" where
  "encodeHeader t streamID len = [Version, t] @ put_u32 streamID @ put_u32 len"

definition decodeHeader :: "byte list \<Rightarrow> u32 \<Rightarrow> proto_err + (u8 \<times> u32 \<times> u32)" where
  "decodeHeader src mx =
    (if src ! offVersion \<noteq> Version then Inl ErrUnsupportedVersion
     else let t = src ! offType in
       if \<not> type_known t then Inl ErrMalformedFrame
       else let streamID = get_u32 (drop offStreamID src);
                len = get_u32 (drop offLength src) in
         if len > mx then Inl ErrFrameTooLarge
         else Inr (t, streamID, len))"

section \<open>Reading frames\<close>

record source =
  in_bytes :: "byte list"
  in_end :: io_err

text \<open>\<open>io.ReadFull\<close>: all \<open>n\<close> bytes, or the error the connection ends with, which is
  \<open>ErrUnexpectedEOF\<close> when some but not all of the bytes arrived before the end.\<close>

definition ReadFull :: "nat \<Rightarrow> source \<Rightarrow> (io_err + byte list) \<times> source" where
  "ReadFull n s =
    (if n \<le> length (in_bytes s)
     then (Inr (take n (in_bytes s)), s\<lparr>in_bytes := drop n (in_bytes s)\<rparr>)
     else (Inl (if in_bytes s \<noteq> [] \<and> in_end s = EOF then ErrUnexpectedEOF else in_end s),
           s\<lparr>in_bytes := []\<rparr>))"

definition ReadFrame :: "u32 \<Rightarrow> source \<Rightarrow> (proto_err + frame) \<times> source" where
  "ReadFrame mx s =
    (case ReadFull HeaderSize s of
       (Inl err, s') \<Rightarrow> (Inl (ErrIO err), s')
     | (Inr header, s') \<Rightarrow>
        (case decodeHeader header mx of
           Inl err \<Rightarrow> (Inl err, s')
         | Inr (t, streamID, len) \<Rightarrow>
            if len = 0 then (Inr \<lparr>fr_Type = t, fr_StreamID = streamID, fr_Payload = []\<rparr>, s')
            else
              (case ReadFull (unat len) s' of
                 (Inl err, s'') \<Rightarrow>
                   (if err = EOF \<or> err = ErrUnexpectedEOF then Inl ErrMalformedFrame
                    else Inl (ErrIO err), s'')
               | (Inr payload, s'') \<Rightarrow>
                   (Inr \<lparr>fr_Type = t, fr_StreamID = streamID, fr_Payload = payload\<rparr>, s''))))"

section \<open>Writing frames\<close>

text \<open>\<open>out_calls\<close> is the number of further \<open>Write\<close> calls the connection accepts (\<^const>\<open>None\<close>:
  it never fails) and \<open>out_err\<close> is what a refused call reports.\<close>

record sink =
  out_bytes :: "byte list"
  out_calls :: "nat option"
  out_err :: io_err

definition conn_Write :: "byte list \<Rightarrow> sink \<Rightarrow> io_err option \<times> sink" where
  "conn_Write b w =
    (case out_calls w of
       None \<Rightarrow> (None, w\<lparr>out_bytes := out_bytes w @ b\<rparr>)
     | Some 0 \<Rightarrow> (Some (out_err w), w)
     | Some (Suc n) \<Rightarrow> (None, w\<lparr>out_bytes := out_bytes w @ b, out_calls := Some n\<rparr>))"

definition WriteFrame :: "u32 \<Rightarrow> u8 \<Rightarrow> u32 \<Rightarrow> byte list \<Rightarrow> sink \<Rightarrow> proto_err option \<times> sink" where
  "WriteFrame mx t streamID payload w =
    (if (word_of_nat (length payload) :: u32) > mx then (Some ErrFrameTooLarge, w)
     else
       (case conn_Write (encodeHeader t streamID (word_of_nat (length payload))) w of
          (Some err, w') \<Rightarrow> (Some (ErrIO err), w')
        | (None, w') \<Rightarrow>
           if length payload > 0 then
             (case conn_Write payload w' of
                (Some err, w'') \<Rightarrow> (Some (ErrIO err), w'')
              | (None, w'') \<Rightarrow> (None, w''))
           else (None, w')))"

definition WriteClose :: "u32 \<Rightarrow> u32 \<Rightarrow> reason \<Rightarrow> sink \<Rightarrow> proto_err option \<times> sink" where
  "WriteClose mx streamID r w = WriteFrame mx TypeCloseStream streamID (bytes_of r) w"

definition WriteError :: "u32 \<Rightarrow> reason \<Rightarrow> sink \<Rightarrow> proto_err option \<times> sink" where
  "WriteError mx r w = WriteFrame mx TypeError 0 (bytes_of r) w"

section \<open>Lemmas about the codec\<close>

text \<open>The bytes one accepted frame occupies on the wire.\<close>

definition frame_bytes :: "frame \<Rightarrow> byte list" where
  "frame_bytes f =
     encodeHeader (fr_Type f) (fr_StreamID f) (word_of_nat (length (fr_Payload f))) @ fr_Payload f"

definition frame_ok :: "u32 \<Rightarrow> frame \<Rightarrow> bool" where
  "frame_ok mx f \<longleftrightarrow> type_known (fr_Type f) \<and> length (fr_Payload f) \<le> unat mx"

lemma length_encodeHeader [simp, wire_simps]: "length (encodeHeader t i n) = HeaderSize"
  by (simp add: encodeHeader_def HeaderSize_def)

lemma length_frame_bytes [simp, wire_simps]:
  "length (frame_bytes f) = HeaderSize + length (fr_Payload f)"
  by (simp add: frame_bytes_def)

lemma decodeHeader_encodeHeader [wire_simps]:
  "decodeHeader (encodeHeader t i n) mx =
     (if \<not> type_known t then Inl ErrMalformedFrame
      else if n > mx then Inl ErrFrameTooLarge else Inr (t, i, n))"
  by (simp add: decodeHeader_def encodeHeader_def offVersion_def offType_def offStreamID_def
      offLength_def Let_def drop_Cons')

lemma decodeHeader_Inr:
  assumes "decodeHeader h mx = Inr (t, i, n)" and "length h = HeaderSize"
  shows "h = encodeHeader t i n" and "type_known t" and "n \<le> mx"
proof -
  from assms(1) have v: "h ! 0 = Version" and t: "t = h ! 1" "type_known t"
    and i: "i = get_u32 (drop 2 h)" and n: "n = get_u32 (drop 6 h)" "n \<le> mx"
    by (auto simp: decodeHeader_def offVersion_def offType_def offStreamID_def offLength_def
        Let_def split: if_splits)
  from assms(2) have h: "h = [h ! 0, h ! 1] @ take 4 (drop 2 h) @ take 4 (drop 6 h)"
    by (auto simp: HeaderSize_def eval_nat_numeral length_Suc_conv)
  have "put_u32 i = take 4 (drop 2 h)" "put_u32 n = take 4 (drop 6 h)"
    using assms(2) i n(1) by (simp_all add: put_get_u32 HeaderSize_def)
  with h v t(1) show "h = encodeHeader t i n"
    by (simp add: encodeHeader_def)
qed (use assms(1) in \<open>auto simp: decodeHeader_def Let_def split: if_splits\<close>)

lemma ReadFull_append [wire_simps]:
  "ReadFull n \<lparr>in_bytes = a @ r, in_end = e\<rparr> = (Inr a, \<lparr>in_bytes = r, in_end = e\<rparr>)"
  if "length a = n"
  using that by (simp add: ReadFull_def)

lemma ReadFull_Inr:
  "ReadFull n s = (Inr a, s') \<Longrightarrow>
     in_bytes s = a @ in_bytes s' \<and> length a = n \<and> in_end s' = in_end s"
  by (auto simp: ReadFull_def split: if_splits)

lemma ReadFull_Inl:
  "ReadFull n s = (Inl e, s') \<Longrightarrow> length (in_bytes s) < n \<and> in_bytes s' = [] \<and> in_end s' = in_end s"
  by (auto simp: ReadFull_def split: if_splits)

lemma ReadFrame_frame_bytes [wire_simps]:
  assumes "frame_ok mx f"
  shows "ReadFrame mx \<lparr>in_bytes = frame_bytes f @ r, in_end = e\<rparr> =
           (Inr f, \<lparr>in_bytes = r, in_end = e\<rparr>)"
proof -
  let ?n = "length (fr_Payload f)"
  have le: "?n \<le> unat mx" using assms by (simp add: frame_ok_def)
  then have un: "unat (word_of_nat ?n :: u32) = ?n"
    by (rule unat_word_of_nat_le)
  then have nmx: "\<not> (word_of_nat ?n :: u32) > mx"
    using le by (simp add: word_less_nat_alt)
  have z: "(word_of_nat ?n :: u32) = 0 \<longleftrightarrow> fr_Payload f = []"
    using un by (metis length_0_conv unat_eq_zero)
  show ?thesis
  proof (cases "fr_Payload f = []")
    case True
    then show ?thesis using assms
      by (cases f) (simp add: ReadFrame_def frame_bytes_def ReadFull_append
          decodeHeader_encodeHeader frame_ok_def)
  next
    case False
    then show ?thesis using assms un nmx z
      by (cases f) (simp add: ReadFrame_def frame_bytes_def ReadFull_append
          decodeHeader_encodeHeader frame_ok_def)
  qed
qed

lemma ReadFrame_Inr:
  assumes "ReadFrame mx s = (Inr f, s')"
  shows "in_bytes s = frame_bytes f @ in_bytes s'" and "frame_ok mx f" and "in_end s' = in_end s"
proof -
  from assms obtain h s1 t i n where h: "ReadFull HeaderSize s = (Inr h, s1)"
    and d: "decodeHeader h mx = Inr (t, i, n)"
    by (auto simp: ReadFrame_def split: prod.splits sum.splits)
  note h' = ReadFull_Inr [OF h]
  note d' = decodeHeader_Inr [OF d h' [THEN conjunct2, THEN conjunct1]]
  have "in_bytes s = frame_bytes f @ in_bytes s' \<and> frame_ok mx f \<and> in_end s' = in_end s"
  proof (cases "n = 0")
    case True
    then show ?thesis using assms h d h' d'
      by (auto simp: ReadFrame_def frame_bytes_def frame_ok_def)
  next
    case False
    with assms h d obtain p where p: "ReadFull (unat n) s1 = (Inr p, s')"
      and f: "f = \<lparr>fr_Type = t, fr_StreamID = i, fr_Payload = p\<rparr>"
      by (auto simp: ReadFrame_def split: prod.splits sum.splits if_splits)
    from ReadFull_Inr [OF p] h' d' f show ?thesis
      by (auto simp: frame_bytes_def frame_ok_def word_le_nat_alt)
  qed
  then show "in_bytes s = frame_bytes f @ in_bytes s'" and "frame_ok mx f"
    and "in_end s' = in_end s" by blast+
qed

lemma WriteFrame_ok [wire_simps]:
  assumes "length p \<le> unat mx" and "out_calls w = None"
  shows "WriteFrame mx t i p w =
    (None, w\<lparr>out_bytes := out_bytes w @
      frame_bytes \<lparr>fr_Type = t, fr_StreamID = i, fr_Payload = p\<rparr>\<rparr>)"
proof -
  have "unat (word_of_nat (length p) :: u32) = length p"
    using assms(1) by (rule unat_word_of_nat_le)
  then have "\<not> (word_of_nat (length p) :: u32) > mx"
    using assms(1) by (simp add: word_less_nat_alt)
  with assms(2) show ?thesis
    by (cases "p = []") (simp_all add: WriteFrame_def conn_Write_def frame_bytes_def)
qed

text \<open>A connection carries a sequence of frames: the writer's calls in order, and as many reads.\<close>

fun WriteFrames :: "u32 \<Rightarrow> frame list \<Rightarrow> sink \<Rightarrow> proto_err option \<times> sink" where
  "WriteFrames mx [] w = (None, w)"
| "WriteFrames mx (f # fs) w =
    (case WriteFrame mx (fr_Type f) (fr_StreamID f) (fr_Payload f) w of
       (None, w') \<Rightarrow> WriteFrames mx fs w'
     | (Some err, w') \<Rightarrow> (Some err, w'))"

fun ReadFrames :: "u32 \<Rightarrow> nat \<Rightarrow> source \<Rightarrow> (proto_err + frame list) \<times> source" where
  "ReadFrames mx 0 s = (Inr [], s)"
| "ReadFrames mx (Suc n) s =
    (case ReadFrame mx s of
       (Inl err, s') \<Rightarrow> (Inl err, s')
     | (Inr f, s') \<Rightarrow>
        (case ReadFrames mx n s' of
           (Inl err, s'') \<Rightarrow> (Inl err, s'')
         | (Inr fs, s'') \<Rightarrow> (Inr (f # fs), s'')))"

lemma WriteFrames_ok:
  "\<forall>f \<in> set fs. frame_ok mx f \<Longrightarrow> out_calls w = None \<Longrightarrow>
     WriteFrames mx fs w = (None, w\<lparr>out_bytes := out_bytes w @ concat (map frame_bytes fs)\<rparr>)"
  by (induction fs arbitrary: w) (simp_all add: frame_ok_def WriteFrame_ok frame_bytes_def)

lemma ReadFrames_ok:
  "\<forall>f \<in> set fs. frame_ok mx f \<Longrightarrow>
     ReadFrames mx (length fs) \<lparr>in_bytes = concat (map frame_bytes fs) @ r, in_end = e\<rparr> =
       (Inr fs, \<lparr>in_bytes = r, in_end = e\<rparr>)"
  by (induction fs) (simp_all add: ReadFrame_frame_bytes)

lemma ReadFrame_Inr_iff:
  "ReadFrame mx s = (Inr f, s') \<longleftrightarrow>
     frame_ok mx f \<and> in_bytes s = frame_bytes f @ in_bytes s' \<and> in_end s' = in_end s"
  by (metis ReadFrame_Inr ReadFrame_frame_bytes source.surjective unit.exhaust)

section \<open>Properties\<close>

text \<open>A sequence of frames of known types within the payload limit, written one after the
  other to a connection that accepts the writes, is read back by the peer as exactly the same
  sequence, and the bytes that follow are left untouched.\<close>
theorem frames_roundtrip:
  assumes "\<forall>f \<in> set fs. frame_ok mx f" and "out_calls w = None" and "out_bytes w = []"
  shows "\<exists>w'. WriteFrames mx fs w = (None, w') \<and>
           ReadFrames mx (length fs) \<lparr>in_bytes = out_bytes w' @ r, in_end = e\<rparr> =
             (Inr fs, \<lparr>in_bytes = r, in_end = e\<rparr>)"
  using assms by (simp add: WriteFrames_ok ReadFrames_ok)

theorem frames_roundtrip_witness:
  "\<exists>w'. WriteFrames 4 [\<lparr>fr_Type = TypePing, fr_StreamID = 0, fr_Payload = []\<rparr>,
                        \<lparr>fr_Type = TypeStreamData, fr_StreamID = 7, fr_Payload = [1, 2, 3]\<rparr>]
              \<lparr>out_bytes = [], out_calls = None, out_err = EOF\<rparr> = (None, w') \<and>
     ReadFrames 4 2 \<lparr>in_bytes = out_bytes w' @ [9], in_end = EOF\<rparr> =
       (Inr [\<lparr>fr_Type = TypePing, fr_StreamID = 0, fr_Payload = []\<rparr>,
             \<lparr>fr_Type = TypeStreamData, fr_StreamID = 7, fr_Payload = [1, 2, 3]\<rparr>],
        \<lparr>in_bytes = [9], in_end = EOF\<rparr>)"
proof -
  let ?fs = "[\<lparr>fr_Type = TypePing, fr_StreamID = 0, fr_Payload = []\<rparr>,
      \<lparr>fr_Type = TypeStreamData, fr_StreamID = 7, fr_Payload = [1, 2, 3]\<rparr>]"
  have "\<forall>f \<in> set ?fs. frame_ok 4 f"
    by (simp add: frame_ok_def type_known_def)
  moreover have "length ?fs = 2" by simp
  ultimately show ?thesis
    using frames_roundtrip [of ?fs 4 "\<lparr>out_bytes = [], out_calls = None, out_err = EOF\<rparr>" "[9]" EOF]
    by (simp del: WriteFrames.simps ReadFrames.simps list.size)
qed

text \<open>C19: The reader accepts a frame exactly when the input begins with that frame's unique
  encoding, its type is known and its payload is within the limit; it then consumes those bytes
  and no others. No two byte sequences decode to the same frame.\<close>
theorem ReadFrame_exact:
  "ReadFrame mx s = (Inr f, s') \<longleftrightarrow>
     type_known (fr_Type f) \<and> length (fr_Payload f) \<le> unat mx \<and>
     in_bytes s = encodeHeader (fr_Type f) (fr_StreamID f) (word_of_nat (length (fr_Payload f))) @
                    fr_Payload f @ in_bytes s' \<and>
     in_end s' = in_end s"
  by (simp add: ReadFrame_Inr_iff frame_ok_def frame_bytes_def)

text \<open>What the reader does with a well-formed header of the current version followed by any
  bytes at all: an unknown type or a declared length above the limit is refused with nothing but
  the header consumed, however long the declared payload is, and a payload cut short by the end
  of the connection is a malformed frame and never a clean end of stream.\<close>
theorem ReadFrame_header_cases:
  "ReadFrame mx \<lparr>in_bytes = encodeHeader t i n @ r, in_end = EOF\<rparr> =
    (if \<not> type_known t then (Inl ErrMalformedFrame, \<lparr>in_bytes = r, in_end = EOF\<rparr>)
     else if n > mx then (Inl ErrFrameTooLarge, \<lparr>in_bytes = r, in_end = EOF\<rparr>)
     else if length r < unat n then (Inl ErrMalformedFrame, \<lparr>in_bytes = [], in_end = EOF\<rparr>)
     else (Inr \<lparr>fr_Type = t, fr_StreamID = i, fr_Payload = take (unat n) r\<rparr>,
           \<lparr>in_bytes = drop (unat n) r, in_end = EOF\<rparr>))"
  by (auto simp: ReadFrame_def ReadFull_append decodeHeader_encodeHeader ReadFull_def)

end
