(* ===== verification/Proto_Handshake.thy ===== *)
theory Proto_Handshake
  imports Proto_Frame
begin

text \<open>
  The handshake payloads of \<open>internal/proto/handshake.go\<close>: \<open>HELLO\<close>, \<open>HELLO_ACK\<close>, \<open>AUTH\<close>,
  \<open>AUTH_OK\<close> and the flow-control credit, each with its encoder and its validating decoder,
  and the length-prefixed strings they share with the grant format.
\<close>

section \<open>Roles\<close>

definition RoleAgent :: u8 where "RoleAgent = 1"
definition RoleOperator :: u8 where "RoleOperator = 2"

text \<open>\<open>%d\<close>: decimal digits without leading zeros.\<close>

fun show_nat :: "nat \<Rightarrow> string" where
  "show_nat n = (if n < 10 then [char_of (48 + n)]
                 else show_nat (n div 10) @ [char_of (48 + n mod 10)])"

declare show_nat.simps [simp del]

definition Role_String :: "u8 \<Rightarrow> string" where
  "Role_String r =
    (if r = RoleAgent then ''agent''
     else if r = RoleOperator then ''operator''
     else ''UNKNOWN('' @ show_nat (unat r) @ '')'')"

definition Role_known :: "u8 \<Rightarrow> bool" where
  "Role_known r \<longleftrightarrow> r = RoleAgent \<or> r = RoleOperator"

definition MaxIdentityLen :: nat where "MaxIdentityLen = 128"

section \<open>Length-prefixed strings\<close>

text \<open>The prefix is \<open>uint16(len(s))\<close>: it wraps for strings of 65536 bytes and more.\<close>

definition appendString :: "byte list \<Rightarrow> string \<Rightarrow> byte list" where
  "appendString dst s = dst @ put_u16 (word_of_nat (length s)) @ bytes_of s"

definition takeString :: "byte list \<Rightarrow> proto_err + (string \<times> byte list)" where
  "takeString b =
    (if length b < 2 then Inl ErrMalformedFrame
     else let n = unat (get_u16 b) in
       if n > MaxIdentityLen then Inl ErrMalformedFrame
       else if length b < 2 + n then Inl ErrMalformedFrame
       else Inr (string_of (take n (drop 2 b)), drop (2 + n) b))"

section \<open>Hello\<close>

record hello =
  h_MinVersion :: u8
  h_MaxVersion :: u8
  h_Role :: u8

definition helloSize :: nat where "helloSize = 4"

definition Hello_Encode :: "hello \<Rightarrow> byte list" where
  "Hello_Encode h = [h_MinVersion h, h_MaxVersion h, h_Role h, 0]"

definition DecodeHello :: "byte list \<Rightarrow> proto_err + hello" where
  "DecodeHello b =
    (if length b \<noteq> helloSize then Inl ErrMalformedFrame
     else let h = \<lparr>h_MinVersion = b ! 0, h_MaxVersion = b ! 1, h_Role = b ! 2\<rparr> in
       if h_MinVersion h > h_MaxVersion h then Inl ErrMalformedFrame
       else if \<not> Role_known (h_Role h) then Inl ErrMalformedFrame
       else Inr h)"

section \<open>HelloAck\<close>

record hello_ack =
  k_Version :: u8
  k_MaxFramePayload :: u32
  k_InitialWindow :: u32
  k_MaxStreams :: u32

definition helloAckSize :: nat where "helloAckSize = 1 + 4 + 4 + 4"

definition HelloAck_Encode :: "hello_ack \<Rightarrow> byte list" where
  "HelloAck_Encode a =
     [k_Version a] @ put_u32 (k_MaxFramePayload a) @ put_u32 (k_InitialWindow a) @
     put_u32 (k_MaxStreams a)"

definition DecodeHelloAck :: "byte list \<Rightarrow> proto_err + hello_ack" where
  "DecodeHelloAck b =
    (if length b \<noteq> helloAckSize then Inl ErrMalformedFrame
     else let a = \<lparr>k_Version = b ! 0, k_MaxFramePayload = get_u32 (drop 1 b),
                   k_InitialWindow = get_u32 (drop 5 b), k_MaxStreams = get_u32 (drop 9 b)\<rparr> in
       if k_MaxFramePayload a = 0 \<or> k_MaxFramePayload a > MaxFramePayload
         then Inl ErrMalformedFrame
       else if k_InitialWindow a = 0 then Inl ErrMalformedFrame
       else if k_MaxStreams a = 0 then Inl ErrMalformedFrame
       else Inr a)"

section \<open>Auth and AuthOK\<close>

record auth =
  a_DeviceID :: string
  a_UserID :: string
  a_Resource :: string

definition Auth_Encode :: "auth \<Rightarrow> byte list" where
  "Auth_Encode a =
     appendString (appendString (appendString [] (a_DeviceID a)) (a_UserID a)) (a_Resource a)"

definition DecodeAuth :: "byte list \<Rightarrow> proto_err + auth" where
  "DecodeAuth b =
    (case takeString b of
       Inl err \<Rightarrow> Inl err
     | Inr (device, b) \<Rightarrow>
        (case takeString b of
           Inl err \<Rightarrow> Inl err
         | Inr (user, b) \<Rightarrow>
            (case takeString b of
               Inl err \<Rightarrow> Inl err
             | Inr (resource, b) \<Rightarrow>
                if length b \<noteq> 0 then Inl ErrMalformedFrame
                else Inr \<lparr>a_DeviceID = device, a_UserID = user, a_Resource = resource\<rparr>)))"

definition AuthOK_Encode :: "string \<Rightarrow> byte list" where
  "AuthOK_Encode sessionID = appendString [] sessionID"

definition DecodeAuthOK :: "byte list \<Rightarrow> proto_err + string" where
  "DecodeAuthOK b =
    (case takeString b of
       Inl err \<Rightarrow> Inl err
     | Inr (sid, rest) \<Rightarrow> if length rest \<noteq> 0 then Inl ErrMalformedFrame else Inr sid)"

section \<open>Flow-control credit\<close>

definition EncodeWindow :: "u32 \<Rightarrow> byte list" where
  "EncodeWindow credit = put_u32 credit"

definition DecodeWindow :: "byte list \<Rightarrow> proto_err + u32" where
  "DecodeWindow b =
    (if length b \<noteq> 4 then Inl ErrMalformedFrame
     else let credit = get_u32 b in
       if credit = 0 then Inl ErrMalformedFrame else Inr credit)"

section \<open>Lemmas\<close>

lemma length_appendString [simp, wire_simps]:
  "length (appendString d s) = length d + 2 + length s"
  by (simp add: appendString_def)

lemma appendString_append: "appendString d s = d @ appendString [] s"
  by (simp add: appendString_def)

lemma takeString_appendString [wire_simps]:
  assumes "length s \<le> MaxIdentityLen"
  shows "takeString (appendString [] s @ r) = Inr (s, r)"
proof -
  have "unat (word_of_nat (length s) :: u16) = length s"
    using assms by (simp add: unat_of_nat MaxIdentityLen_def)
  then show ?thesis
    using assms by (simp add: takeString_def appendString_def Let_def)
qed

lemma takeString_Inr:
  assumes "takeString b = Inr (s, r)"
  shows "b = appendString [] s @ r" and "length s \<le> MaxIdentityLen"
proof -
  let ?n = "unat (get_u16 b)"
  from assms have l: "2 + ?n \<le> length b" and n: "?n \<le> MaxIdentityLen"
    and s: "s = string_of (take ?n (drop 2 b))" and r: "r = drop (2 + ?n) b"
    by (auto simp: takeString_def Let_def split: if_splits)
  from s l have ls: "length s = ?n" by simp
  have "put_u16 (word_of_nat (length s)) = take 2 b"
    using l by (simp add: ls put_get_u16)
  moreover have "b = take 2 b @ take ?n (drop 2 b) @ drop (2 + ?n) b"
    by (metis append_take_drop_id drop_drop add.commute)
  ultimately show "b = appendString [] s @ r"
    by (simp add: appendString_def s r)
  show "length s \<le> MaxIdentityLen" using ls n by simp
qed

lemma takeString_InrD:
  "takeString b = Inr (s, r) \<Longrightarrow> b = appendString [] s @ r \<and> length s \<le> MaxIdentityLen"
  by (simp add: takeString_Inr)

lemma takeString_appendString_Nil [wire_simps]:
  "length s \<le> MaxIdentityLen \<Longrightarrow> takeString (appendString [] s) = Inr (s, [])"
  using takeString_appendString [of s "[]"] by simp

lemma takeString_too_long:
  "MaxIdentityLen < length s \<Longrightarrow> length s < 65536 \<Longrightarrow>
     takeString (appendString [] s @ r) = Inl ErrMalformedFrame"
  by (simp add: takeString_def appendString_def unat_of_nat Let_def)

lemma takeString_error: "takeString b = Inl e \<Longrightarrow> e = ErrMalformedFrame"
  by (auto simp: takeString_def Let_def split: if_splits)

lemma DecodeHello_Encode [wire_simps]:
  "h_MinVersion h \<le> h_MaxVersion h \<Longrightarrow> Role_known (h_Role h) \<Longrightarrow>
     DecodeHello (Hello_Encode h) = Inr h"
  by (simp add: DecodeHello_def Hello_Encode_def helloSize_def Let_def not_less)

lemma DecodeHello_Inr:
  "DecodeHello b = Inr h \<Longrightarrow> h_MinVersion h \<le> h_MaxVersion h \<and> Role_known (h_Role h)"
  by (auto simp: DecodeHello_def Let_def split: if_splits)

lemma DecodeHello_error: "DecodeHello b = Inl e \<Longrightarrow> e = ErrMalformedFrame"
  by (auto simp: DecodeHello_def Let_def split: if_splits)

definition ack_ok :: "hello_ack \<Rightarrow> bool" where
  "ack_ok a \<longleftrightarrow> k_MaxFramePayload a \<noteq> 0 \<and> k_MaxFramePayload a \<le> MaxFramePayload \<and>
     k_InitialWindow a \<noteq> 0 \<and> k_MaxStreams a \<noteq> 0"

lemma DecodeHelloAck_Encode [wire_simps]:
  "DecodeHelloAck (HelloAck_Encode a) = (if ack_ok a then Inr a else Inl ErrMalformedFrame)"
  by (auto simp: DecodeHelloAck_def HelloAck_Encode_def helloAckSize_def Let_def drop_Cons'
      ack_ok_def not_less)

lemma DecodeHelloAck_Inr:
  assumes "DecodeHelloAck b = Inr a"
  shows "ack_ok a" and "b = HelloAck_Encode a"
proof -
  from assms have l: "length b = 13" and a: "a = \<lparr>k_Version = b ! 0, k_MaxFramePayload = get_u32 (drop 1 b),
        k_InitialWindow = get_u32 (drop 5 b), k_MaxStreams = get_u32 (drop 9 b)\<rparr>"
    and ok: "ack_ok a"
    by (auto simp: DecodeHelloAck_def helloAckSize_def ack_ok_def Let_def not_less split: if_splits)
  have "b = [b ! 0] @ take 4 (drop 1 b) @ take 4 (drop 5 b) @ take 4 (drop 9 b)"
    using l by (auto simp: eval_nat_numeral length_Suc_conv)
  then show "b = HelloAck_Encode a"
    using l by (simp add: a HelloAck_Encode_def put_get_u32)
  show "ack_ok a" by (rule ok)
qed

definition auth_ok :: "auth \<Rightarrow> bool" where
  "auth_ok a \<longleftrightarrow> length (a_DeviceID a) \<le> MaxIdentityLen \<and> length (a_UserID a) \<le> MaxIdentityLen \<and>
     length (a_Resource a) \<le> MaxIdentityLen"

lemma Auth_Encode_append:
  "Auth_Encode a = appendString [] (a_DeviceID a) @ appendString [] (a_UserID a) @
     appendString [] (a_Resource a) @ []"
  by (simp add: Auth_Encode_def appendString_def)

lemma DecodeAuth_Encode [wire_simps]: "auth_ok a \<Longrightarrow> DecodeAuth (Auth_Encode a) = Inr a"
  unfolding Auth_Encode_append auth_ok_def DecodeAuth_def
  by (cases a) (simp add: takeString_appendString takeString_appendString_Nil)

lemma DecodeAuth_Inr:
  assumes "DecodeAuth b = Inr a"
  shows "b = Auth_Encode a" and "auth_ok a"
  using assms
  by (auto simp: DecodeAuth_def Auth_Encode_append auth_ok_def split: sum.splits prod.splits if_splits
      dest!: takeString_InrD)

lemma DecodeAuth_error: "DecodeAuth b = Inl e \<Longrightarrow> e = ErrMalformedFrame"
  by (auto simp: DecodeAuth_def split: sum.splits prod.splits if_splits dest!: takeString_error)

lemma DecodeAuthOK_Encode [wire_simps]:
  "length s \<le> MaxIdentityLen \<Longrightarrow> DecodeAuthOK (AuthOK_Encode s) = Inr s"
  by (simp add: DecodeAuthOK_def AuthOK_Encode_def takeString_appendString_Nil)

lemma DecodeAuthOK_Inr:
  "DecodeAuthOK b = Inr s \<Longrightarrow> b = AuthOK_Encode s \<and> length s \<le> MaxIdentityLen"
  by (auto simp: DecodeAuthOK_def AuthOK_Encode_def split: sum.splits prod.splits if_splits
      dest!: takeString_InrD)

lemma DecodeWindow_Encode [wire_simps]:
  "DecodeWindow (EncodeWindow c) = (if c = 0 then Inl ErrMalformedFrame else Inr c)"
  by (simp add: DecodeWindow_def EncodeWindow_def Let_def)

lemma DecodeWindow_Inr: "DecodeWindow b = Inr c \<Longrightarrow> c \<noteq> 0 \<and> b = EncodeWindow c"
  by (auto simp: DecodeWindow_def EncodeWindow_def Let_def put_get_u32 split: if_splits)

definition hello_ok :: "hello \<Rightarrow> bool" where
  "hello_ok h \<longleftrightarrow> h_MinVersion h \<le> h_MaxVersion h \<and> Role_known (h_Role h)"

text \<open>All payloads but \<open>HELLO\<close>, whose reserved byte the decoder skips, are strict.\<close>

interpretation hello_wire: wire_codec Hello_Encode DecodeHello hello_ok
  by unfold_locales (simp_all add: hello_ok_def DecodeHello_Encode DecodeHello_Inr)

interpretation ack_wire: strict_codec HelloAck_Encode DecodeHelloAck ack_ok
  by unfold_locales (simp_all add: DecodeHelloAck_Encode DecodeHelloAck_Inr)

interpretation auth_wire: strict_codec Auth_Encode DecodeAuth auth_ok
  by unfold_locales (simp_all add: DecodeAuth_Encode DecodeAuth_Inr)

interpretation auth_ok_wire: strict_codec AuthOK_Encode DecodeAuthOK "\<lambda>s. length s \<le> MaxIdentityLen"
  by unfold_locales (simp_all add: DecodeAuthOK_Encode DecodeAuthOK_Inr)

interpretation window_wire: strict_codec EncodeWindow DecodeWindow "\<lambda>c. c \<noteq> 0"
  by unfold_locales (simp_all add: DecodeWindow_Encode DecodeWindow_Inr)

text \<open>A message that is sent as the payload of one frame arrives as it was sent.\<close>

context wire_codec
begin

lemma framed:
  assumes "ok a" and "type_known t" and "length (enc a) \<le> unat mx" and "out_calls w = None"
  shows "\<exists>w' f. WriteFrame mx t i (enc a) w = (None, w') \<and> out_calls w' = None \<and>
           out_bytes w' = out_bytes w @ frame_bytes f \<and> fr_Type f = t \<and> fr_StreamID f = i \<and>
           (\<forall>r e. ReadFrame mx \<lparr>in_bytes = frame_bytes f @ r, in_end = e\<rparr> =
              (Inr f, \<lparr>in_bytes = r, in_end = e\<rparr>)) \<and> dec (fr_Payload f) = Inr a"
proof -
  let ?f = "\<lparr>fr_Type = t, fr_StreamID = i, fr_Payload = enc a\<rparr>"
  have "frame_ok mx ?f" using assms by (simp add: frame_ok_def)
  with assms show ?thesis
    by (intro exI [of _ "w\<lparr>out_bytes := out_bytes w @ frame_bytes ?f\<rparr>"] exI [of _ ?f])
      (simp add: WriteFrame_ok ReadFrame_frame_bytes dec_enc)
qed

end

section \<open>Properties\<close>


end
