(* ===== verification/Proto_Grant.thy ===== *)
theory Proto_Grant
  imports Proto_Handshake
begin

text \<open>
  Signed grants, \<open>internal/proto/grant.go\<close>: the canonical bytes a signature covers, issuing,
  the wire format, and offline verification. Ed25519 is not code of this program: signing and
  verifying are arguments \<open>ed_sign\<close> and \<open>ed_verify\<close> of the definitions that call them, and
  the facts a theorem needs of them are hypotheses of that theorem.
\<close>

section \<open>Data\<close>

definition GrantVersion :: u8 where "GrantVersion = 1"
definition MaxGrantTTL :: duration where "MaxGrantTTL = 30 * Minute"
definition ClockSkewTolerance :: duration where "ClockSkewTolerance = 30 * Second"
definition SignatureSize :: nat where "SignatureSize = 64"

record grant =
  g_Version :: u8
  g_KeyID :: string
  g_GrantID :: string
  g_OrgID :: string
  g_UserID :: string
  g_DeviceID :: string
  g_ResourceID :: string
  g_IssuedAt :: time
  g_ExpiresAt :: time
  g_MaxBytes :: u64

record signed_grant = grant +
  sg_Signature :: "byte list"

datatype grant_err = ErrGrantMalformed | ErrGrantVersion | ErrGrantSignature | ErrGrantExpired
  | ErrGrantNotYetValid | ErrGrantDeviceMismatch | ErrGrantTTLTooLong

fun ReasonForGrant :: "grant_err option \<Rightarrow> reason" where
  "ReasonForGrant None = ReasonOK"
| "ReasonForGrant (Some ErrGrantExpired) = ReasonGrantExpired"
| "ReasonForGrant (Some ErrGrantNotYetValid) = ReasonGrantNotYetValid"
| "ReasonForGrant (Some ErrGrantDeviceMismatch) = ReasonGrantDeviceMismatch"
| "ReasonForGrant (Some _) = ReasonGrantInvalidSignature"

section \<open>Operations\<close>

definition canonical :: "'a grant_scheme \<Rightarrow> byte list" where
  "canonical g =
    (let b = [] @ [g_Version g];
         b = appendString b (g_KeyID g);
         b = appendString b (g_GrantID g);
         b = appendString b (g_OrgID g);
         b = appendString b (g_UserID g);
         b = appendString b (g_DeviceID g);
         b = appendString b (g_ResourceID g);
         b = b @ put_u64 (Unix_secs (g_IssuedAt g));
         b = b @ put_u64 (Unix_secs (g_ExpiresAt g));
         b = b @ put_u64 (g_MaxBytes g)
     in b)"

definition Sign :: "('sk \<Rightarrow> byte list \<Rightarrow> byte list) \<Rightarrow> grant \<Rightarrow> 'sk \<Rightarrow> grant_err + signed_grant" where
  "Sign ed_sign g key =
    (let g = (if g_Version g = 0 then g\<lparr>g_Version := GrantVersion\<rparr> else g) in
     if g_Version g \<noteq> GrantVersion then Inl ErrGrantVersion
     else if time_Sub (g_ExpiresAt g) (g_IssuedAt g) > MaxGrantTTL then Inl ErrGrantTTLTooLong
     else if g_DeviceID g = '''' \<or> g_ResourceID g = '''' \<or> g_GrantID g = '''' then Inl ErrGrantMalformed
     else let g = g\<lparr>g_IssuedAt := Truncate_sec (g_IssuedAt g),
                     g_ExpiresAt := Truncate_sec (g_ExpiresAt g)\<rparr> in
       Inr (grant.extend g \<lparr>sg_Signature = ed_sign key (canonical g)\<rparr>))"

definition SignedGrant_Encode :: "signed_grant \<Rightarrow> byte list" where
  "SignedGrant_Encode s = canonical s @ sg_Signature s"

text \<open>The loop over the six string fields.\<close>

fun takeStrings :: "nat \<Rightarrow> byte list \<Rightarrow> proto_err + (string list \<times> byte list)" where
  "takeStrings 0 rest = Inr ([], rest)"
| "takeStrings (Suc n) rest =
    (case takeString rest of
       Inl err \<Rightarrow> Inl err
     | Inr (s, rest) \<Rightarrow>
        (case takeStrings n rest of
           Inl err \<Rightarrow> Inl err
         | Inr (ss, rest) \<Rightarrow> Inr (s # ss, rest)))"

definition DecodeGrant :: "byte list \<Rightarrow> grant_err + signed_grant" where
  "DecodeGrant b =
    (if length b < SignatureSize + 1 then Inl ErrGrantMalformed
     else let body = take (length b - SignatureSize) b;
              sig = drop (length b - SignatureSize) b in
       if body ! 0 \<noteq> GrantVersion then Inl ErrGrantVersion
       else
         (case takeStrings 6 (drop 1 body) of
            Inl err \<Rightarrow> Inl ErrGrantMalformed
          | Inr (fs, rest) \<Rightarrow>
              if length rest \<noteq> 24 then Inl ErrGrantMalformed
              else Inr
                \<lparr>g_Version = body ! 0, g_KeyID = fs ! 0, g_GrantID = fs ! 1,
                 g_OrgID = fs ! 2, g_UserID = fs ! 3, g_DeviceID = fs ! 4,
                 g_ResourceID = fs ! 5, g_IssuedAt = time_Unix (get_u64 rest),
                 g_ExpiresAt = time_Unix (get_u64 (drop 8 rest)),
                 g_MaxBytes = get_u64 (drop 16 rest), sg_Signature = sig\<rparr>))"

definition Verify ::
  "('pk \<Rightarrow> byte list \<Rightarrow> byte list \<Rightarrow> bool) \<Rightarrow> signed_grant \<Rightarrow> 'pk \<Rightarrow> time \<Rightarrow> string \<Rightarrow> grant_err option" where
  "Verify ed_verify s pub now deviceID =
    (if g_Version s \<noteq> GrantVersion then Some ErrGrantVersion
     else if length (sg_Signature s) \<noteq> SignatureSize then Some ErrGrantSignature
     else if \<not> ed_verify pub (canonical s) (sg_Signature s) then Some ErrGrantSignature
     else if time_Sub (g_ExpiresAt s) (g_IssuedAt s) > MaxGrantTTL then Some ErrGrantTTLTooLong
     else if now + ClockSkewTolerance < g_IssuedAt s then Some ErrGrantNotYetValid
     else if now - ClockSkewTolerance > g_ExpiresAt s then Some ErrGrantExpired
     else if deviceID \<noteq> '''' \<and> g_DeviceID s \<noteq> deviceID then Some ErrGrantDeviceMismatch
     else None)"

definition Remaining :: "signed_grant \<Rightarrow> time \<Rightarrow> duration" where
  "Remaining s now = (let d = time_Sub (g_ExpiresAt s) now in if d < 0 then 0 else d)"

section \<open>The wire format\<close>

definition g_strings :: "'a grant_scheme \<Rightarrow> string list" where
  "g_strings g = [g_KeyID g, g_GrantID g, g_OrgID g, g_UserID g, g_DeviceID g, g_ResourceID g]"

definition g_tail :: "'a grant_scheme \<Rightarrow> byte list" where
  "g_tail g = put_u64 (Unix_secs (g_IssuedAt g)) @ put_u64 (Unix_secs (g_ExpiresAt g)) @
     put_u64 (g_MaxBytes g)"

text \<open>Times the wire can represent: whole seconds in the 64-bit range.\<close>

definition wire_time :: "time \<Rightarrow> bool" where
  "wire_time t \<longleftrightarrow> time_ok t \<and> Truncate_sec t = t"

definition signed_ok :: "signed_grant \<Rightarrow> bool" where
  "signed_ok s \<longleftrightarrow> g_Version s = GrantVersion \<and> (\<forall>x \<in> set (g_strings s). length x \<le> MaxIdentityLen) \<and>
     wire_time (g_IssuedAt s) \<and> wire_time (g_ExpiresAt s) \<and> length (sg_Signature s) = SignatureSize"

lemma canonical_layout:
  "canonical g = g_Version g # concat (map (appendString []) (g_strings g)) @ g_tail g"
  by (simp add: canonical_def g_strings_def g_tail_def appendString_def Let_def)

lemma length_g_strings [simp]: "length (g_strings g) = 6"
  by (simp add: g_strings_def)

lemma length_g_tail [simp]: "length (g_tail g) = 24"
  by (simp add: g_tail_def)

lemma takeStrings_ok:
  "n = length ss \<Longrightarrow> \<forall>s \<in> set ss. length s \<le> MaxIdentityLen \<Longrightarrow>
     takeStrings n (concat (map (appendString []) ss) @ r) = Inr (ss, r)"
  by (induction ss arbitrary: n) (simp_all add: takeString_appendString)

lemma takeStrings_Inr:
  "takeStrings n b = Inr (ss, r) \<Longrightarrow>
     length ss = n \<and> b = concat (map (appendString []) ss) @ r \<and>
     (\<forall>s \<in> set ss. length s \<le> MaxIdentityLen)"
  by (induction n arbitrary: b ss r)
    (fastforce split: sum.splits prod.splits dest!: takeString_InrD)+

lemma wire_time_Unix [simp]: "wire_time (time_Unix w)"
  by (simp add: wire_time_def)

lemma time_Unix_wire [simp]: "wire_time t \<Longrightarrow> time_Unix (Unix_secs t) = t"
  by (simp add: wire_time_def time_Unix_Unix_secs)

lemma DecodeGrant_Encode:
  assumes "signed_ok s"
  shows "DecodeGrant (SignedGrant_Encode s) = Inr s"
proof -
  have n: "length (SignedGrant_Encode s) - SignatureSize = length (canonical s)"
    using assms by (simp add: SignedGrant_Encode_def signed_ok_def)
  have "takeStrings 6 (concat (map (appendString []) (g_strings s)) @ g_tail s) = Inr (g_strings s, g_tail s)"
    using assms by (intro takeStrings_ok) (simp_all add: signed_ok_def)
  moreover have "get_u64 (g_tail s) = Unix_secs (g_IssuedAt s)"
    "get_u64 (drop 8 (g_tail s)) = Unix_secs (g_ExpiresAt s)"
    "get_u64 (drop 16 (g_tail s)) = g_MaxBytes s"
    by (simp_all add: g_tail_def)
  moreover have "take (length (canonical s)) (SignedGrant_Encode s) = canonical s"
    "drop (length (canonical s)) (SignedGrant_Encode s) = sg_Signature s"
    by (simp_all add: SignedGrant_Encode_def)
  moreover have "canonical s ! 0 = g_Version s"
    "drop 1 (canonical s) = concat (map (appendString []) (g_strings s)) @ g_tail s"
    by (simp_all add: canonical_layout)
  moreover have "\<not> length (SignedGrant_Encode s) < SignatureSize + 1"
    using assms by (simp add: SignedGrant_Encode_def canonical_layout signed_ok_def)
  ultimately show ?thesis
    using assms unfolding DecodeGrant_def n Let_def
    by (simp add: signed_ok_def) (simp add: g_strings_def)
qed

lemma length_six: "length xs = 6 \<Longrightarrow> xs = [xs ! 0, xs ! 1, xs ! 2, xs ! 3, xs ! 4, xs ! 5]"
  by (auto simp: eval_nat_numeral length_Suc_conv)

lemma DecodeGrant_Inr:
  assumes "DecodeGrant b = Inr s"
  shows "signed_ok s" and "b = SignedGrant_Encode s"
proof -
  let ?body = "take (length b - SignatureSize) b"
  from assms obtain fs rest where l: "length b \<ge> SignatureSize + 1"
    and v: "?body ! 0 = GrantVersion" and t: "takeStrings 6 (drop 1 ?body) = Inr (fs, rest)"
    and r: "length rest = 24"
    and s: "s = \<lparr>g_Version = ?body ! 0, g_KeyID = fs ! 0, g_GrantID = fs ! 1,
       g_OrgID = fs ! 2, g_UserID = fs ! 3, g_DeviceID = fs ! 4, g_ResourceID = fs ! 5,
       g_IssuedAt = time_Unix (get_u64 rest), g_ExpiresAt = time_Unix (get_u64 (drop 8 rest)),
       g_MaxBytes = get_u64 (drop 16 rest), sg_Signature = drop (length b - SignatureSize) b\<rparr>"
    by (auto simp: DecodeGrant_def Let_def not_less split: if_splits sum.splits prod.splits)
  note fs = takeStrings_Inr [OF t]
  have gs: "g_strings s = fs"
    using length_six [of fs] fs by (simp add: g_strings_def s)
  have ver: "g_Version s = ?body ! 0" by (simp add: s)
  show "signed_ok s"
    using gs fs l by (simp add: signed_ok_def s v)
  have "?body \<noteq> []" using l by (auto simp: SignatureSize_def)
  then have "?body = ?body ! 0 # drop 1 ?body"
    by (cases ?body) simp_all
  moreover have "g_tail s = rest"
  proof -
    have "rest = take 8 rest @ take 8 (drop 8 rest) @ take 8 (drop 16 rest)"
      using r take_add [of 8 8 rest] append_take_drop_id [of 16 rest] by simp
    then show ?thesis using r by (simp add: g_tail_def s put_get_u64)
  qed
  ultimately have "?body = canonical s"
    using fs ver by (simp add: canonical_layout gs)
  then show "b = SignedGrant_Encode s"
    by (metis SignedGrant_Encode_def append_take_drop_id s signed_grant.select_convs(1))
qed

interpretation grant_wire: strict_codec SignedGrant_Encode DecodeGrant signed_ok
  by unfold_locales (simp_all add: DecodeGrant_Encode DecodeGrant_Inr)

section \<open>Signing and verifying\<close>

lemma appendString_inject:
  assumes "appendString [] s @ r = appendString [] t @ r'"
    and "length s < 65536" and "length t < 65536"
  shows "s = t \<and> r = r'"
proof -
  have "get_u16 (appendString [] s @ r) = get_u16 (appendString [] t @ r')"
    using assms(1) by simp
  then have "(word_of_nat (length s) :: u16) = word_of_nat (length t)"
    by (simp add: appendString_def)
  then have "unat (word_of_nat (length s) :: u16) = unat (word_of_nat (length t) :: u16)"
    by simp
  then have "length s = length t"
    using assms(2,3) by (simp add: unat_of_nat)
  then show ?thesis using assms(1) by (simp add: appendString_def)
qed

lemma appendStrings_inject:
  assumes "length ss = length ts" "\<forall>s \<in> set ss. length s < 65536" "\<forall>t \<in> set ts. length t < 65536"
    and "concat (map (appendString []) ss) @ r = concat (map (appendString []) ts) @ r'"
  shows "ss = ts \<and> r = r'"
  using assms by (induction ss ts rule: list_induct2) (auto dest!: appendString_inject)

lemma Unix_secs_inject: "wire_time t \<Longrightarrow> wire_time u \<Longrightarrow> Unix_secs t = Unix_secs u \<longleftrightarrow> t = u"
  by (metis time_Unix_wire)

lemma put_u64_inject: "put_u64 a @ r = put_u64 b @ r' \<longleftrightarrow> a = b \<and> r = r'"
  by (metis append_same_eq get_put_u64 length_put(3) append_eq_append_conv)

lemma MaxGrantTTL_sec: "Second dvd MaxGrantTTL" "minDuration \<le> MaxGrantTTL" "MaxGrantTTL < maxDuration"
  by (simp_all add: MaxGrantTTL_def Minute_def Second_def minDuration_def maxDuration_def)

lemma ttl_too_long: "MaxGrantTTL < time_Sub e i \<longleftrightarrow> MaxGrantTTL < e - i"
  using MaxGrantTTL_sec time_Sub_le_iff [of MaxGrantTTL e i] by linarith

text \<open>Truncating both ends to the second never lengthens a lifetime beyond a whole-second
  bound.\<close>

lemma Truncate_sec_diff_le:
  assumes "e - i \<le> d" and "Second dvd d"
  shows "Truncate_sec e - Truncate_sec i \<le> d"
proof -
  have "Truncate_sec e \<le> Truncate_sec (i + d)"
    using assms(1) by (intro Truncate_sec_mono) simp
  also have "\<dots> = Truncate_sec i + d"
    using assms(2) by (auto simp: Truncate_sec_def elim!: dvdE)
  finally show ?thesis by simp
qed

definition grant_signable :: "grant \<Rightarrow> bool" where
  "grant_signable g \<longleftrightarrow> (g_Version g = 0 \<or> g_Version g = GrantVersion) \<and>
     g_ExpiresAt g - g_IssuedAt g \<le> MaxGrantTTL \<and>
     g_DeviceID g \<noteq> '''' \<and> g_ResourceID g \<noteq> '''' \<and> g_GrantID g \<noteq> ''''"

definition grant_normal :: "grant \<Rightarrow> grant" where
  "grant_normal g = g\<lparr>g_Version := GrantVersion, g_IssuedAt := Truncate_sec (g_IssuedAt g),
     g_ExpiresAt := Truncate_sec (g_ExpiresAt g)\<rparr>"

lemma GrantVersion_nz [simp]: "GrantVersion \<noteq> 0"
  by (simp add: GrantVersion_def)

lemma Sign_Inr_iff:
  "Sign ed_sign g key = Inr s \<longleftrightarrow> grant_signable g \<and>
     s = grant.extend (grant_normal g) \<lparr>sg_Signature = ed_sign key (canonical (grant_normal g))\<rparr>"
  by (cases g) (auto simp: Sign_def Let_def grant_signable_def grant_normal_def ttl_too_long)

lemma canonical_extend [simp]: "canonical (grant.extend g x) = canonical g"
  by (simp add: canonical_def grant.defs)

lemma extend_sel [simp]:
  "g_Version (grant.extend g x) = g_Version g" "g_IssuedAt (grant.extend g x) = g_IssuedAt g"
  "g_ExpiresAt (grant.extend g x) = g_ExpiresAt g" "g_DeviceID (grant.extend g x) = g_DeviceID g"
  "g_strings (grant.extend g x) = g_strings g"
  "sg_Signature (grant.extend g \<lparr>sg_Signature = sig\<rparr>) = sig"
  by (simp_all add: grant.defs g_strings_def)

lemma Verify_None_iff:
  "Verify ed_verify s pub now dev = None \<longleftrightarrow>
     g_Version s = GrantVersion \<and> length (sg_Signature s) = SignatureSize \<and>
     ed_verify pub (canonical s) (sg_Signature s) \<and> g_ExpiresAt s - g_IssuedAt s \<le> MaxGrantTTL \<and>
     g_IssuedAt s - ClockSkewTolerance \<le> now \<and> now \<le> g_ExpiresAt s + ClockSkewTolerance \<and>
     (dev = '''' \<or> g_DeviceID s = dev)"
  by (auto simp: Verify_def not_less ttl_too_long split: if_splits)

text \<open>A keyed function with the interface of Ed25519 and one grant, for the witnesses.\<close>

definition keyed_sign :: "u8 \<Rightarrow> byte list \<Rightarrow> byte list" where
  "keyed_sign key m = take 64 (key # m @ replicate 63 0)"

definition keyed_verify :: "u8 \<Rightarrow> byte list \<Rightarrow> byte list \<Rightarrow> bool" where
  "keyed_verify pub m sig \<longleftrightarrow> sig = take 64 (pub # m @ replicate 63 0)"

definition demo_grant :: grant where
  "demo_grant = \<lparr>g_Version = 1, g_KeyID = ''k'', g_GrantID = ''g'', g_OrgID = '''', g_UserID = ''u'',
     g_DeviceID = ''d'', g_ResourceID = ''r'', g_IssuedAt = 0, g_ExpiresAt = 1800 * Second,
     g_MaxBytes = 0\<rparr>"

definition demo_signed :: signed_grant where
  "demo_signed = grant.extend demo_grant \<lparr>sg_Signature = keyed_sign 5 (canonical demo_grant)\<rparr>"

lemmas grant_defs = demo_grant_def GrantVersion_def MaxGrantTTL_def ClockSkewTolerance_def
  SignatureSize_def

lemma keyed_sign_ok: "length (keyed_sign key m) = SignatureSize" "keyed_verify key m (keyed_sign key m)"
  by (simp_all add: keyed_sign_def keyed_verify_def SignatureSize_def)

section \<open>Properties\<close>

text \<open>C24: Every byte string decodes as a signed grant in at most one way and every accepted
  byte string is the encoding of the grant it decodes to, so what a verifier re-encodes to check
  the signature is exactly what it received. What is accepted has the current version, six
  strings of at most 128 bytes, times in whole seconds, and a 64-byte signature, and every
  such grant is accepted.\<close>
theorem grant_wire_exact:
  "DecodeGrant b = Inr s \<longleftrightarrow>
     g_Version s = GrantVersion \<and> (\<forall>x \<in> set (g_strings s). length x \<le> MaxIdentityLen) \<and>
     wire_time (g_IssuedAt s) \<and> wire_time (g_ExpiresAt s) \<and>
     length (sg_Signature s) = SignatureSize \<and> b = canonical s @ sg_Signature s"
  using grant_wire.dec_iff [of b s] by (auto simp: signed_ok_def SignedGrant_Encode_def)

theorem grant_wire_exact_witness:
  "DecodeGrant (SignedGrant_Encode
      \<lparr>g_Version = 1, g_KeyID = ''k'', g_GrantID = ''g'', g_OrgID = '''', g_UserID = ''u'',
       g_DeviceID = ''d'', g_ResourceID = ''r'', g_IssuedAt = 0, g_ExpiresAt = 1000000000,
       g_MaxBytes = 0, sg_Signature = replicate 64 7\<rparr>) =
    Inr \<lparr>g_Version = 1, g_KeyID = ''k'', g_GrantID = ''g'', g_OrgID = '''', g_UserID = ''u'',
       g_DeviceID = ''d'', g_ResourceID = ''r'', g_IssuedAt = 0, g_ExpiresAt = 1000000000,
       g_MaxBytes = 0, sg_Signature = replicate 64 7\<rparr>"
  unfolding grant_wire_exact
  by (simp add: SignedGrant_Encode_def GrantVersion_def g_strings_def MaxIdentityLen_def
      wire_time_def time_ok_def Truncate_sec_def SignatureSize_def Second_def)

text \<open>C25: The signed bytes determine the grant: two grants whose strings fit their 16-bit
  length prefix and whose times are whole seconds have the same canonical bytes only if they
  agree in every field, so no field can be changed, and no bytes moved from one field to
  another, under an existing signature.\<close>
theorem canonical_injective:
  fixes g h :: grant
  assumes "canonical g = canonical h"
    and "\<forall>x \<in> set (g_strings g). length x < 65536" and "\<forall>x \<in> set (g_strings h). length x < 65536"
    and "wire_time (g_IssuedAt g)" "wire_time (g_ExpiresAt g)"
    and "wire_time (g_IssuedAt h)" "wire_time (g_ExpiresAt h)"
  shows "g = h"
proof -
  have "g_Version g = g_Version h \<and> g_strings g = g_strings h \<and> g_tail g = g_tail h"
    using assms(1) appendStrings_inject [OF _ assms(2,3)] by (simp add: canonical_layout)
  with assms(4-) show ?thesis
    by (cases g; cases h) (simp add: g_strings_def g_tail_def put_u64_inject Unix_secs_inject
        put_u64_inject [of _ "[]" _ "[]", simplified])
qed

theorem canonical_injective_witness:
  "canonical \<lparr>g_Version = 1, g_KeyID = ''k'', g_GrantID = ''g'', g_OrgID = '''', g_UserID = ''u'',
       g_DeviceID = ''d'', g_ResourceID = ''r'', g_IssuedAt = 0, g_ExpiresAt = 1000000000,
       g_MaxBytes = 0\<rparr> \<noteq>
   canonical \<lparr>g_Version = 1, g_KeyID = ''k'', g_GrantID = ''g'', g_OrgID = '''', g_UserID = '''',
       g_DeviceID = ''ud'', g_ResourceID = ''r'', g_IssuedAt = 0, g_ExpiresAt = 1000000000,
       g_MaxBytes = 0\<rparr>"
  using canonical_injective
    [of "\<lparr>g_Version = 1, g_KeyID = ''k'', g_GrantID = ''g'', g_OrgID = '''', g_UserID = ''u'',
       g_DeviceID = ''d'', g_ResourceID = ''r'', g_IssuedAt = 0, g_ExpiresAt = 1000000000,
       g_MaxBytes = 0\<rparr>"
      "\<lparr>g_Version = 1, g_KeyID = ''k'', g_GrantID = ''g'', g_OrgID = '''', g_UserID = '''',
       g_DeviceID = ''ud'', g_ResourceID = ''r'', g_IssuedAt = 0, g_ExpiresAt = 1000000000,
       g_MaxBytes = 0\<rparr>"]
  by (auto simp: g_strings_def wire_time_def time_ok_def Truncate_sec_def Second_def)

text \<open>C8: A grant verifies only under a valid signature over all of its fields, only at the
  device it names, and only for a bounded time: any two instants at which the same grant
  verifies are at most thirty-one minutes apart (the thirty-minute ceiling and thirty seconds of
  clock skew at either end), whatever lifetime its issuer wrote into it.\<close>
theorem Verify_sound:
  assumes "Verify ed_verify s pub now deviceID = None"
    and "Verify ed_verify s pub now' deviceID' = None"
  shows "ed_verify pub (canonical s) (sg_Signature s) \<and>
    (deviceID \<noteq> '''' \<longrightarrow> g_DeviceID s = deviceID) \<and>
    \<bar>now - now'\<bar> \<le> MaxGrantTTL + 2 * ClockSkewTolerance"
  using assms by (auto simp: Verify_None_iff)

theorem Verify_sound_witness:
  "keyed_verify 5 (canonical demo_signed) (sg_Signature demo_signed) \<and>
   \<bar>- 29 * Second - 1829 * Second\<bar> \<le> MaxGrantTTL + 2 * ClockSkewTolerance"
proof -
  have "Verify keyed_verify demo_signed 5 (- 29 * Second) ''d'' = None"
    "Verify keyed_verify demo_signed 5 (1829 * Second) '''' = None"
    by (simp_all add: Verify_None_iff demo_signed_def keyed_sign_ok)
      (simp_all add: grant_defs duration_defs)
  from Verify_sound [OF this] show ?thesis by simp
qed

text \<open>C26: A grant that \<open>Sign\<close> issues, with identifiers the wire format can carry, survives
  encoding and decoding and then verifies at the device it names, from thirty seconds before
  its (truncated) issue time to thirty seconds after its (truncated) expiry, and is reported as
  not yet valid before and as expired after.\<close>
theorem Sign_Verify:
  assumes sign: "Sign ed_sign g key = Inr s"
    and ed_len: "\<And>m. length (ed_sign key m) = SignatureSize"
    and ed_ok: "\<And>m. ed_verify pub m (ed_sign key m)"
    and ids: "\<forall>x \<in> set (g_strings g). length x \<le> MaxIdentityLen"
    and times: "time_ok (g_IssuedAt g)" "time_ok (g_ExpiresAt g)"
  shows "DecodeGrant (SignedGrant_Encode s) = Inr s \<and>
    Verify ed_verify s pub now (g_DeviceID g) =
      (if now + ClockSkewTolerance < Truncate_sec (g_IssuedAt g) then Some ErrGrantNotYetValid
       else if now - ClockSkewTolerance > Truncate_sec (g_ExpiresAt g) then Some ErrGrantExpired
       else None)"
proof
  from sign have g: "grant_signable g"
    and s: "s = grant.extend (grant_normal g) \<lparr>sg_Signature = ed_sign key (canonical (grant_normal g))\<rparr>"
    by (simp_all add: Sign_Inr_iff)
  have "Truncate_sec (g_ExpiresAt g) - Truncate_sec (g_IssuedAt g) \<le> MaxGrantTTL"
    using g by (intro Truncate_sec_diff_le) (simp_all add: grant_signable_def MaxGrantTTL_sec)
  then show "Verify ed_verify s pub now (g_DeviceID g) =
      (if now + ClockSkewTolerance < Truncate_sec (g_IssuedAt g) then Some ErrGrantNotYetValid
       else if now - ClockSkewTolerance > Truncate_sec (g_ExpiresAt g) then Some ErrGrantExpired
       else None)"
    by (simp add: Verify_def s grant_normal_def ed_len ed_ok ttl_too_long)
  have "g_strings (grant_normal g) = g_strings g"
    by (simp add: g_strings_def grant_normal_def)
  then have "signed_ok s"
    using ids times by (simp add: signed_ok_def s ed_len) (simp add: grant_normal_def wire_time_def)
  then show "DecodeGrant (SignedGrant_Encode s) = Inr s"
    by (rule DecodeGrant_Encode)
qed

theorem Sign_Verify_witness:
  "Sign keyed_sign demo_grant 5 = Inr demo_signed \<and>
   DecodeGrant (SignedGrant_Encode demo_signed) = Inr demo_signed \<and>
   Verify keyed_verify demo_signed 5 (1830 * Second) ''d'' = None \<and>
   Verify keyed_verify demo_signed 5 (1830 * Second + 1) ''d'' = Some ErrGrantExpired"
proof -
  have s: "Sign keyed_sign demo_grant 5 = Inr demo_signed"
    by (simp add: Sign_Inr_iff grant_signable_def grant_normal_def demo_signed_def grant_defs
        Truncate_sec_def duration_defs)
  have ids: "\<forall>x \<in> set (g_strings demo_grant). length x \<le> MaxIdentityLen"
    by (simp add: g_strings_def demo_grant_def MaxIdentityLen_def)
  have t: "time_ok (g_IssuedAt demo_grant)" "time_ok (g_ExpiresAt demo_grant)"
    by (simp_all add: demo_grant_def time_ok_def Second_def)
  show ?thesis
    using s Sign_Verify [where ed_verify = keyed_verify and pub = 5, OF s keyed_sign_ok ids t]
    by (simp add: demo_grant_def ClockSkewTolerance_def Truncate_sec_def Second_def)
qed

end
