(* ===== verification/Mux_Stream.thy ===== *)
theory Mux_Stream
  imports Proto_Handshake
begin

text \<open>
  One multiplexed stream, \<open>internal/mux/stream.go\<close>: its state and the locked section of each of
  its methods. What a method does afterwards on the session (sending a frame, retiring the
  stream) is in \<open>Mux_Session\<close>. A call that would wait on a condition variable has the result
  \<open>RBlock\<close> or \<open>WBlock\<close> and leaves the stream unchanged; the wake-ups themselves are not
  modelled, since a woken call starts the loop again.
\<close>

section \<open>State\<close>

datatype mux_err =
    ErrStreamClosed "reason option"
  | ErrSessionClosed "reason option"
  | ErrFlowControl
  | ErrProto proto_err
  | ErrTooManyStreams
  | ErrStreamRefused reason
  | ErrPeerRefused reason
  | ErrAuthRefused reason
  | ErrContext

record stream =
  st_id :: u32
  st_buf :: "byte list"
  st_recvWindow :: u32
  st_sendWindow :: u32
  st_pendingCredit :: u32
  st_openPayload :: "byte list"
  st_localClosed :: bool
  st_remoteClosed :: bool
  st_resetReason :: reason
  st_reset :: bool

definition newStream :: "u32 \<Rightarrow> u32 \<Rightarrow> stream" where
  "newStream i window =
     \<lparr>st_id = i, st_buf = [], st_recvWindow = window, st_sendWindow = window,
      st_pendingCredit = 0, st_openPayload = [], st_localClosed = False,
      st_remoteClosed = False, st_resetReason = '''', st_reset = False\<rparr>"

text \<open>How much a reader consumes before \<open>newSession\<close>'s setting makes it return credit.\<close>

definition creditThreshold :: "u32 \<Rightarrow> u32" where
  "creditThreshold initialWindow =
    (let t = initialWindow div 2 in if t = 0 then 1 else t)"

section \<open>Reading\<close>

datatype read_res = RBlock | REOF | RReset reason | RData "byte list"

text \<open>The locked part of \<open>Read\<close> for a caller's buffer of \<open>n\<close> bytes: the result, the credit to
  return to the peer (0: none yet) and the stream afterwards.\<close>

definition Read_locked :: "u32 \<Rightarrow> nat \<Rightarrow> stream \<Rightarrow> read_res \<times> u32 \<times> stream" where
  "Read_locked threshold n s =
    (if n = 0 then (RData [], 0, s)
     else if st_buf s = [] then
       (if st_reset s then (RReset (st_resetReason s), 0, s)
        else if st_remoteClosed s then (REOF, 0, s)
        else (RBlock, 0, s))
     else
       let m = min n (length (st_buf s));
           got = take m (st_buf s);
           s = s\<lparr>st_buf := drop m (st_buf s),
                 st_recvWindow := st_recvWindow s + word_of_nat m,
                 st_pendingCredit := st_pendingCredit s + word_of_nat m\<rparr>
       in if st_pendingCredit s \<ge> threshold
          then (RData got, st_pendingCredit s, s\<lparr>st_pendingCredit := 0\<rparr>)
          else (RData got, 0, s))"

section \<open>Writing\<close>

datatype write_res = WBlock | WReset reason | WClosed | WSend nat

text \<open>One turn of the loop of \<open>Write\<close>, with \<open>n\<close> bytes left to write. The comparisons are made
  on \<open>uint32(n)\<close>.\<close>

definition Write_locked :: "u32 \<Rightarrow> nat \<Rightarrow> stream \<Rightarrow> write_res \<times> stream" where
  "Write_locked maxFrame n s =
    (if st_reset s then (WReset (st_resetReason s), s)
     else if st_localClosed s then (WClosed, s)
     else if st_sendWindow s > 0 then
       let n = (if (word_of_nat n :: u32) > st_sendWindow s then unat (st_sendWindow s) else n);
           n = (if (word_of_nat n :: u32) > maxFrame then unat maxFrame else n)
       in (WSend n, s\<lparr>st_sendWindow := st_sendWindow s - word_of_nat n\<rparr>)
     else (WBlock, s))"

section \<open>Closing and resetting\<close>

text \<open>The boolean says whether the call goes on to tell the peer.\<close>

definition closeWith_locked :: "stream \<Rightarrow> bool \<times> stream" where
  "closeWith_locked s =
    (if st_localClosed s \<or> st_reset s then (False, s) else (True, s\<lparr>st_localClosed := True\<rparr>))"

definition Reset_locked :: "reason \<Rightarrow> stream \<Rightarrow> bool \<times> stream" where
  "Reset_locked r s =
    (if st_reset s then (False, s)
     else (True, s\<lparr>st_reset := True, st_resetReason := r, st_localClosed := True,
                   st_remoteClosed := True, st_buf := []\<rparr>))"

section \<open>What the session's reader does to a stream\<close>

definition deliver :: "byte list \<Rightarrow> stream \<Rightarrow> mux_err + stream" where
  "deliver b s =
    (if st_reset s \<or> st_remoteClosed s then Inr s
     else if (word_of_nat (length b) :: u32) > st_recvWindow s then Inl ErrFlowControl
     else Inr (s\<lparr>st_recvWindow := st_recvWindow s - word_of_nat (length b),
                 st_buf := st_buf s @ b\<rparr>))"

definition grantCredit :: "u32 \<Rightarrow> stream \<Rightarrow> stream" where
  "grantCredit n s =
    (if st_sendWindow s > NOT 0 - n then s\<lparr>st_sendWindow := NOT 0\<rparr>
     else s\<lparr>st_sendWindow := st_sendWindow s + n\<rparr>)"

definition remoteClose :: "reason \<Rightarrow> stream \<Rightarrow> stream" where
  "remoteClose r s =
    (if st_remoteClosed s \<or> st_reset s then s
     else let s = s\<lparr>st_remoteClosed := True\<rparr> in
       if r \<noteq> ReasonOK \<and> r \<noteq> '''' then s\<lparr>st_reset := True, st_resetReason := r, st_buf := []\<rparr>
       else s)"

definition kill :: "reason \<Rightarrow> stream \<Rightarrow> stream" where
  "kill r s =
    (if st_reset s then s
     else s\<lparr>st_reset := True, st_resetReason := r, st_localClosed := True, st_remoteClosed := True\<rparr>)"

definition finished :: "stream \<Rightarrow> bool" where
  "finished s \<longleftrightarrow> st_reset s \<or> (st_localClosed s \<and> st_remoteClosed s)"

section \<open>Saturation\<close>

lemma unat_grantCredit:
  "unat (st_sendWindow (grantCredit n s)) = min (unat (st_sendWindow s) + unat n) (2 ^ 32 - 1)"
proof -
  have m: "unat (NOT 0 :: u32) = 2 ^ 32 - 1"
    by (simp add: unsigned_minus_1_eq_mask mask_eq_exp_minus_1)
  have d: "unat (NOT 0 - n) = 2 ^ 32 - 1 - unat n"
    using m by (simp add: unat_sub)
  show ?thesis
  proof (cases "st_sendWindow s > NOT 0 - n")
    case True
    then have "unat (st_sendWindow s) + unat n \<ge> 2 ^ 32 - 1"
      using d unat_less_pow [of n] by (simp add: word_less_nat_alt)
    with True m show ?thesis by (simp add: grantCredit_def)
  next
    case False
    then have "unat (st_sendWindow s) + unat n \<le> 2 ^ 32 - 1"
      using d unat_less_pow [of n] by (simp add: word_less_nat_alt not_less)
    with False show ?thesis
      by (simp add: grantCredit_def unat_word_ariths)
  qed
qed

lemma grantCredit_other [simp]:
  "st_id (grantCredit n s) = st_id s" "st_buf (grantCredit n s) = st_buf s"
  "st_recvWindow (grantCredit n s) = st_recvWindow s"
  "st_pendingCredit (grantCredit n s) = st_pendingCredit s"
  "st_reset (grantCredit n s) = st_reset s" "st_localClosed (grantCredit n s) = st_localClosed s"
  "st_remoteClosed (grantCredit n s) = st_remoteClosed s"
  by (simp_all add: grantCredit_def)

section \<open>The receive window bounds the buffer\<close>

text \<open>Whatever the peer sends: the bytes buffered and the window still granted never exceed the
  initial window, and add up to exactly that until the stream is reset.\<close>

definition recv_inv :: "u32 \<Rightarrow> stream \<Rightarrow> bool" where
  "recv_inv W s \<longleftrightarrow> unat (st_recvWindow s) + length (st_buf s) \<le> unat W \<and>
     (\<not> st_reset s \<longrightarrow> unat (st_recvWindow s) + length (st_buf s) = unat W)"

lemma unat_add_of_nat:
  "unat (w :: u32) + n < 2 ^ 32 \<Longrightarrow> unat (w + word_of_nat n) = unat w + n"
  by (simp add: unat_word_ariths unat_of_nat)

lemma unat_diff_of_nat:
  "n \<le> unat (w :: u32) \<Longrightarrow> unat (w - word_of_nat n) = unat w - n"
  by (metis unat_word_of_nat_le unat_sub word_le_nat_alt)

lemma recv_inv_newStream [simp, intro]: "recv_inv W (newStream i W)"
  by (simp add: recv_inv_def newStream_def)

lemma recv_inv_Read:
  assumes "recv_inv W s" and "Read_locked thr n s = (r, c, s')"
  shows "recv_inv W s'"
proof (cases "n = 0 \<or> st_buf s = []")
  case True
  with assms show ?thesis by (auto simp: Read_locked_def split: if_splits)
next
  case False
  let ?m = "min n (length (st_buf s))"
  from assms(1) have le: "unat (st_recvWindow s) + length (st_buf s) \<le> unat W"
    by (simp add: recv_inv_def)
  then have "unat (st_recvWindow s) + ?m < 2 ^ 32"
    using unat_less_pow [of W] by simp
  then have "unat (st_recvWindow s + word_of_nat ?m) = unat (st_recvWindow s) + ?m"
    by (rule unat_add_of_nat)
  moreover have "st_recvWindow s' = st_recvWindow s + word_of_nat ?m"
    "st_buf s' = drop ?m (st_buf s)" "st_reset s' = st_reset s"
    using assms(2) False by (auto simp: Read_locked_def Let_def split: if_splits)
  ultimately show ?thesis
    using assms(1) by (auto simp: recv_inv_def)
qed

lemma recv_inv_deliver:
  assumes "recv_inv W s" and "deliver b s = Inr s'" and "length b < 2 ^ 32"
  shows "recv_inv W s'"
proof (cases "st_reset s \<or> st_remoteClosed s")
  case True
  with assms show ?thesis by (simp add: deliver_def)
next
  case False
  with assms(2) have w: "\<not> (word_of_nat (length b) :: u32) > st_recvWindow s"
    and s': "s' = s\<lparr>st_recvWindow := st_recvWindow s - word_of_nat (length b), st_buf := st_buf s @ b\<rparr>"
    by (auto simp: deliver_def split: if_splits)
  from w assms(3) have "length b \<le> unat (st_recvWindow s)"
    by (simp add: word_less_nat_alt unat_of_nat)
  then show ?thesis
    using assms(1) s' by (simp add: recv_inv_def unat_diff_of_nat)
qed

lemma recv_inv_Write: "recv_inv W s \<Longrightarrow> Write_locked mx n s = (r, s') \<Longrightarrow> recv_inv W s'"
  by (auto simp: Write_locked_def recv_inv_def Let_def split: if_splits)

lemma recv_inv_others [simp]:
  "recv_inv W s \<Longrightarrow> recv_inv W (grantCredit n s)"
  "recv_inv W s \<Longrightarrow> recv_inv W (remoteClose r s)"
  "recv_inv W s \<Longrightarrow> recv_inv W (kill r s)"
  "recv_inv W s \<Longrightarrow> recv_inv W (snd (closeWith_locked s))"
  "recv_inv W s \<Longrightarrow> recv_inv W (snd (Reset_locked r s))"
  by (auto simp: recv_inv_def remoteClose_def kill_def closeWith_locked_def Reset_locked_def Let_def)

section \<open>The send window is never overrun\<close>

lemma Write_locked_WSend:
  assumes "Write_locked mx n s = (WSend k, s')" and "n < 2 ^ 32"
  shows "k = min n (min (unat (st_sendWindow s)) (unat mx))"
    and "unat (st_sendWindow s') = unat (st_sendWindow s) - k"
    and "s' = s\<lparr>st_sendWindow := st_sendWindow s - word_of_nat k\<rparr>"
    and "\<not> st_reset s" and "\<not> st_localClosed s" and "st_sendWindow s > 0"
proof -
  let ?a = "if (word_of_nat n :: u32) > st_sendWindow s then unat (st_sendWindow s) else n"
  let ?k = "if (word_of_nat ?a :: u32) > mx then unat mx else ?a"
  have un: "unat (word_of_nat m :: u32) = m" if "m < 2 ^ 32" for m
    using that by (simp add: unat_of_nat)
  have a: "?a = min n (unat (st_sendWindow s))"
    using un [OF assms(2)] by (simp add: word_less_nat_alt)
  then have "?a < 2 ^ 32" using assms(2) by simp
  from un [OF this] have k: "?k = min ?a (unat mx)"
    by (simp only: word_less_nat_alt) simp
  from assms(1) have e: "k = ?k" "s' = s\<lparr>st_sendWindow := st_sendWindow s - word_of_nat k\<rparr>"
    and f: "\<not> st_reset s" "\<not> st_localClosed s" "st_sendWindow s > 0"
    by (auto simp: Write_locked_def Let_def split: if_splits)
  from trans [OF e(1) k] show kk: "k = min n (min (unat (st_sendWindow s)) (unat mx))"
    by (simp only: a min.assoc)
  then have "k \<le> unat (st_sendWindow s)" by simp
  then show "unat (st_sendWindow s') = unat (st_sendWindow s) - k"
    by (simp add: e(2) unat_diff_of_nat)
qed (use assms in \<open>auto simp: Write_locked_def Let_def split: if_splits\<close>)

text \<open>The bound \<open>n < 2 ^ 32\<close> is needed: the comparisons are made on \<open>uint32(n)\<close>, so a single
  write of a multiple of four gigabytes passes both the window and the frame limit.\<close>

lemma Write_locked_wraps:
  assumes "(word_of_nat n :: u32) = 0" and "\<not> st_reset s" "\<not> st_localClosed s" "0 < st_sendWindow s"
  shows "Write_locked mx n s = (WSend n, s)"
  using assms by (simp add: Write_locked_def Let_def)

end
