(* ===== verification/Mux_Flow.thy ===== *)
theory Mux_Flow
  imports Mux_Stream
begin

text \<open>
  Credit-based flow control between the two ends of one stream. Both ends run the operations of
  \<open>Mux_Stream\<close>; what they send travels in order through one queue per direction, as the frames
  of one connection do. Any interleaving of writes, reads, closes, resets and deliveries is a
  run of the step relation below.
\<close>

section \<open>The two-ended system\<close>

datatype wire = Data "byte list" | Window u32 | Fin reason

record flow =
  fl_A :: stream
  fl_B :: stream
  fl_AB :: "wire list"
  fl_BA :: "wire list"
  fl_wA :: "byte list"  \<comment> \<open>everything A's \<open>Write\<close> has accepted\<close>
  fl_rA :: "byte list"  \<comment> \<open>everything A's \<open>Read\<close> has returned\<close>
  fl_wB :: "byte list"
  fl_rB :: "byte list"
  fl_violation :: bool

definition swap :: "flow \<Rightarrow> flow" where
  "swap s = \<lparr>fl_A = fl_B s, fl_B = fl_A s, fl_AB = fl_BA s, fl_BA = fl_AB s,
     fl_wA = fl_wB s, fl_rA = fl_rB s, fl_wB = fl_wA s, fl_rB = fl_rA s,
     fl_violation = fl_violation s\<rparr>"

text \<open>The dispatch of one frame to this stream; a finished stream has been retired, and frames
  for it are dropped.\<close>

definition receive :: "wire \<Rightarrow> stream \<Rightarrow> mux_err + stream" where
  "receive m s =
    (if finished s then Inr s
     else case m of
       Data b \<Rightarrow> deliver b s
     | Window c \<Rightarrow> Inr (grantCredit c s)
     | Fin r \<Rightarrow> Inr (remoteClose r s))"

text \<open>What one end (here A) may do.\<close>

inductive act :: "u32 \<Rightarrow> u32 \<Rightarrow> flow \<Rightarrow> flow \<Rightarrow> bool" for mx :: u32 and thr :: u32 where
  a_write: "Write_locked mx (length p) (fl_A s) = (WSend k, a) \<Longrightarrow> length p < 2 ^ 32 \<Longrightarrow>
    act mx thr s (s\<lparr>fl_A := a, fl_AB := fl_AB s @ [Data (take k p)], fl_wA := fl_wA s @ take k p\<rparr>)"
| a_close: "closeWith_locked (fl_A s) = (True, a) \<Longrightarrow>
    act mx thr s (s\<lparr>fl_A := a, fl_AB := fl_AB s @ [Fin r]\<rparr>)"
| a_reset: "Reset_locked r (fl_A s) = (True, a) \<Longrightarrow>
    act mx thr s (s\<lparr>fl_A := a, fl_AB := fl_AB s @ [Fin r]\<rparr>)"
| a_read: "Read_locked thr n (fl_A s) = (RData got, c, a) \<Longrightarrow>
    act mx thr s (s\<lparr>fl_A := a, fl_AB := fl_AB s @ (if c > 0 then [Window c] else []),
                    fl_rA := fl_rA s @ got\<rparr>)"
| a_recv: "fl_BA s = m # q \<Longrightarrow> receive m (fl_A s) = Inr a \<Longrightarrow>
    act mx thr s (s\<lparr>fl_A := a, fl_BA := q\<rparr>)"
| a_violation: "fl_BA s = m # q \<Longrightarrow> receive m (fl_A s) = Inl err \<Longrightarrow>
    act mx thr s (s\<lparr>fl_BA := q, fl_violation := True\<rparr>)"

definition flow_init :: "u32 \<Rightarrow> u32 \<Rightarrow> flow" where
  "flow_init i W = \<lparr>fl_A = newStream i W, fl_B = newStream i W, fl_AB = [], fl_BA = [],
     fl_wA = [], fl_rA = [], fl_wB = [], fl_rB = [], fl_violation = False\<rparr>"

inductive flow_run :: "u32 \<Rightarrow> u32 \<Rightarrow> u32 \<Rightarrow> flow \<Rightarrow> bool" for mx :: u32 and i :: u32 and W :: u32 where
  init: "flow_run mx i W (flow_init i W)"
| stepA: "flow_run mx i W s \<Longrightarrow> act mx (creditThreshold W) s s' \<Longrightarrow> flow_run mx i W s'"
| stepB: "flow_run mx i W s \<Longrightarrow> act mx (creditThreshold W) (swap s) s' \<Longrightarrow> flow_run mx i W (swap s')"

section \<open>The invariant of one direction\<close>

definition dbytes :: "wire list \<Rightarrow> byte list" where
  "dbytes ms = concat (map (\<lambda>m. case m of Data b \<Rightarrow> b | _ \<Rightarrow> []) ms)"

definition csum :: "wire list \<Rightarrow> nat" where
  "csum ms = sum_list (map (\<lambda>m. case m of Window c \<Rightarrow> unat c | _ \<Rightarrow> 0) ms)"

definition no_data :: "wire list \<Rightarrow> bool" where
  "no_data ms \<longleftrightarrow> (\<forall>m \<in> set ms. case m of Data _ \<Rightarrow> False | _ \<Rightarrow> True)"

definition has_fin :: "wire list \<Rightarrow> bool" where
  "has_fin ms \<longleftrightarrow> (\<exists>m \<in> set ms. case m of Fin _ \<Rightarrow> True | _ \<Rightarrow> False)"

fun fin_ok :: "wire list \<Rightarrow> bool" where
  "fin_ok [] = True"
| "fin_ok (Fin _ # ms) = no_data ms"
| "fin_ok (_ # ms) = fin_ok ms"

text \<open>For data from \<open>a\<close> to \<open>b\<close>: every byte of the initial window is at every moment in exactly
  one of five places (the sender's window, data in flight, the receiver's buffer, the
  receiver's pending credit, credit in flight); nothing is lost or reordered; and nothing
  follows a close.\<close>

definition dinv ::
  "u32 \<Rightarrow> stream \<Rightarrow> stream \<Rightarrow> wire list \<Rightarrow> wire list \<Rightarrow> byte list \<Rightarrow> byte list \<Rightarrow> bool" where
  "dinv W a b fwd back wr rd \<longleftrightarrow>
     unat (st_sendWindow a) + length (dbytes fwd) + length (st_buf b) +
       unat (st_pendingCredit b) + csum back \<le> unat W \<and>
     (\<not> st_reset b \<and> \<not> finished a \<longrightarrow>
       unat (st_sendWindow a) + length (dbytes fwd) + length (st_buf b) +
         unat (st_pendingCredit b) + csum back = unat W) \<and>
     recv_inv W b \<and> st_pendingCredit b < creditThreshold W \<and>
     (\<not> st_reset b \<longrightarrow> wr = rd @ st_buf b @ dbytes fwd) \<and>
     fin_ok fwd \<and>
     (has_fin fwd \<or> st_remoteClosed b \<and> \<not> st_reset b \<longrightarrow> st_localClosed a \<or> st_reset a) \<and>
     (st_remoteClosed b \<and> \<not> st_reset b \<longrightarrow> no_data fwd)"

definition flow_inv :: "u32 \<Rightarrow> flow \<Rightarrow> bool" where
  "flow_inv W s \<longleftrightarrow>
     dinv W (fl_A s) (fl_B s) (fl_AB s) (fl_BA s) (fl_wA s) (fl_rB s) \<and>
     dinv W (fl_B s) (fl_A s) (fl_BA s) (fl_AB s) (fl_wB s) (fl_rA s) \<and> \<not> fl_violation s"

lemma flow_inv_swap [simp]: "flow_inv W (swap s) \<longleftrightarrow> flow_inv W s"
  by (auto simp: flow_inv_def swap_def)

lemma wire_simps_Nil [simp]:
  "dbytes [] = []" "csum [] = 0" "no_data []" "\<not> has_fin []"
  by (simp_all add: dbytes_def csum_def no_data_def has_fin_def)

lemma wire_simps_Cons [simp]:
  "dbytes (m # ms) = (case m of Data b \<Rightarrow> b | _ \<Rightarrow> []) @ dbytes ms"
  "csum (m # ms) = (case m of Window c \<Rightarrow> unat c | _ \<Rightarrow> 0) + csum ms"
  "no_data (m # ms) \<longleftrightarrow> (case m of Data _ \<Rightarrow> False | _ \<Rightarrow> True) \<and> no_data ms"
  "has_fin (m # ms) \<longleftrightarrow> (case m of Fin _ \<Rightarrow> True | _ \<Rightarrow> False) \<or> has_fin ms"
  by (simp_all add: dbytes_def csum_def no_data_def has_fin_def)

lemma wire_simps_append [simp]:
  "dbytes (ms @ ns) = dbytes ms @ dbytes ns" "csum (ms @ ns) = csum ms + csum ns"
  "no_data (ms @ ns) \<longleftrightarrow> no_data ms \<and> no_data ns" "has_fin (ms @ ns) \<longleftrightarrow> has_fin ms \<or> has_fin ns"
  by (auto simp: dbytes_def csum_def no_data_def has_fin_def)

lemma no_data_dbytes: "no_data ms \<Longrightarrow> dbytes ms = []"
  by (induction ms) (auto split: wire.splits)

lemma fin_ok_append_nodata: "fin_ok ms \<Longrightarrow> no_data ns \<Longrightarrow> fin_ok (ms @ ns)"
  by (induction ms rule: fin_ok.induct) (auto, induction ns rule: fin_ok.induct, auto)

lemma fin_ok_append_nofin: "\<not> has_fin ms \<Longrightarrow> fin_ok (ms @ ns) = fin_ok ns"
  by (induction ms rule: fin_ok.induct) auto

lemma fin_ok_Cons_tl: "fin_ok (m # ms) \<Longrightarrow> fin_ok ms"
  by (cases m) (auto intro: fin_ok_append_nodata [of "[]", simplified])

section \<open>Each action preserves the invariant\<close>

text \<open>Actions of the sending end.\<close>

lemma unat_sum_lt: "n \<le> unat (W :: u32) \<Longrightarrow> n < 2 ^ 32"
  using le_less_trans [of n "unat W" "2 ^ 32"] unat_less_pow [of W] by simp

lemma dinv_snd_write:
  assumes "dinv W a b fwd back wr rd" and "Write_locked mx (length p) a = (WSend k, a')"
    and "length p < 2 ^ 32"
  shows "dinv W a' b (fwd @ [Data (take k p)]) back (wr @ take k p) rd"
proof -
  note w = Write_locked_WSend [OF assms(2,3)]
  from w(1) have k: "k \<le> length p" "k \<le> unat (st_sendWindow a)" by auto
  have "\<not> has_fin fwd" "st_remoteClosed b \<longrightarrow> st_reset b"
    using assms(1) w(4,5) by (auto simp: dinv_def)
  with assms(1) w k show ?thesis
    by (auto simp: dinv_def fin_ok_append_nofin finished_def)
qed

lemma dinv_snd_fin:
  assumes "dinv W a b fwd back wr rd"
    and "closeWith_locked a = (True, a') \<or> Reset_locked r a = (True, a')"
  shows "dinv W a' b (fwd @ [Fin r]) back wr rd"
proof -
  have "st_sendWindow a' = st_sendWindow a" "st_localClosed a'" "finished a \<longrightarrow> finished a'"
    using assms(2) by (auto simp: closeWith_locked_def Reset_locked_def finished_def split: if_splits)
  moreover have "fin_ok (fwd @ [Fin r])"
    using assms(1) by (intro fin_ok_append_nodata) (simp_all add: dinv_def)
  ultimately show ?thesis
    using assms(1) by (auto simp: dinv_def)
qed

lemma dinv_snd_read:
  assumes "dinv W a b fwd back wr rd" and "Read_locked thr n a = (RData got, c, a')"
  shows "dinv W a' b (fwd @ (if c > 0 then [Window c] else [])) back wr rd"
proof -
  have "st_sendWindow a' = st_sendWindow a" "st_localClosed a' = st_localClosed a"
    "st_remoteClosed a' = st_remoteClosed a" "st_reset a' = st_reset a"
    using assms(2) by (auto simp: Read_locked_def Let_def split: if_splits)
  moreover define x where "x = (if c > 0 then [Window c] else [])"
  moreover have "dbytes x = []" "no_data x" "\<not> has_fin x"
    by (simp_all add: x_def)
  moreover have "fin_ok (fwd @ x)"
    using assms(1) \<open>no_data x\<close> by (intro fin_ok_append_nodata) (simp_all add: dinv_def)
  ultimately have "dinv W a' b (fwd @ x) back wr rd"
    using assms(1) by (simp add: dinv_def finished_def)
  then show ?thesis by (simp add: x_def)
qed

lemma deliver_other:
  "deliver d s = Inr s' \<Longrightarrow> st_sendWindow s' = st_sendWindow s \<and> st_localClosed s' = st_localClosed s \<and>
     st_remoteClosed s' = st_remoteClosed s \<and> st_reset s' = st_reset s \<and>
     st_pendingCredit s' = st_pendingCredit s"
  by (auto simp: deliver_def split: if_splits)

lemma remoteClose_other:
  "st_sendWindow (remoteClose r s) = st_sendWindow s"
  "st_localClosed (remoteClose r s) = st_localClosed s"
  "st_pendingCredit (remoteClose r s) = st_pendingCredit s"
  "st_reset s \<Longrightarrow> st_reset (remoteClose r s)"
  "finished s \<Longrightarrow> finished (remoteClose r s)"
  by (auto simp: remoteClose_def Let_def finished_def)

lemma dinv_snd_cong:
  assumes "dinv W a b fwd back wr rd" and "st_sendWindow a' = st_sendWindow a"
    and "st_localClosed a \<or> st_reset a \<longrightarrow> st_localClosed a' \<or> st_reset a'"
    and "finished a \<longrightarrow> finished a'"
  shows "dinv W a' b fwd back wr rd"
  using assms(1,3,4) unfolding dinv_def assms(2) by argo

lemma dinv_snd_recv:
  assumes "dinv W a b fwd (m # back) wr rd" and "receive m a = Inr a'"
  shows "dinv W a' b fwd back wr rd"
proof (cases "finished a")
  case True
  with assms show ?thesis by (auto simp: receive_def dinv_def)
next
  case False
  show ?thesis
  proof (cases m)
    case (Data d)
    with assms(1) have d: "dinv W a b fwd back wr rd" by (simp add: dinv_def)
    from Data False assms(2) have "deliver d a = Inr a'" by (simp add: receive_def)
    from deliver_other [OF this] show ?thesis
      by (intro dinv_snd_cong [OF d]) (simp_all add: finished_def)
  next
    case (Window c)
    from assms(1) Window have "unat (st_sendWindow a) + unat c \<le> unat W"
      by (simp add: dinv_def)
    from unat_sum_lt [OF this] have "unat (st_sendWindow (grantCredit c a)) = unat (st_sendWindow a) + unat c"
      by (simp add: unat_grantCredit)
    with False assms Window show ?thesis
      by (auto simp: receive_def dinv_def finished_def)
  next
    case (Fin r)
    with assms(1) have d: "dinv W a b fwd back wr rd" by (simp add: dinv_def)
    from Fin False assms(2) have "a' = remoteClose r a" by (simp add: receive_def)
    then show ?thesis
      by (intro dinv_snd_cong [OF d]) (auto simp: remoteClose_other)
  qed
qed

text \<open>Actions of the receiving end.\<close>

lemma dinv_rcv_write:
  assumes "dinv W a b fwd back wr rd" and "Write_locked mx n b = (WSend k, b')"
  shows "dinv W a b' fwd (back @ [Data d]) wr rd"
proof -
  have "b' = b\<lparr>st_sendWindow := st_sendWindow b'\<rparr>"
    using assms(2) by (auto simp: Write_locked_def Let_def split: if_splits)
  then obtain x where "b' = b\<lparr>st_sendWindow := x\<rparr>" ..
  then show ?thesis
    using assms(1) by (simp add: dinv_def recv_inv_def)
qed

lemma dinv_rcv_close:
  assumes "dinv W a b fwd back wr rd" and "closeWith_locked b = (True, b')"
  shows "dinv W a b' fwd (back @ [Fin r]) wr rd"
  using assms by (auto simp: dinv_def recv_inv_def closeWith_locked_def split: if_splits)

lemma dinv_rcv_reset:
  assumes "dinv W a b fwd back wr rd" and "Reset_locked r b = (True, b')"
  shows "dinv W a b' fwd (back @ [Fin r']) wr rd"
  using assms by (auto simp: dinv_def recv_inv_def Reset_locked_def split: if_splits)

lemma creditThreshold_pos: "0 < creditThreshold W"
  by (simp add: creditThreshold_def Let_def word_gt_0)

lemma dinv_rcv_read:
  assumes "dinv W a b fwd back wr rd" and "Read_locked (creditThreshold W) n b = (RData got, c, b')"
  shows "dinv W a b' fwd (back @ (if c > 0 then [Window c] else [])) wr (rd @ got)"
proof (cases "n = 0 \<or> st_buf b = []")
  case True
  with assms show ?thesis by (auto simp: Read_locked_def split: if_splits)
next
  case False
  let ?m = "min n (length (st_buf b))" and ?p = "st_pendingCredit b"
  have "unat ?p + ?m \<le> unat W"
    using assms(1) by (auto simp: dinv_def)
  then have p: "unat (?p + word_of_nat ?m) = unat ?p + ?m"
    by (intro unat_add_of_nat unat_sum_lt)
  have b': "st_buf b' = drop ?m (st_buf b)" "got = take ?m (st_buf b)"
    "st_reset b' = st_reset b" "st_remoteClosed b' = st_remoteClosed b"
    "st_pendingCredit b' < creditThreshold W"
    "unat (st_pendingCredit b') + unat c = unat ?p + ?m"
    using assms(2) False p creditThreshold_pos [of W]
    by (cases "?p + word_of_nat ?m \<ge> creditThreshold W"; auto simp: Read_locked_def Let_def)+
  have split: "st_buf b = got @ st_buf b'" by (simp add: b'(1,2))
  have len: "length (st_buf b) = ?m + length (st_buf b')" by (simp add: b'(1))
  define x where "x = (if c > 0 then [Window c] else [])"
  have x: "csum x = unat c"
    by (simp add: x_def word_gt_0)
  have r: "recv_inv W b'"
    using recv_inv_Read [OF _ assms(2)] assms(1) by (simp add: dinv_def)
  have sum: "length (st_buf b') + unat (st_pendingCredit b') + csum (back @ x) =
      length (st_buf b) + unat ?p + csum back"
    using b'(6) len x unfolding wire_simps_append by linarith
  have "dinv W a b' fwd (back @ x) wr (rd @ got)"
    using assms(1) b'(3,4,5) r sum unfolding dinv_def by (clarsimp simp: split)
  then show ?thesis by (simp add: x_def)
qed

lemma dinv_rcv_recv_ok:
  assumes "dinv W a b (m # fwd) back wr rd" and "receive m b = Inr b'"
  shows "dinv W a b' fwd back wr rd"
proof (cases "finished b")
  case True
  with assms have "b' = b" by (simp add: receive_def)
  moreover have "\<not> st_reset b \<Longrightarrow> dbytes (m # fwd) = dbytes fwd"
    using assms(1) True no_data_dbytes by (auto simp: dinv_def finished_def split: wire.splits)
  ultimately show ?thesis
    using assms(1) fin_ok_Cons_tl [of m fwd] by (auto simp: dinv_def split: wire.splits)
next
  case False
  show ?thesis
  proof (cases m)
    case (Data d)
    from assms(1) Data have "length d \<le> unat W" by (simp add: dinv_def)
    then have d: "length d < 2 ^ 32" by (rule unat_sum_lt)
    from False Data assms have n: "\<not> st_remoteClosed b" "\<not> st_reset b" and r: "deliver d b = Inr b'"
      by (auto simp: dinv_def finished_def receive_def)
    from r n have "st_buf b' = st_buf b @ d"
      by (auto simp: deliver_def split: if_splits)
    with assms(1) n Data deliver_other [OF r] recv_inv_deliver [OF _ r d] show ?thesis
      by (auto simp: dinv_def)
  next
    case (Window c)
    with False assms(2) have "b' = grantCredit c b" by (simp add: receive_def)
    with Window assms(1) show ?thesis by (simp add: dinv_def)
  next
    case (Fin r)
    with False assms(2) have b': "b' = remoteClose r b" by (simp add: receive_def)
    from Fin assms(1) have nd: "no_data fwd" by (simp add: dinv_def)
    then have "fin_ok fwd" "dbytes fwd = []"
      using fin_ok_append_nodata [of "[]" fwd] by (simp_all add: no_data_dbytes)
    with nd False Fin assms(1) show ?thesis
      by (simp add: b' dinv_def remoteClose_def Let_def recv_inv_def finished_def)
  qed
qed

lemma dinv_no_violation:
  assumes "dinv W a b (m # fwd) back wr rd"
  shows "\<exists>b'. receive m b = Inr b'"
proof (cases m)
  case (Data d)
  show ?thesis
  proof (cases "st_reset b \<or> st_remoteClosed b")
    case True
    with Data show ?thesis by (auto simp: receive_def deliver_def)
  next
    case False
    with assms Data have l: "length d + length (st_buf b) \<le> unat W"
      and r: "unat (st_recvWindow b) + length (st_buf b) = unat W"
      by (auto simp: dinv_def recv_inv_def)
    then have "length d \<le> unat (st_recvWindow b)" by simp
    moreover have "unat (word_of_nat (length d) :: u32) = length d"
      using calculation by (rule unat_word_of_nat_le)
    ultimately have "\<not> (word_of_nat (length d) :: u32) > st_recvWindow b"
      by (simp add: word_less_nat_alt)
    with Data show ?thesis by (auto simp: receive_def deliver_def)
  qed
qed (auto simp: receive_def)

section \<open>Runs\<close>

lemma act_inv:
  assumes "act mx (creditThreshold W) s s'" and "flow_inv W s"
  shows "flow_inv W s'"
proof -
  from assms(2) have i1: "dinv W (fl_A s) (fl_B s) (fl_AB s) (fl_BA s) (fl_wA s) (fl_rB s)"
    and i2: "dinv W (fl_B s) (fl_A s) (fl_BA s) (fl_AB s) (fl_wB s) (fl_rA s)"
    and nv: "\<not> fl_violation s"
    by (simp_all add: flow_inv_def)
  from assms(1) show ?thesis
  proof (cases rule: act.cases)
    case (a_write p k a)
    from dinv_snd_write [OF i1 a_write(2,3)] dinv_rcv_write [OF i2 a_write(2)] nv
    show ?thesis by (simp add: flow_inv_def a_write(1))
  next
    case (a_close a r)
    from dinv_snd_fin [OF i1 disjI1 [OF a_close(2)]] dinv_rcv_close [OF i2 a_close(2)] nv
    show ?thesis by (simp add: flow_inv_def a_close(1))
  next
    case (a_reset r a)
    from dinv_snd_fin [OF i1 disjI2 [OF a_reset(2)]] dinv_rcv_reset [OF i2 a_reset(2)] nv
    show ?thesis by (simp add: flow_inv_def a_reset(1))
  next
    case (a_read n got c a)
    from dinv_snd_read [OF i1 a_read(2)] dinv_rcv_read [OF i2 a_read(2)] nv
    show ?thesis by (simp add: flow_inv_def a_read(1))
  next
    case (a_recv m q a)
    from dinv_snd_recv [OF i1 [unfolded a_recv(2)] a_recv(3)]
      dinv_rcv_recv_ok [OF i2 [unfolded a_recv(2)] a_recv(3)] nv
    show ?thesis by (simp add: flow_inv_def a_recv(1))
  next
    case (a_violation m q err)
    from dinv_no_violation [OF i2 [unfolded a_violation(2)]] a_violation(3)
    show ?thesis by simp
  qed
qed

lemma flow_inv_init: "flow_inv W (flow_init i W)"
  using creditThreshold_pos [of W]
  by (simp add: flow_inv_def flow_init_def dinv_def recv_inv_def newStream_def finished_def)

lemma flow_run_inv: "flow_run mx i W s \<Longrightarrow> flow_inv W s"
proof (induction rule: flow_run.induct)
  case init
  show ?case by (rule flow_inv_init)
next
  case (stepA s s')
  then show ?case using act_inv by blast
next
  case (stepB s s')
  then show ?case using act_inv [of mx W "swap s" s'] by simp
qed

lemma threshold_less: "st_pendingCredit b < creditThreshold W \<Longrightarrow> 0 < W \<Longrightarrow> unat (st_pendingCredit b) < unat W"
proof -
  assume "st_pendingCredit b < creditThreshold W" and W: "0 < W"
  moreover have "unat (creditThreshold W) \<le> unat W"
    using W by (auto simp: creditThreshold_def Let_def unat_div word_gt_0 unat_gt_0 Suc_le_eq)
  ultimately show ?thesis by (simp add: word_less_nat_alt)
qed

text \<open>Two short runs for the witnesses: with a window of one byte, A writes \<open>[7]\<close> and is then
  out of credit; and A closes at once, which B receives.\<close>

definition demo_written :: flow where
  "demo_written = (flow_init 1 1)\<lparr>fl_A := (newStream 1 1)\<lparr>st_sendWindow := 0\<rparr>, fl_AB := [Data [7]],
     fl_wA := [7]\<rparr>"

definition demo_closed :: flow where
  "demo_closed = (flow_init 1 1)\<lparr>fl_A := (newStream 1 1)\<lparr>st_localClosed := True\<rparr>,
     fl_B := (newStream 1 1)\<lparr>st_remoteClosed := True\<rparr>\<rparr>"

lemma demo_written_run: "flow_run 64 1 1 demo_written"
proof -
  have "Write_locked 64 (length [7 :: byte]) (fl_A (flow_init 1 1)) = (WSend 1, (newStream 1 1)\<lparr>st_sendWindow := 0\<rparr>)"
    by (simp add: Write_locked_def flow_init_def newStream_def)
  from flow_run.stepA [OF flow_run.init act.a_write [OF this]] show ?thesis
    by (simp add: demo_written_def flow_init_def)
qed

lemma demo_closed_run: "flow_run 64 1 1 demo_closed"
proof -
  let ?s = "(flow_init 1 1)\<lparr>fl_A := (newStream 1 1)\<lparr>st_localClosed := True\<rparr>, fl_AB := [Fin ReasonOK]\<rparr>"
  have "closeWith_locked (fl_A (flow_init 1 1)) = (True, (newStream 1 1)\<lparr>st_localClosed := True\<rparr>)"
    by (simp add: closeWith_locked_def flow_init_def newStream_def)
  from flow_run.stepA [OF flow_run.init act.a_close [OF this, where r = ReasonOK]]
  have "flow_run 64 1 1 ?s" by (simp add: flow_init_def)
  moreover have "fl_BA (swap ?s) = [Fin ReasonOK]" by (simp add: swap_def flow_init_def)
  moreover have "receive (Fin ReasonOK) (fl_A (swap ?s)) = Inr ((newStream 1 1)\<lparr>st_remoteClosed := True\<rparr>)"
    by (simp add: receive_def finished_def remoteClose_def swap_def flow_init_def newStream_def Let_def)
  ultimately have "flow_run 64 1 1 (swap ((swap ?s)\<lparr>fl_A := (newStream 1 1)\<lparr>st_remoteClosed := True\<rparr>, fl_BA := []\<rparr>))"
    by (blast intro: flow_run.stepB act.a_recv)
  then show ?thesis by (simp add: swap_def demo_closed_def flow_init_def)
qed

section \<open>Properties\<close>

text \<open>C11: Two ends that follow the protocol never see a flow-control violation, in any
  interleaving of writes, reads, closes, resets and deliveries, and at every moment the bytes
  buffered at an end are at most the initial window.\<close>
theorem flow_control_sound:
  assumes "flow_run mx i W s"
  shows "\<not> fl_violation s \<and> length (st_buf (fl_A s)) \<le> unat W \<and> length (st_buf (fl_B s)) \<le> unat W"
  using flow_run_inv [OF assms] by (auto simp: flow_inv_def dinv_def)

theorem flow_control_sound_witness:
  "\<not> fl_violation demo_written \<and> length (st_buf (fl_B demo_written)) \<le> 1"
  using flow_control_sound [OF demo_written_run] by simp



text \<open>C22: Flow control does not deadlock: when a writer must wait for credit and the other end
  has not reset the stream, there is data on its way to the reader, unread data in the
  reader's buffer, or credit on its way back. Batching credit never withholds the last of it.\<close>
theorem flow_no_deadlock:
  assumes "flow_run mx i W s" and "0 < W" and "\<not> st_reset (fl_B s)"
    and "fst (Write_locked mx n (fl_A s)) = WBlock"
  shows "0 < length (dbytes (fl_AB s)) \<or> 0 < length (st_buf (fl_B s)) \<or> 0 < csum (fl_BA s)"
proof (rule ccontr)
  assume no: "\<not> ?thesis"
  from assms(4) have w: "st_sendWindow (fl_A s) = 0" "\<not> st_reset (fl_A s)" "\<not> st_localClosed (fl_A s)"
    by (auto simp: Write_locked_def Let_def word_gt_0 split: if_splits)
  with flow_run_inv [OF assms(1)] assms(3) no
  have "unat (st_pendingCredit (fl_B s)) = unat W" "st_pendingCredit (fl_B s) < creditThreshold W"
    by (auto simp: flow_inv_def dinv_def finished_def)
  with threshold_less assms(2) show False by fastforce
qed

theorem flow_no_deadlock_witness:
  "fst (Write_locked 64 3 (fl_A demo_written)) = WBlock \<and>
   (0 < length (dbytes (fl_AB demo_written)) \<or> 0 < length (st_buf (fl_B demo_written)) \<or>
    0 < csum (fl_BA demo_written))"
proof -
  have "\<not> st_reset (fl_B demo_written)" and "fst (Write_locked 64 3 (fl_A demo_written)) = WBlock"
    by (simp_all add: demo_written_def flow_init_def newStream_def Write_locked_def)
  with flow_no_deadlock [OF demo_written_run, of 3] show ?thesis by simp
qed

end
