(* ===== verification/Transport.thy ===== *)
theory Transport
  imports Proto_Frame
begin

text \<open>
  Framed connections, \<open>internal/transport/conn.go\<close>: a network connection with its reader and
  writer, both limited to the protocol's maximal payload. The bytes the peer sends are the
  connection's source; a closed connection refuses every further write and its source ends with
  an error after what had already been received.
\<close>

record conn =
  c_in :: source
  c_out :: sink
  c_closed :: bool
  c_readDeadline :: "time option"

definition ErrClosed :: io_err where "ErrClosed = IOError ''use of closed network connection''"

definition NewConn :: "source \<Rightarrow> sink \<Rightarrow> conn" where
  "NewConn r w = \<lparr>c_in = r, c_out = w, c_closed = False, c_readDeadline = None\<rparr>"

definition conn_Read :: "conn \<Rightarrow> (proto_err + frame) \<times> conn" where
  "conn_Read c =
    (case ReadFrame MaxFramePayload (c_in c) of (r, s) \<Rightarrow> (r, c\<lparr>c_in := s\<rparr>))"

definition conn_WriteFrame :: "u8 \<Rightarrow> u32 \<Rightarrow> byte list \<Rightarrow> conn \<Rightarrow> proto_err option \<times> conn" where
  "conn_WriteFrame t i p c =
    (case WriteFrame MaxFramePayload t i p (c_out c) of (e, w) \<Rightarrow> (e, c\<lparr>c_out := w\<rparr>))"

definition conn_WriteClose :: "u32 \<Rightarrow> reason \<Rightarrow> conn \<Rightarrow> proto_err option \<times> conn" where
  "conn_WriteClose i r c =
    (case WriteClose MaxFramePayload i r (c_out c) of (e, w) \<Rightarrow> (e, c\<lparr>c_out := w\<rparr>))"

definition conn_WriteError :: "reason \<Rightarrow> conn \<Rightarrow> proto_err option \<times> conn" where
  "conn_WriteError r c =
    (case WriteError MaxFramePayload r (c_out c) of (e, w) \<Rightarrow> (e, c\<lparr>c_out := w\<rparr>))"

definition conn_Close :: "conn \<Rightarrow> conn" where
  "conn_Close c =
    (if c_closed c then c
     else c\<lparr>c_closed := True, c_in := (c_in c)\<lparr>in_end := ErrClosed\<rparr>,
            c_out := (c_out c)\<lparr>out_calls := Some 0, out_err := ErrClosed\<rparr>\<rparr>)"

definition SetReadDeadline :: "time \<Rightarrow> conn \<Rightarrow> conn" where
  "SetReadDeadline t c = c\<lparr>c_readDeadline := Some t\<rparr>"

definition ClearReadDeadline :: "conn \<Rightarrow> conn" where
  "ClearReadDeadline c = c\<lparr>c_readDeadline := None\<rparr>"

text \<open>Draining reads until the source reports its end, whatever that is.\<close>

definition DrainAndClose :: "time \<Rightarrow> duration \<Rightarrow> conn \<Rightarrow> conn" where
  "DrainAndClose now within c =
    (let c = SetReadDeadline (now + within) c;
         c = c\<lparr>c_in := (c_in c)\<lparr>in_bytes := []\<rparr>\<rparr>
     in conn_Close c)"

lemma conn_WriteFrame_other:
  "conn_WriteFrame t i p c = (e, c') \<Longrightarrow> c_in c' = c_in c \<and> c_closed c' = c_closed c"
  by (auto simp: conn_WriteFrame_def split: prod.splits)

lemma conn_WriteClose_eq: "conn_WriteClose i r c = conn_WriteFrame TypeCloseStream i (bytes_of r) c"
  by (simp add: conn_WriteClose_def conn_WriteFrame_def WriteClose_def)

lemma conn_WriteError_eq: "conn_WriteError r c = conn_WriteFrame TypeError 0 (bytes_of r) c"
  by (simp add: conn_WriteError_def conn_WriteFrame_def WriteError_def)

lemma conn_WriteFrame_in:
  "c_in (snd (conn_WriteFrame t i p c)) = c_in c"
  "c_closed (snd (conn_WriteFrame t i p c)) = c_closed c"
  by (simp_all add: conn_WriteFrame_def split: prod.splits)

lemma conn_WriteFrame_ok:
  assumes "length p \<le> unat MaxFramePayload" and "out_calls (c_out c) = None"
  shows "conn_WriteFrame t i p c =
    (None, c\<lparr>c_out := (c_out c)\<lparr>out_bytes := out_bytes (c_out c) @
       frame_bytes \<lparr>fr_Type = t, fr_StreamID = i, fr_Payload = p\<rparr>\<rparr>\<rparr>)"
  using assms by (simp add: conn_WriteFrame_def WriteFrame_ok)

lemma conn_Read_other:
  "conn_Read c = (r, c') \<Longrightarrow> c_out c' = c_out c \<and> c_closed c' = c_closed c"
  by (auto simp: conn_Read_def split: prod.splits)

lemma conn_Close_idem [simp]: "conn_Close (conn_Close c) = conn_Close c"
  by (simp add: conn_Close_def)

lemma c_closed_Close [simp]: "c_closed (conn_Close c)"
  by (simp add: conn_Close_def)

end
