(* ===== verification/Mux_Session.thy ===== *)
theory Mux_Session
  imports Mux_Stream Transport "HOL-Library.AList"
begin

text \<open>
  The multiplexer's sessions, \<open>internal/mux/session.go\<close>, with the parts of the stream methods
  of \<open>internal/mux/stream.go\<close> that act on the session. Streams and the channels that wait for an
  acknowledgement are heap objects: the session holds a list of all of them, and its maps and
  queues hold addresses (positions in that list), so a stream that was retired can still be read
  by whoever holds it. Every definition is one call made without interruption; a call that waits
  in a \<open>select\<close> is split at the wait, and the branch taken is an argument.
\<close>

section \<open>Configuration and state\<close>

record config =
  cf_Role :: u8
  cf_MaxFramePayload :: u32
  cf_InitialWindow :: u32
  cf_MaxStreams :: u32
  cf_KeepAlive :: duration
  cf_IdleTimeout :: duration

definition withDefaults :: "config \<Rightarrow> config" where
  "withDefaults c =
    (let c = (if cf_MaxFramePayload c = 0 then c\<lparr>cf_MaxFramePayload := MaxFramePayload\<rparr> else c);
         c = (if cf_InitialWindow c = 0 then c\<lparr>cf_InitialWindow := InitialWindow\<rparr> else c);
         c = (if cf_MaxStreams c = 0 then c\<lparr>cf_MaxStreams := MaxStreamsPerConnection\<rparr> else c)
     in c)"

record session =
  s_ID :: string
  s_Peer :: auth
  s_conn :: conn
  s_maxFrame :: u32
  s_window :: u32
  s_maxStreams :: u32
  s_creditThreshold :: u32
  s_isClient :: bool
  s_objs :: "stream list"
  s_streams :: "(u32 \<times> nat) list"
  s_nextID :: u32
  s_chans :: "reason option list"
  s_pending :: "(u32 \<times> nat) list"
  s_acceptCh :: "nat list"
  s_done :: bool
  s_err :: "mux_err option"
  s_lastRecv :: time

definition newSession :: "time \<Rightarrow> conn \<Rightarrow> bool \<Rightarrow> hello_ack \<Rightarrow> session" where
  "newSession now c isClient ack =
     \<lparr>s_ID = '''', s_Peer = \<lparr>a_DeviceID = '''', a_UserID = '''', a_Resource = ''''\<rparr>, s_conn = c,
      s_maxFrame = k_MaxFramePayload ack, s_window = k_InitialWindow ack,
      s_maxStreams = k_MaxStreams ack, s_creditThreshold = creditThreshold (k_InitialWindow ack),
      s_isClient = isClient, s_objs = [], s_streams = [],
      s_nextID = (if isClient then 1 else 2), s_chans = [], s_pending = [], s_acceptCh = [],
      s_done = False, s_err = None, s_lastRecv = now\<rparr>"

section \<open>Helpers\<close>

definition isClosed :: "session \<Rightarrow> bool" where
  "isClosed s \<longleftrightarrow> s_done s"

definition setErr :: "mux_err \<Rightarrow> session \<Rightarrow> session" where
  "setErr e s = (if s_err s = None then s\<lparr>s_err := Some e\<rparr> else s)"

definition Err :: "session \<Rightarrow> mux_err option" where
  "Err s =
    (case s_err s of
       None \<Rightarrow> if s_done s then Some (ErrSessionClosed None) else None
     | Some e \<Rightarrow> Some e)"

definition StreamCount :: "session \<Rightarrow> nat" where
  "StreamCount s = length (s_streams s)"

definition writeFrame :: "u8 \<Rightarrow> u32 \<Rightarrow> byte list \<Rightarrow> session \<Rightarrow> proto_err option \<times> session" where
  "writeFrame t i p s = (case conn_WriteFrame t i p (s_conn s) of (e, c) \<Rightarrow> (e, s\<lparr>s_conn := c\<rparr>))"

definition stream_lookup :: "u32 \<Rightarrow> session \<Rightarrow> nat option" where
  "stream_lookup i s = map_of (s_streams s) i"

definition retire :: "u32 \<Rightarrow> session \<Rightarrow> session" where
  "retire i s = s\<lparr>s_streams := AList.delete i (s_streams s), s_pending := AList.delete i (s_pending s)\<rparr>"

definition upd_stream :: "nat \<Rightarrow> (stream \<Rightarrow> stream) \<Rightarrow> session \<Rightarrow> session" where
  "upd_stream a f s = s\<lparr>s_objs := (s_objs s)[a := f (s_objs s ! a)]\<rparr>"

definition retireIfDone :: "nat \<Rightarrow> session \<Rightarrow> session" where
  "retireIfDone a s = (if finished (s_objs s ! a) then retire (st_id (s_objs s ! a)) s else s)"

text \<open>A send on a channel with room for one value that gives up when it is full.\<close>

definition try_send :: "reason \<Rightarrow> nat \<Rightarrow> reason option list \<Rightarrow> reason option list" where
  "try_send r ch chans = (if ch < length chans \<and> chans ! ch = None then chans[ch := Some r] else chans)"

definition completeOpen :: "u32 \<Rightarrow> reason \<Rightarrow> session \<Rightarrow> session" where
  "completeOpen i r s =
    (case map_of (s_pending s) i of
       None \<Rightarrow> s
     | Some ch \<Rightarrow> s\<lparr>s_pending := AList.delete i (s_pending s), s_chans := try_send r ch (s_chans s)\<rparr>)"

section \<open>Ending a session\<close>

definition kill_all :: "reason \<Rightarrow> session \<Rightarrow> session" where
  "kill_all r s =
     s\<lparr>s_streams := [], s_pending := [],
       s_objs := fold (\<lambda>(_, a) objs. objs[a := kill r (objs ! a)]) (s_streams s) (s_objs s),
       s_chans := fold (\<lambda>(_, ch). try_send r ch) (s_pending s) (s_chans s)\<rparr>"

definition session_Close :: "reason \<Rightarrow> session \<Rightarrow> session" where
  "session_Close r s =
    (if s_done s then s
     else
       let s = setErr (ErrSessionClosed (Some r)) s;
           s = s\<lparr>s_conn := snd (conn_WriteError r (s_conn s))\<rparr>;
           s = kill_all r s
       in s\<lparr>s_done := True, s_conn := conn_Close (s_conn s)\<rparr>)"

definition shutdown :: "reason \<Rightarrow> session \<Rightarrow> session" where
  "shutdown r s =
    (if s_done s then s
     else let s = kill_all r s in s\<lparr>s_done := True, s_conn := conn_Close (s_conn s)\<rparr>)"

section \<open>Dispatching what the peer sends\<close>

text \<open>An error that ends the session; \<open>Fatal\<close> is one that knows its reason code.\<close>

datatype dispatch_err = Plain mux_err | Fatal mux_err reason

definition handleOpen :: "u32 \<Rightarrow> byte list \<Rightarrow> session \<Rightarrow> dispatch_err option \<times> session" where
  "handleOpen i payload s =
    (if map_of (s_streams s) i \<noteq> None then (Some (Plain (ErrProto ErrMalformedFrame)), s)
     else if (i mod 2 = 1) = s_isClient s then (Some (Plain (ErrProto ErrMalformedFrame)), s)
     else if (word_of_nat (length (s_streams s)) :: u32) \<ge> s_maxStreams s then
       (case conn_WriteClose i ReasonLimitStreamsExceeded (s_conn s) of
          (e, c) \<Rightarrow> (map_option (Plain \<circ> ErrProto) e, s\<lparr>s_conn := c\<rparr>))
     else
       let st = newStream i (s_window s);
           st = (if length payload > 0 then st\<lparr>st_openPayload := payload\<rparr> else st);
           a = length (s_objs s);
           s = s\<lparr>s_objs := s_objs s @ [st], s_streams := AList.update i a (s_streams s)\<rparr>
       in
         (case writeFrame TypeStreamOK i [] s of
            (Some e, s) \<Rightarrow> (Some (Plain (ErrProto e)), s)
          | (None, s) \<Rightarrow>
              if length (s_acceptCh s) < unat (s_maxStreams s)
              then (None, s\<lparr>s_acceptCh := s_acceptCh s @ [a]\<rparr>)
              else
                let s = retire i s in
                (case conn_WriteClose i ReasonLimitStreamsExceeded (s_conn s) of
                   (e, c) \<Rightarrow> (map_option (Plain \<circ> ErrProto) e, s\<lparr>s_conn := c\<rparr>))))"
definition dispatch :: "frame \<Rightarrow> session \<Rightarrow> dispatch_err option \<times> session" where
  "dispatch f s =
    (if fr_Type f = TypeOpenStream then handleOpen (fr_StreamID f) (fr_Payload f) s
     else if fr_Type f = TypeStreamOK then (None, completeOpen (fr_StreamID f) ReasonOK s)
     else if fr_Type f = TypeStreamData then
       (case stream_lookup (fr_StreamID f) s of
          None \<Rightarrow> (None, s)
        | Some a \<Rightarrow>
           (case deliver (fr_Payload f) (s_objs s ! a) of
              Inl e \<Rightarrow> (Some (Fatal e ReasonFlowControlViolation), s)
            | Inr st \<Rightarrow> (None, upd_stream a (\<lambda>_. st) s)))
     else if fr_Type f = TypeStreamWindow then
       (case DecodeWindow (fr_Payload f) of
          Inl e \<Rightarrow> (Some (Plain (ErrProto e)), s)
        | Inr credit \<Rightarrow>
           (case stream_lookup (fr_StreamID f) s of
              None \<Rightarrow> (None, s)
            | Some a \<Rightarrow> (None, upd_stream a (grantCredit credit) s)))
     else if fr_Type f = TypeCloseStream then
       let r = string_of (fr_Payload f);
           r = (if r = '''' then ReasonOK else r);
           s = completeOpen (fr_StreamID f) r s
       in (case stream_lookup (fr_StreamID f) s of
             None \<Rightarrow> (None, s)
           | Some a \<Rightarrow> (None, retireIfDone a (upd_stream a (remoteClose r) s)))
     else if fr_Type f = TypePing then
       (case writeFrame TypePong 0 (fr_Payload f) s of
          (e, s) \<Rightarrow> (map_option (Plain \<circ> ErrProto) e, s))
     else if fr_Type f = TypePong then (None, s)
     else if fr_Type f = TypeError then
       let r = string_of (fr_Payload f) in
       (None, shutdown r (setErr (ErrSessionClosed (Some r)) s))
     else (Some (Plain (ErrProto ErrMalformedFrame)), s))"

text \<open>One turn of the read loop; the boolean says whether the loop goes on.\<close>

definition read_turn :: "time \<Rightarrow> session \<Rightarrow> bool \<times> session" where
  "read_turn now s =
    (case conn_Read (s_conn s) of
       (Inl e, c) \<Rightarrow>
         let s = s\<lparr>s_conn := c\<rparr>;
             s = (if e = ErrIO EOF then setErr (ErrSessionClosed None) s else setErr (ErrProto e) s)
         in (False, shutdown (ReasonFor (Some e)) s)
     | (Inr f, c) \<Rightarrow>
         let s = s\<lparr>s_conn := c, s_lastRecv := now\<rparr> in
         if (word_of_nat (length (fr_Payload f)) :: u32) > s_maxFrame s then
           (False, shutdown ReasonLimitFrameTooLarge (setErr (ErrProto ErrFrameTooLarge) s))
         else
           (case dispatch f s of
              (None, s) \<Rightarrow> (True, s)
            | (Some (Plain e), s) \<Rightarrow> (False, shutdown ReasonProtocolMalformedFrame (setErr e s))
            | (Some (Fatal e r), s) \<Rightarrow> (False, shutdown r (setErr e s))))"

text \<open>The loop, with fuel: \<^const>\<open>None\<close> means that the fuel ran out.\<close>

fun readLoop :: "nat \<Rightarrow> time \<Rightarrow> session \<Rightarrow> session option" where
  "readLoop 0 now s = None"
| "readLoop (Suc n) now s =
    (case read_turn now s of
       (True, s) \<Rightarrow> readLoop n now s
     | (False, s) \<Rightarrow> Some s)"

text \<open>What \<open>keepAliveLoop\<close> does at a tick; the boolean says whether the loop goes on.\<close>

definition keepAlive_interval :: "duration \<Rightarrow> duration \<Rightarrow> duration" where
  "keepAlive_interval interval idle = (if interval \<le> 0 then idle div 3 else interval)"

definition keepAlive_tick :: "time \<Rightarrow> duration \<Rightarrow> session \<Rightarrow> bool \<times> session" where
  "keepAlive_tick now idle s =
    (if s_done s then (False, s)
     else if idle > 0 \<and> time_Sub now (s_lastRecv s) > idle then
       (False, session_Close ReasonIdleTimeout (setErr (ErrSessionClosed None) s))
     else
       (case writeFrame TypePing 0 [] s of
          (None, s) \<Rightarrow> (True, s)
        | (Some e, s) \<Rightarrow> (False, shutdown ReasonShutdown (setErr (ErrProto e) s))))"

section \<open>Opening and accepting streams\<close>

text \<open>\<open>Open\<close> up to its wait: the identifier, the stream's address and the channel's.\<close>

definition Open_send :: "byte list \<Rightarrow> session \<Rightarrow> (mux_err + u32 \<times> nat \<times> nat) \<times> session" where
  "Open_send payload s =
    (if isClosed s then (Inl (the (Err s)), s)
     else if (word_of_nat (length (s_streams s)) :: u32) \<ge> s_maxStreams s then
       (Inl ErrTooManyStreams, s)
     else
       let i = s_nextID s;
           a = length (s_objs s);
           ch = length (s_chans s);
           s = s\<lparr>s_nextID := s_nextID s + 2, s_objs := s_objs s @ [newStream i (s_window s)],
                 s_streams := AList.update i a (s_streams s), s_chans := s_chans s @ [None],
                 s_pending := AList.update i ch (s_pending s)\<rparr>
       in
         (case writeFrame TypeOpenStream i payload s of
            (Some e, s) \<Rightarrow> (Inl (ErrProto e), retire i s)
          | (None, s) \<Rightarrow> (Inr (i, a, ch), s)))"

datatype wait_branch = OnValue | OnContext | OnDone

text \<open>The wait of \<open>Open\<close>, for the branch the \<open>select\<close> takes; \<^const>\<open>None\<close> if that branch is not
  ready.\<close>

definition Open_wait ::
  "wait_branch \<Rightarrow> bool \<Rightarrow> u32 \<times> nat \<times> nat \<Rightarrow> session \<Rightarrow> ((mux_err + nat) \<times> session) option" where
  "Open_wait b ctxDone w s =
    (case w of (i, a, ch) \<Rightarrow>
      (case b of
         OnValue \<Rightarrow>
          (case s_chans s ! ch of
             None \<Rightarrow> None
           | Some r \<Rightarrow>
              let s = s\<lparr>s_chans := (s_chans s)[ch := None]\<rparr> in
              if r \<noteq> ReasonOK then Some (Inl (ErrStreamRefused r), retire i s) else Some (Inr a, s))
       | OnContext \<Rightarrow> if ctxDone then Some (Inl ErrContext, retire i s) else None
       | OnDone \<Rightarrow> if s_done s then Some (Inl (the (Err s)), s) else None))"

definition AcceptStream :: "wait_branch \<Rightarrow> bool \<Rightarrow> session \<Rightarrow> ((mux_err + nat) \<times> session) option" where
  "AcceptStream b ctxDone s =
    (case b of
       OnValue \<Rightarrow>
        (case s_acceptCh s of
           [] \<Rightarrow> None
         | a # q \<Rightarrow> Some (Inr a, s\<lparr>s_acceptCh := q\<rparr>))
     | OnContext \<Rightarrow> if ctxDone then Some (Inl ErrContext, s) else None
     | OnDone \<Rightarrow> if s_done s then Some (Inl (the (Err s)), s) else None)"

section \<open>Stream methods\<close>

definition sendData :: "u32 \<Rightarrow> byte list \<Rightarrow> session \<Rightarrow> mux_err option \<times> session" where
  "sendData i b s =
    (if isClosed s then (Err s, s)
     else case writeFrame TypeStreamData i b s of (e, s) \<Rightarrow> (map_option ErrProto e, s))"

definition sendClose :: "u32 \<Rightarrow> reason \<Rightarrow> session \<Rightarrow> mux_err option \<times> session" where
  "sendClose i r s =
    (if isClosed s then (None, s)
     else case conn_WriteClose i r (s_conn s) of (e, c) \<Rightarrow> (map_option ErrProto e, s\<lparr>s_conn := c\<rparr>))"

definition sendWindowUpdate :: "u32 \<Rightarrow> u32 \<Rightarrow> session \<Rightarrow> mux_err option \<times> session" where
  "sendWindowUpdate i credit s =
    (if isClosed s then (Err s, s)
     else case writeFrame TypeStreamWindow i (EncodeWindow credit) s of
       (e, s) \<Rightarrow> (map_option ErrProto e, s))"

definition stream_Read :: "nat \<Rightarrow> nat \<Rightarrow> session \<Rightarrow> read_res \<times> session" where
  "stream_Read a n s =
    (case Read_locked (s_creditThreshold s) n (s_objs s ! a) of
       (r, credit, st) \<Rightarrow>
         let s = upd_stream a (\<lambda>_. st) s in
         if credit > 0 then (r, snd (sendWindowUpdate (st_id st) credit s)) else (r, s))"

datatype write_end = WDone | WWait | WErr mux_err | WNoFuel

text \<open>The loop of \<open>Write\<close> on what is left of the payload, counting what was written.\<close>

fun write_loop :: "nat \<Rightarrow> nat \<Rightarrow> byte list \<Rightarrow> nat \<Rightarrow> session \<Rightarrow> (nat \<times> write_end) \<times> session" where
  "write_loop 0 a p written s = ((written, WNoFuel), s)"
| "write_loop (Suc fuel) a p written s =
    (if p = [] then ((written, WDone), s)
     else
       (case Write_locked (s_maxFrame s) (length p) (s_objs s ! a) of
          (WReset r, st) \<Rightarrow> ((written, WErr (ErrStreamClosed (Some r))), s)
        | (WClosed, st) \<Rightarrow> ((written, WErr (ErrStreamClosed None)), s)
        | (WBlock, st) \<Rightarrow> ((written, WWait), s)
        | (WSend n, st) \<Rightarrow>
            (case sendData (st_id st) (take n p) (upd_stream a (\<lambda>_. st) s) of
               (Some e, s) \<Rightarrow> ((written, WErr e), s)
             | (None, s) \<Rightarrow> write_loop fuel a (drop n p) (written + n) s)))"

definition stream_Write :: "nat \<Rightarrow> byte list \<Rightarrow> session \<Rightarrow> (nat \<times> write_end) \<times> session" where
  "stream_Write a p s = write_loop (length p + 1) a p 0 s"

definition closeWith :: "nat \<Rightarrow> reason \<Rightarrow> session \<Rightarrow> mux_err option \<times> session" where
  "closeWith a r s =
    (case closeWith_locked (s_objs s ! a) of
       (False, st) \<Rightarrow> (None, s)
     | (True, st) \<Rightarrow>
         (case sendClose (st_id st) r (upd_stream a (\<lambda>_. st) s) of
            (e, s) \<Rightarrow> (e, retireIfDone a s)))"

definition stream_Close :: "nat \<Rightarrow> session \<Rightarrow> mux_err option \<times> session" where
  "stream_Close a s = closeWith a ReasonOK s"

definition stream_Reset :: "nat \<Rightarrow> reason \<Rightarrow> session \<Rightarrow> mux_err option \<times> session" where
  "stream_Reset a r s =
    (case Reset_locked r (s_objs s ! a) of
       (False, st) \<Rightarrow> (None, s)
     | (True, st) \<Rightarrow>
         (case sendClose (st_id st) r (upd_stream a (\<lambda>_. st) s) of
            (e, s) \<Rightarrow> (e, retire (st_id st) s)))"

section \<open>The handshake\<close>

text \<open>\<open>deadlineGuard\<close> and the function it returns.\<close>

definition deadlineGuard :: "time \<Rightarrow> duration \<Rightarrow> conn \<Rightarrow> conn" where
  "deadlineGuard now d c = SetReadDeadline (now + d) c"

definition guard_stop :: "conn \<Rightarrow> conn" where
  "guard_stop c = ClearReadDeadline c"

text \<open>Both sides return the connection as it was left and, on success, a session (which holds the
  connection) or a half-completed handshake.\<close>

definition mux_Dial :: "time \<Rightarrow> conn \<Rightarrow> config \<Rightarrow> auth \<Rightarrow> (mux_err + session) \<times> conn" where
  "mux_Dial now c cfg auth =
    (let cfg = withDefaults cfg;
         c = deadlineGuard now HandshakeTimeout c;
         hello = \<lparr>h_MinVersion = Version, h_MaxVersion = Version, h_Role = cf_Role cfg\<rparr>
     in
     case conn_WriteFrame TypeHello 0 (Hello_Encode hello) c of
       (Some e, c) \<Rightarrow> (Inl (ErrProto e), guard_stop c)
     | (None, c) \<Rightarrow>
     (case conn_Read c of
        (Inl e, c) \<Rightarrow> (Inl (ErrProto e), guard_stop c)
      | (Inr f, c) \<Rightarrow>
        if fr_Type f = TypeError then (Inl (ErrPeerRefused (string_of (fr_Payload f))), guard_stop c)
        else if fr_Type f \<noteq> TypeHelloAck then (Inl (ErrProto ErrMalformedFrame), guard_stop c)
        else
        (case DecodeHelloAck (fr_Payload f) of
           Inl e \<Rightarrow> (Inl (ErrProto e), guard_stop c)
         | Inr ack \<Rightarrow>
           if k_Version ack \<noteq> Version then (Inl (ErrProto ErrUnsupportedVersion), guard_stop c)
           else
           (case conn_WriteFrame TypeAuth 0 (Auth_Encode auth) c of
              (Some e, c) \<Rightarrow> (Inl (ErrProto e), guard_stop c)
            | (None, c) \<Rightarrow>
            (case conn_Read c of
               (Inl e, c) \<Rightarrow> (Inl (ErrProto e), guard_stop c)
             | (Inr f, c) \<Rightarrow>
               if fr_Type f = TypeError then (Inl (ErrAuthRefused (string_of (fr_Payload f))), guard_stop c)
               else if fr_Type f \<noteq> TypeAuthOK then (Inl (ErrProto ErrMalformedFrame), guard_stop c)
               else
               (case DecodeAuthOK (fr_Payload f) of
                  Inl e \<Rightarrow> (Inl (ErrProto e), guard_stop c)
                | Inr sid \<Rightarrow>
                    let c = guard_stop c in
                    (Inr ((newSession now c True ack)\<lparr>s_ID := sid, s_Peer := auth\<rparr>), c)))))))"

record handshake =
  hs_Conn :: conn
  hs_Hello :: hello
  hs_Auth :: auth
  hs_cfg :: config
  hs_ack :: hello_ack

definition accept_fail :: "mux_err \<Rightarrow> reason \<Rightarrow> conn \<Rightarrow> (mux_err + handshake) \<times> conn" where
  "accept_fail e r c = (Inl e, guard_stop (snd (conn_WriteError r c)))"

definition mux_Accept :: "time \<Rightarrow> conn \<Rightarrow> config \<Rightarrow> (mux_err + handshake) \<times> conn" where
  "mux_Accept now c cfg =
    (let cfg = withDefaults cfg; c = deadlineGuard now HandshakeTimeout c in
     case conn_Read c of
       (Inl e, c) \<Rightarrow> (Inl (ErrProto e), guard_stop c)
     | (Inr f, c) \<Rightarrow>
       if fr_Type f \<noteq> TypeHello
         then accept_fail (ErrProto ErrMalformedFrame) ReasonProtocolMalformedFrame c
       else
       (case DecodeHello (fr_Payload f) of
          Inl e \<Rightarrow> accept_fail (ErrProto e) ReasonProtocolMalformedFrame c
        | Inr hello \<Rightarrow>
          if Version < h_MinVersion hello \<or> Version > h_MaxVersion hello
            then accept_fail (ErrProto ErrUnsupportedVersion) ReasonProtocolVersionUnsupported c
          else
          let ack = \<lparr>k_Version = Version, k_MaxFramePayload = cf_MaxFramePayload cfg,
                     k_InitialWindow = cf_InitialWindow cfg, k_MaxStreams = cf_MaxStreams cfg\<rparr> in
          (case conn_WriteFrame TypeHelloAck 0 (HelloAck_Encode ack) c of
             (Some e, c) \<Rightarrow> (Inl (ErrProto e), guard_stop c)
           | (None, c) \<Rightarrow>
           (case conn_Read c of
              (Inl e, c) \<Rightarrow> (Inl (ErrProto e), guard_stop c)
            | (Inr f, c) \<Rightarrow>
              if fr_Type f \<noteq> TypeAuth
                then accept_fail (ErrProto ErrMalformedFrame) ReasonProtocolMalformedFrame c
              else
              (case DecodeAuth (fr_Payload f) of
                 Inl e \<Rightarrow> accept_fail (ErrProto e) ReasonProtocolMalformedFrame c
               | Inr auth \<Rightarrow>
                   (Inr \<lparr>hs_Conn = c, hs_Hello = hello, hs_Auth = auth, hs_cfg = cfg,
                         hs_ack = ack\<rparr>, c))))))"

definition Admit :: "time \<Rightarrow> string \<Rightarrow> handshake \<Rightarrow> (mux_err + session) \<times> conn" where
  "Admit now sessionID h =
    (case conn_WriteFrame TypeAuthOK 0 (AuthOK_Encode sessionID) (hs_Conn h) of
       (Some e, c) \<Rightarrow> (Inl (ErrProto e), guard_stop c)
     | (None, c) \<Rightarrow>
         let c = guard_stop c in
         (Inr ((newSession now c False (hs_ack h))\<lparr>s_ID := sessionID, s_Peer := hs_Auth h\<rparr>), c))"

definition Refuse :: "time \<Rightarrow> reason \<Rightarrow> handshake \<Rightarrow> proto_err option \<times> conn" where
  "Refuse now r h =
    (case conn_WriteError r (hs_Conn h) of
       (e, c) \<Rightarrow> (e, DrainAndClose now (2 * Second) (guard_stop c)))"

section \<open>The session invariant\<close>

text \<open>Whatever the peer does: each live identifier names one stream that carries it, at most
  \<open>maxStreams\<close> streams are live and at most as many wait to be accepted, no stream buffers more
  than the window, the next identifier has this side's parity, and only live streams have an
  open pending.\<close>

definition own_parity :: "bool \<Rightarrow> u32 \<Rightarrow> bool" where
  "own_parity isClient i \<longleftrightarrow> (i mod 2 = 1) = isClient"

definition sess_inv :: "session \<Rightarrow> bool" where
  "sess_inv s \<longleftrightarrow>
     distinct (map fst (s_streams s)) \<and> distinct (map fst (s_pending s)) \<and>
     (\<forall>i a. map_of (s_streams s) i = Some a \<longrightarrow> a < length (s_objs s) \<and> st_id (s_objs s ! a) = i) \<and>
     (\<forall>i ch. map_of (s_pending s) i = Some ch \<longrightarrow> ch < length (s_chans s) \<and>
        own_parity (s_isClient s) i \<and> map_of (s_streams s) i \<noteq> None) \<and>
     length (s_streams s) \<le> unat (s_maxStreams s) \<and>
     length (s_acceptCh s) \<le> unat (s_maxStreams s) \<and>
     (\<forall>a \<in> set (s_acceptCh s). a < length (s_objs s) \<and>
        \<not> own_parity (s_isClient s) (st_id (s_objs s ! a))) \<and>
     (\<forall>st \<in> set (s_objs s). recv_inv (s_window s) st) \<and>
     own_parity (s_isClient s) (s_nextID s)"

lemma length_update_le: "length (AList.update k v xs) \<le> Suc (length xs)"
  by (induction xs) auto

lemma length_delete: "length (AList.delete k xs) \<le> length xs"
  by (simp add: AList.delete_eq)

lemma in_set_delete: "(j, v) \<in> set (AList.delete k xs) \<longleftrightarrow> (j, v) \<in> set xs \<and> j \<noteq> k"
  by (auto simp: AList.delete_eq)

lemma sess_inv_irrelevant [simp]:
  "sess_inv (s\<lparr>s_conn := c\<rparr>) = sess_inv s" "sess_inv (s\<lparr>s_done := d\<rparr>) = sess_inv s"
  "sess_inv (s\<lparr>s_err := e\<rparr>) = sess_inv s" "sess_inv (s\<lparr>s_lastRecv := t\<rparr>) = sess_inv s"
  "sess_inv (s\<lparr>s_ID := x\<rparr>) = sess_inv s" "sess_inv (s\<lparr>s_Peer := p\<rparr>) = sess_inv s"
  by (simp_all add: sess_inv_def)

lemma sess_inv_setErr [simp]: "sess_inv (setErr e s) = sess_inv s"
  by (simp add: setErr_def)

lemma sess_inv_retire: "sess_inv s \<Longrightarrow> sess_inv (retire i s)"
  using length_delete [of i "s_streams s"]
  by (auto simp: sess_inv_def retire_def delete_conv' distinct_delete)

lemma sess_inv_upd_stream:
  assumes "sess_inv s"
    and "a < length (s_objs s) \<Longrightarrow> recv_inv (s_window s) (f (s_objs s ! a))"
    and "st_id (f (s_objs s ! a)) = st_id (s_objs s ! a)"
  shows "sess_inv (upd_stream a f s)"
proof (cases "a < length (s_objs s)")
  case True
  have "recv_inv (s_window s) st" if "st \<in> set ((s_objs s)[a := f (s_objs s ! a)])" for st
    using set_update_subset_insert [of "s_objs s" a "f (s_objs s ! a)"] that assms True
    by (auto simp: sess_inv_def)
  with True assms show ?thesis
    by (auto simp: sess_inv_def upd_stream_def nth_list_update)
next
  case False
  then have "upd_stream a f s = s" by (simp add: upd_stream_def list_update_beyond)
  with assms(1) show ?thesis by simp
qed

lemma sess_inv_retireIfDone: "sess_inv s \<Longrightarrow> sess_inv (retireIfDone a s)"
  by (simp add: retireIfDone_def sess_inv_retire)

lemma length_try_send [simp]: "length (try_send r ch cs) = length cs"
  by (simp add: try_send_def)

lemma sess_inv_completeOpen: "sess_inv s \<Longrightarrow> sess_inv (completeOpen i r s)"
  by (auto simp: completeOpen_def sess_inv_def in_set_delete distinct_delete split: option.split)

lemma kill_keeps: "st_id (kill r st) = st_id st" "st_reset (kill r st)" "kill r (kill r st) = kill r st"
  by (simp_all add: kill_def)

definition kill_fold :: "reason \<Rightarrow> (u32 \<times> nat) list \<Rightarrow> stream list \<Rightarrow> stream list" where
  "kill_fold r = fold (\<lambda>(_, a) objs. objs[a := kill r (objs ! a)])"

lemma length_kill_fold [simp]: "length (kill_fold r xs objs) = length objs"
  by (induction xs arbitrary: objs) (auto simp: kill_fold_def)

lemma nth_kill_fold:
  "j < length objs \<Longrightarrow> kill_fold r xs objs ! j = (if j \<in> snd ` set xs then kill r (objs ! j) else objs ! j)"
proof (induction xs arbitrary: objs)
  case (Cons x xs)
  then show ?case
    by (cases x; cases "j = snd x") (auto simp: kill_fold_def kill_keeps(3))
qed (simp add: kill_fold_def)

lemma sess_inv_kill_all: "sess_inv s \<Longrightarrow> sess_inv (kill_all r s)"
proof -
  assume i: "sess_inv s"
  let ?o = "kill_fold r (s_streams s) (s_objs s)"
  have "recv_inv (s_window s) st" if st: "st \<in> set ?o" for st
  proof -
    from st obtain j where "j < length (s_objs s)" "st = ?o ! j"
      by (metis in_set_conv_nth length_kill_fold)
    with i show ?thesis by (auto simp: sess_inv_def nth_kill_fold)
  qed
  with i have "sess_inv (s\<lparr>s_streams := [], s_pending := [], s_objs := ?o, s_chans := cs\<rparr>)" for cs
    by (auto simp: sess_inv_def nth_kill_fold kill_keeps)
  then show ?thesis by (simp add: kill_all_def kill_fold_def)
qed

lemma sess_inv_Close: "sess_inv s \<Longrightarrow> sess_inv (session_Close r s)"
  by (simp add: session_Close_def Let_def sess_inv_kill_all)

lemma sess_inv_shutdown: "sess_inv s \<Longrightarrow> sess_inv (shutdown r s)"
  by (simp add: shutdown_def Let_def sess_inv_kill_all)

text \<open>A new stream, from either side.\<close>

definition add_stream :: "u32 \<Rightarrow> stream \<Rightarrow> session \<Rightarrow> session" where
  "add_stream i st s =
     s\<lparr>s_objs := s_objs s @ [st], s_streams := AList.update i (length (s_objs s)) (s_streams s)\<rparr>"

lemma below_limit: "\<not> (word_of_nat n :: u32) \<ge> m \<Longrightarrow> n \<le> unat m \<Longrightarrow> n < unat m"
  using unat_word_of_nat_le [of n m] by (simp add: not_le word_less_nat_alt)

lemma sess_inv_add_stream:
  assumes "sess_inv s" and "length (s_streams s) < unat (s_maxStreams s)"
    and "recv_inv (s_window s) st" and "st_id st = i"
  shows "sess_inv (add_stream i st s)"
proof -
  from assms(1) have st: "map_of (s_streams s) j = Some a \<Longrightarrow> a < length (s_objs s) \<and> st_id (s_objs s ! a) = j"
    and pe: "map_of (s_pending s) j = Some ch \<Longrightarrow> ch < length (s_chans s) \<and>
      own_parity (s_isClient s) j \<and> map_of (s_streams s) j \<noteq> None"
    and ac: "a \<in> set (s_acceptCh s) \<Longrightarrow> a < length (s_objs s) \<and>
      \<not> own_parity (s_isClient s) (st_id (s_objs s ! a))" for j a ch
    unfolding sess_inv_def by blast+
  let ?m = "(map_of (s_streams s))(i \<mapsto> length (s_objs s))"
  have "a < Suc (length (s_objs s)) \<and> st_id ((s_objs s @ [st]) ! a) = j" if "?m j = Some a" for j a
    using that st [of j a] assms(4) by (cases "j = i") (auto simp: nth_append)
  moreover have "ch < length (s_chans s) \<and> own_parity (s_isClient s) j \<and> ?m j \<noteq> None"
    if "map_of (s_pending s) j = Some ch" for j ch
    using pe [OF that] by auto
  moreover have "a < Suc (length (s_objs s)) \<and> \<not> own_parity (s_isClient s) (st_id ((s_objs s @ [st]) ! a))"
    if "a \<in> set (s_acceptCh s)" for a
    using ac [OF that] by (auto simp: nth_append)
  ultimately show ?thesis
    using assms(1-3) length_update_le [of i "length (s_objs s)" "s_streams s"]
    unfolding sess_inv_def add_stream_def
    by (simp add: update_conv' distinct_update del: map_of_eq_Some_iff fun_upd_apply)
qed

lemma sess_inv_writeFrame: "writeFrame t i p s = (e, s') \<Longrightarrow> sess_inv s' = sess_inv s"
  by (auto simp: writeFrame_def split: prod.splits)

lemma writeFrame_other:
  "writeFrame t i p s = (e, s') \<Longrightarrow> s' = s\<lparr>s_conn := snd (conn_WriteFrame t i p (s_conn s))\<rparr>"
  by (auto simp: writeFrame_def split: prod.splits)

lemma st_id_newStream [simp]: "st_id (newStream i W) = i"
  by (simp add: newStream_def)

lemma newStream_payload_ok:
  "recv_inv W (if length p > 0 then (newStream i W)\<lparr>st_openPayload := p\<rparr> else newStream i W)"
  "st_id (if length p > 0 then (newStream i W)\<lparr>st_openPayload := p\<rparr> else newStream i W) = i"
  by (auto simp: recv_inv_def newStream_def)

lemma sess_inv_handleOpen:
  assumes "sess_inv s" and "handleOpen i p s = (e, s')"
  shows "sess_inv s'"
proof -
  define st where "st = (if length p > 0 then (newStream i (s_window s))\<lparr>st_openPayload := p\<rparr>
    else newStream i (s_window s))"
  define s1 where "s1 = add_stream i st s"
  show ?thesis
  proof (cases "map_of (s_streams s) i \<noteq> None \<or> (i mod 2 = 1) = s_isClient s \<or>
      (word_of_nat (length (s_streams s)) :: u32) \<ge> s_maxStreams s")
    case True
    then have "s' = s \<or> (\<exists>c. s' = s\<lparr>s_conn := c\<rparr>)"
      using assms(2) unfolding handleOpen_def by (auto split: if_splits prod.splits)
    with assms(1) show ?thesis by auto
  next
    case False
    then have "length (s_streams s) < unat (s_maxStreams s)"
      using assms(1) below_limit by (auto simp: sess_inv_def)
    then have i1: "sess_inv s1"
      unfolding s1_def using assms(1) newStream_payload_ok by (simp add: sess_inv_add_stream st_def)
    have id: "st_id (s_objs s1 ! length (s_objs s)) = i" and l1: "length (s_objs s) < length (s_objs s1)"
      by (simp_all add: s1_def add_stream_def st_def newStream_def)
    obtain we s2 where w: "writeFrame TypeStreamOK i [] s1 = (we, s2)" by force
    with i1 have i2: "sess_inv s2" by (simp add: sess_inv_writeFrame)
    have s2: "s_acceptCh s2 = s_acceptCh s" "s_objs s2 = s_objs s1" "s_isClient s2 = s_isClient s"
      "s_maxStreams s2 = s_maxStreams s"
      using writeFrame_other [OF w] by (simp_all add: s1_def add_stream_def)
    have h: "handleOpen i p s = (case (we, s2) of
        (Some e, s) \<Rightarrow> (Some (Plain (ErrProto e)), s)
      | (None, s2) \<Rightarrow>
          if length (s_acceptCh s2) < unat (s_maxStreams s2)
          then (None, s2\<lparr>s_acceptCh := s_acceptCh s2 @ [length (s_objs s)]\<rparr>)
          else let s3 = retire i s2 in
            (case conn_WriteClose i ReasonLimitStreamsExceeded (s_conn s3) of
               (e, c) \<Rightarrow> (map_option (Plain \<circ> ErrProto) e, s3\<lparr>s_conn := c\<rparr>)))"
      using False w unfolding handleOpen_def s1_def add_stream_def st_def by (simp add: Let_def)
    show ?thesis
    proof (cases "we = None \<and> length (s_acceptCh s2) < unat (s_maxStreams s2)")
      case True
      with assms(2) h have s': "s' = s2\<lparr>s_acceptCh := s_acceptCh s2 @ [length (s_objs s)]\<rparr>" by simp
      have "\<not> own_parity (s_isClient s2) (st_id (s_objs s2 ! length (s_objs s)))"
        using False id s2 by (simp add: own_parity_def)
      with i2 True l1 s2 show ?thesis unfolding s' sess_inv_def by auto
    next
      case False
      with assms(2) h have "s' = s2 \<or> (\<exists>c. s' = (retire i s2)\<lparr>s_conn := c\<rparr>)"
        by (cases we) (auto simp: Let_def split: prod.splits)
      with i2 sess_inv_retire show ?thesis by auto
    qed
  qed
qed

lemma deliver_id: "deliver b st = Inr st' \<Longrightarrow> st_id st' = st_id st"
  by (auto simp: deliver_def split: if_splits)

lemma remoteClose_id: "st_id (remoteClose r st) = st_id st"
  by (simp add: remoteClose_def Let_def)

lemma recv_inv_obj: "sess_inv s \<Longrightarrow> a < length (s_objs s) \<Longrightarrow> recv_inv (s_window s) (s_objs s ! a)"
  by (simp add: sess_inv_def)

lemma sess_inv_data:
  assumes "sess_inv s" and "deliver b (s_objs s ! a) = Inr st" and "length b < 2 ^ 32"
  shows "sess_inv (upd_stream a (\<lambda>_. st) s)"
  using assms deliver_id recv_inv_deliver recv_inv_obj
  by (intro sess_inv_upd_stream) blast+

lemma sess_inv_close_frame:
  "sess_inv s \<Longrightarrow> sess_inv (retireIfDone a (upd_stream a (remoteClose r) s))"
  by (intro sess_inv_retireIfDone sess_inv_upd_stream) (simp_all add: remoteClose_id recv_inv_obj)

lemma sess_inv_credit_frame: "sess_inv s \<Longrightarrow> sess_inv (upd_stream a (grantCredit c) s)"
  by (intro sess_inv_upd_stream) (simp_all add: recv_inv_obj)

lemma snd_ifI:
  "(b \<Longrightarrow> sess_inv (snd x)) \<Longrightarrow> (\<not> b \<Longrightarrow> sess_inv (snd y)) \<Longrightarrow> sess_inv (snd (if b then x else y))"
  by simp

lemma sess_inv_dispatch:
  assumes "sess_inv s" and "length (fr_Payload f) < 2 ^ 32"
  shows "sess_inv (snd (dispatch f s))"
proof -
  have o: "sess_inv (snd (handleOpen i p s))" for i p
    using sess_inv_handleOpen [OF assms(1), of i p] by (cases "handleOpen i p s") simp
  have w: "sess_inv (snd (case writeFrame t i p s of (e, s) \<Rightarrow> (g e, s)))" for t i p and g :: "_ \<Rightarrow> dispatch_err option"
    using assms(1) sess_inv_writeFrame [of t i p s] by (cases "writeFrame t i p s") simp
  note c = sess_inv_completeOpen [OF assms(1)]
  show ?thesis
    unfolding dispatch_def Let_def
    by (intro snd_ifI)
      (use assms o w c in \<open>simp_all add: sess_inv_credit_frame sess_inv_close_frame sess_inv_data
        sess_inv_shutdown split: option.split sum.split\<close>)
qed

lemma conn_Read_payload: "conn_Read c = (Inr f, c') \<Longrightarrow> length (fr_Payload f) < 2 ^ 32"
  using ReadFrame_Inr(2) [of MaxFramePayload "c_in c" f]
  by (auto simp: conn_Read_def frame_ok_def MaxFramePayload_def split: prod.splits)

lemma sess_inv_read_turn: "sess_inv s \<Longrightarrow> sess_inv (snd (read_turn now s))"
proof -
  assume s: "sess_inv s"
  obtain r c where c: "conn_Read (s_conn s) = (r, c)" by force
  show ?thesis
  proof (cases r)
    case (Inl e)
    with s c show ?thesis by (simp add: read_turn_def Let_def sess_inv_shutdown)
  next
    case (Inr f)
    let ?s = "s\<lparr>s_conn := c, s_lastRecv := now\<rparr>"
    obtain e s' where d: "dispatch f ?s = (e, s')" by force
    have "sess_inv s'"
      using sess_inv_dispatch [of ?s f] conn_Read_payload c Inr s by (simp add: d)
    with Inr c d s show ?thesis
      by (simp add: read_turn_def Let_def sess_inv_shutdown split: option.split dispatch_err.split)
  qed
qed

lemma sess_inv_keepAlive: "sess_inv s \<Longrightarrow> sess_inv (snd (keepAlive_tick now idle s))"
  using sess_inv_writeFrame [of TypePing 0 "[]" s]
  by (cases "writeFrame TypePing 0 [] s")
    (auto simp: keepAlive_tick_def sess_inv_Close sess_inv_shutdown split: option.split)

lemma odd_add_2: "(i + 2) mod 2 = (i :: u32) mod 2"
proof -
  have "even (i + 2) = even i" by simp
  then show ?thesis by (simp add: mod_2_eq_odd)
qed

lemma own_parity_next: "own_parity c (i + 2) = own_parity c i"
  by (simp add: own_parity_def odd_add_2)

lemma sess_inv_add_pending:
  assumes "sess_inv s" and "own_parity (s_isClient s) i" and "map_of (s_streams s) i \<noteq> None"
  shows "sess_inv (s\<lparr>s_chans := s_chans s @ [None],
    s_pending := AList.update i (length (s_chans s)) (s_pending s)\<rparr>)"
proof -
  let ?p = "(map_of (s_pending s))(i \<mapsto> length (s_chans s))"
  have "ch < Suc (length (s_chans s)) \<and> own_parity (s_isClient s) j \<and> map_of (s_streams s) j \<noteq> None"
    if "?p j = Some ch" for j ch
  proof (cases "j = i")
    case False
    with that have "map_of (s_pending s) j = Some ch" by simp
    with assms(1) show ?thesis unfolding sess_inv_def by (meson less_SucI)
  qed (use that assms in auto)
  with assms(1) show ?thesis
    unfolding sess_inv_def
    by (simp add: update_conv' distinct_update del: map_of_eq_Some_iff fun_upd_apply)
qed

lemma sess_inv_next: "sess_inv s \<Longrightarrow> sess_inv (s\<lparr>s_nextID := s_nextID s + 2\<rparr>)"
  by (simp add: sess_inv_def own_parity_next del: map_of_eq_Some_iff)

lemma sess_inv_Open_send:
  assumes "sess_inv s"
  shows "sess_inv (snd (Open_send p s))"
proof (cases "isClosed s \<or> (word_of_nat (length (s_streams s)) :: u32) \<ge> s_maxStreams s")
  case True
  with assms show ?thesis by (auto simp: Open_send_def)
next
  case False
  let ?i = "s_nextID s"
  define s0 where "s0 = (add_stream ?i (newStream ?i (s_window s)) s)\<lparr>s_nextID := ?i + 2\<rparr>"
  define s1 where "s1 = s0\<lparr>s_chans := s_chans s0 @ [None],
     s_pending := AList.update ?i (length (s_chans s0)) (s_pending s0)\<rparr>"
  have "length (s_streams s) < unat (s_maxStreams s)"
    using False assms below_limit by (auto simp: sess_inv_def)
  then have "sess_inv (add_stream ?i (newStream ?i (s_window s)) s)"
    using assms by (intro sess_inv_add_stream) (auto simp: st_id_newStream)
  from sess_inv_next [OF this] have "sess_inv s0" by (simp add: s0_def add_stream_def)
  then have "sess_inv s1"
    unfolding s1_def using assms
    by (intro sess_inv_add_pending) (simp_all add: s0_def add_stream_def update_conv' sess_inv_def)
  moreover obtain e s2 where w: "writeFrame TypeOpenStream ?i p s1 = (e, s2)" by force
  ultimately have "sess_inv s2" by (simp add: sess_inv_writeFrame)
  moreover have "s1 = s\<lparr>s_nextID := ?i + 2, s_objs := s_objs s @ [newStream ?i (s_window s)],
      s_streams := AList.update ?i (length (s_objs s)) (s_streams s), s_chans := s_chans s @ [None],
      s_pending := AList.update ?i (length (s_chans s)) (s_pending s)\<rparr>"
    by (cases s) (simp add: s1_def s0_def add_stream_def)
  ultimately show ?thesis
    using False w by (cases e) (simp_all add: Open_send_def Let_def sess_inv_retire)
qed

lemma sess_inv_chans: "sess_inv s \<Longrightarrow> sess_inv (s\<lparr>s_chans := (s_chans s)[ch := v]\<rparr>)"
  by (simp add: sess_inv_def del: map_of_eq_Some_iff)

lemma sess_inv_Open_wait: "sess_inv s \<Longrightarrow> Open_wait b ctx w s = Some (r, s') \<Longrightarrow> sess_inv s'"
  by (cases b)
    (auto simp: Open_wait_def Let_def sess_inv_chans sess_inv_retire split: prod.splits option.splits if_splits)

lemma sess_inv_AcceptStream: "sess_inv s \<Longrightarrow> AcceptStream b ctx s = Some (r, s') \<Longrightarrow> sess_inv s'"
  by (cases b)
    (auto simp: AcceptStream_def sess_inv_def simp del: map_of_eq_Some_iff split: list.splits if_splits)

lemma sess_inv_sends:
  "sess_inv (snd (sendData i b s)) = sess_inv s" "sess_inv (snd (sendClose i r s)) = sess_inv s"
  "sess_inv (snd (sendWindowUpdate i c s)) = sess_inv s"
  by (auto simp: sendData_def sendClose_def sendWindowUpdate_def sess_inv_writeFrame split: prod.split)

lemma Read_locked_id: "Read_locked thr n st = (r, c, st') \<Longrightarrow> st_id st' = st_id st"
  by (auto simp: Read_locked_def Let_def split: if_splits)

lemma Write_locked_id: "Write_locked mx n st = (r, st') \<Longrightarrow> st_id st' = st_id st"
  by (auto simp: Write_locked_def Let_def split: if_splits)

lemma sess_inv_Read:
  assumes "sess_inv s"
  shows "sess_inv (snd (stream_Read a n s))"
proof -
  obtain r c st where r: "Read_locked (s_creditThreshold s) n (s_objs s ! a) = (r, c, st)"
    by (cases "Read_locked (s_creditThreshold s) n (s_objs s ! a)") auto
  have "sess_inv (upd_stream a (\<lambda>_. st) s)"
    using assms recv_inv_Read [OF _ r] Read_locked_id [OF r] recv_inv_obj
    by (intro sess_inv_upd_stream) auto
  with r show ?thesis by (simp add: stream_Read_def Let_def sess_inv_sends)
qed

lemma sess_inv_write_loop: "sess_inv s \<Longrightarrow> sess_inv (snd (write_loop fuel a p k s))"
proof (induction fuel arbitrary: p k s)
  case (Suc fuel)
  obtain r st where w: "Write_locked (s_maxFrame s) (length p) (s_objs s ! a) = (r, st)" by force
  have "sess_inv (upd_stream a (\<lambda>_. st) s)"
    using Suc.prems recv_inv_Write [OF _ w] Write_locked_id [OF w] recv_inv_obj
    by (intro sess_inv_upd_stream) auto
  then have "sess_inv s2" if "sendData (st_id st) (take n p) (upd_stream a (\<lambda>_. st) s) = (e, s2)" for n e s2
    using sess_inv_sends(1) [of "st_id st" "take n p" "upd_stream a (\<lambda>_. st) s"] that by simp
  with Suc w show ?case
    by (auto split: write_res.split option.split prod.split)
qed simp

lemma sess_inv_closeWith:
  assumes "sess_inv s"
  shows "sess_inv (snd (closeWith a r s))"
proof -
  obtain b st where c: "closeWith_locked (s_objs s ! a) = (b, st)" by force
  have "sess_inv (upd_stream a (\<lambda>_. st) s)"
    using assms c recv_inv_others(4) [of "s_window s" "s_objs s ! a"] recv_inv_obj
    by (intro sess_inv_upd_stream) (auto simp: closeWith_locked_def split: if_splits)
  with assms c show ?thesis
    using sess_inv_sends(2) [of "st_id st" r "upd_stream a (\<lambda>_. st) s"]
    by (cases b) (auto simp: closeWith_def sess_inv_retireIfDone split: prod.split)
qed

lemma sess_inv_Reset:
  assumes "sess_inv s"
  shows "sess_inv (snd (stream_Reset a r s))"
proof -
  obtain b st where c: "Reset_locked r (s_objs s ! a) = (b, st)" by force
  have "sess_inv (upd_stream a (\<lambda>_. st) s)"
    using assms c recv_inv_others(5) [of "s_window s" "s_objs s ! a" r] recv_inv_obj
    by (intro sess_inv_upd_stream) (auto simp: Reset_locked_def split: if_splits)
  with assms c show ?thesis
    using sess_inv_sends(2) [of "st_id st" r "upd_stream a (\<lambda>_. st) s"]
    by (cases b) (auto simp: stream_Reset_def sess_inv_retire split: prod.split)
qed

lemma sess_inv_newSession: "sess_inv (newSession now c cl ack)"
  by (simp add: sess_inv_def newSession_def own_parity_def)

section \<open>The negotiated limits never change\<close>

definition limits :: "session \<Rightarrow> u32 \<times> u32 \<times> u32 \<times> u32 \<times> bool" where
  "limits s = (s_maxFrame s, s_window s, s_maxStreams s, s_creditThreshold s, s_isClient s)"

lemma limits_upd [simp]:
  "limits (s\<lparr>s_conn := c\<rparr>) = limits s" "limits (s\<lparr>s_done := d\<rparr>) = limits s"
  "limits (s\<lparr>s_err := e\<rparr>) = limits s" "limits (s\<lparr>s_lastRecv := t\<rparr>) = limits s"
  "limits (s\<lparr>s_objs := os\<rparr>) = limits s" "limits (s\<lparr>s_streams := ss\<rparr>) = limits s"
  "limits (s\<lparr>s_nextID := i\<rparr>) = limits s" "limits (s\<lparr>s_chans := cs\<rparr>) = limits s"
  "limits (s\<lparr>s_pending := ps\<rparr>) = limits s" "limits (s\<lparr>s_acceptCh := q\<rparr>) = limits s"
  "limits (s\<lparr>s_ID := x\<rparr>) = limits s" "limits (s\<lparr>s_Peer := p\<rparr>) = limits s"
  by (simp_all add: limits_def)

lemma limits_helpers [simp]:
  "limits (setErr e s) = limits s" "limits (retire i s) = limits s"
  "limits (upd_stream a f s) = limits s" "limits (retireIfDone a s) = limits s"
  "limits (completeOpen i r s) = limits s" "limits (kill_all r s) = limits s"
  "limits (session_Close r s) = limits s" "limits (shutdown r s) = limits s"
  "limits (snd (writeFrame t i p s)) = limits s"
  by (simp_all add: setErr_def retire_def upd_stream_def retireIfDone_def completeOpen_def
      kill_all_def session_Close_def shutdown_def writeFrame_def Let_def split: option.split prod.split)

lemma limits_writeFrame: "writeFrame t i p s = (e, s') \<Longrightarrow> limits s' = limits s"
  using limits_helpers(9) [of t i p s] by simp

lemma limits_handleOpen: "limits (snd (handleOpen i p s)) = limits s"
  by (auto simp: handleOpen_def Let_def dest!: limits_writeFrame split: prod.split option.split)

lemma limits_ifI:
  "(b \<Longrightarrow> limits (snd x) = l) \<Longrightarrow> (\<not> b \<Longrightarrow> limits (snd y) = l) \<Longrightarrow> limits (snd (if b then x else y)) = l"
  by simp

lemma limits_dispatch: "limits (snd (dispatch f s)) = limits s"
  unfolding dispatch_def Let_def
  by (intro limits_ifI)
    (simp_all add: limits_handleOpen limits_writeFrame split: option.split sum.split prod.split)

lemma limits_read_turn: "limits (snd (read_turn now s)) = limits s"
proof -
  obtain r c where c: "conn_Read (s_conn s) = (r, c)" by force
  show ?thesis
  proof (cases r)
    case (Inr f)
    obtain e s' where d: "dispatch f (s\<lparr>s_conn := c, s_lastRecv := now\<rparr>) = (e, s')" by force
    then have "limits s' = limits s"
      using limits_dispatch [of f "s\<lparr>s_conn := c, s_lastRecv := now\<rparr>"] by simp
    with c d Inr show ?thesis
      by (simp add: read_turn_def Let_def split: option.split dispatch_err.split)
  qed (simp add: c read_turn_def Let_def)
qed

lemma limits_keepAlive: "limits (snd (keepAlive_tick now idle s)) = limits s"
  by (auto simp: keepAlive_tick_def dest!: limits_writeFrame split: prod.split option.split)

lemma limits_Open: "limits (snd (Open_send p s)) = limits s"
  by (auto simp: Open_send_def Let_def dest!: limits_writeFrame split: prod.split option.split)

lemma limits_waits:
  "Open_wait b ctx w s = Some (r, s') \<Longrightarrow> limits s' = limits s"
  "AcceptStream b ctx s = Some (r, s') \<Longrightarrow> limits s' = limits s"
  by (cases b; auto simp: Open_wait_def AcceptStream_def Let_def
      split: prod.splits option.splits if_splits list.splits)+

lemma limits_sends [simp]:
  "limits (snd (sendData i b s)) = limits s" "limits (snd (sendClose i r s)) = limits s"
  "limits (snd (sendWindowUpdate i c s)) = limits s"
  by (auto simp: sendData_def sendClose_def sendWindowUpdate_def limits_writeFrame split: prod.split)

lemma limits_streams:
  "limits (snd (stream_Read a n s)) = limits s" "limits (snd (closeWith a r s)) = limits s"
  "limits (snd (stream_Reset a r s)) = limits s"
  using limits_sends
  by (auto simp: stream_Read_def closeWith_def stream_Reset_def Let_def split: prod.split bool.split)
    (metis limits_helpers(2,3,4) limits_sends(2) snd_conv)+

lemma limits_write_loop: "limits (snd (write_loop fuel a p k s)) = limits s"
proof (induction fuel arbitrary: p k s)
  case (Suc fuel)
  have "limits s2 = limits s" if "sendData i b (upd_stream a f s) = (e, s2)" for i b f e s2
    using limits_sends(1) [of i b "upd_stream a f s"] that by simp
  with Suc show ?case
    by (auto split: write_res.split option.split prod.split)
qed simp

section \<open>Runs of a session\<close>

text \<open>Anything the owner of a session, its loops and an arbitrary peer may do, in any order. The
  peer's part is \<open>arrive\<close>: any bytes at all, and any way for the connection to end.\<close>

definition arrive :: "byte list \<Rightarrow> io_err \<Rightarrow> session \<Rightarrow> session" where
  "arrive b e s = s\<lparr>s_conn := (s_conn s)\<lparr>c_in := \<lparr>in_bytes = in_bytes (c_in (s_conn s)) @ b, in_end = e\<rparr>\<rparr>\<rparr>"

inductive sess_step :: "session \<Rightarrow> session \<Rightarrow> bool" where
  ss_arrive: "sess_step s (arrive b e s)"
| ss_receive: "sess_step s (snd (read_turn now s))"
| ss_tick: "sess_step s (snd (keepAlive_tick now idle s))"
| ss_open: "sess_step s (snd (Open_send p s))"
| ss_opened: "Open_wait b ctx w s = Some (r, s') \<Longrightarrow> sess_step s s'"
| ss_accept: "AcceptStream b ctx s = Some (r, s') \<Longrightarrow> sess_step s s'"
| ss_read: "sess_step s (snd (stream_Read a n s))"
| ss_write: "sess_step s (snd (stream_Write a p s))"
| ss_closeWrite: "sess_step s (snd (closeWith a r s))"
| ss_reset: "sess_step s (snd (stream_Reset a r s))"
| ss_end: "sess_step s (session_Close r s)"

lemma sess_step_inv: "sess_step s s' \<Longrightarrow> sess_inv s \<Longrightarrow> sess_inv s' \<and> limits s' = limits s"
proof (induction rule: sess_step.induct)
  case (ss_opened b ctx w s r s')
  then show ?case using sess_inv_Open_wait limits_waits(1) by blast
next
  case (ss_accept b ctx s r s')
  then show ?case using sess_inv_AcceptStream limits_waits(2) by blast
qed (simp_all add: arrive_def sess_inv_read_turn limits_read_turn sess_inv_keepAlive limits_keepAlive
      sess_inv_Open_send limits_Open sess_inv_Read limits_streams stream_Write_def
      sess_inv_write_loop limits_write_loop sess_inv_closeWith sess_inv_Reset sess_inv_Close
      del: write_loop.simps)

lemma sess_reach_inv:
  "sess_step\<^sup>*\<^sup>* s s' \<Longrightarrow> sess_inv s \<Longrightarrow> sess_inv s' \<and> limits s' = limits s"
  by (induction rule: rtranclp_induct) (auto dest: sess_step_inv)

section \<open>The read loop ends\<close>

definition inb :: "session \<Rightarrow> byte list" where
  "inb s = in_bytes (c_in (s_conn s))"

lemma inb_upd [simp]:
  "inb (s\<lparr>s_done := d\<rparr>) = inb s" "inb (s\<lparr>s_err := e\<rparr>) = inb s" "inb (s\<lparr>s_lastRecv := t\<rparr>) = inb s"
  "inb (s\<lparr>s_objs := os\<rparr>) = inb s" "inb (s\<lparr>s_streams := ss\<rparr>) = inb s"
  "inb (s\<lparr>s_chans := cs\<rparr>) = inb s" "inb (s\<lparr>s_pending := ps\<rparr>) = inb s"
  "inb (s\<lparr>s_acceptCh := q\<rparr>) = inb s" "inb (s\<lparr>s_conn := c\<rparr>) = in_bytes (c_in c)"
  by (simp_all add: inb_def)

lemma in_bytes_Close [simp]: "in_bytes (c_in (conn_Close c)) = in_bytes (c_in c)"
  by (simp add: conn_Close_def)

lemma inb_helpers [simp]:
  "inb (setErr e s) = inb s" "inb (retire i s) = inb s" "inb (upd_stream a f s) = inb s"
  "inb (retireIfDone a s) = inb s" "inb (completeOpen i r s) = inb s" "inb (kill_all r s) = inb s"
  "inb (shutdown r s) = inb s"
  by (simp_all add: setErr_def retire_def upd_stream_def retireIfDone_def completeOpen_def
      kill_all_def shutdown_def Let_def inb_def split: option.split)

lemma inb_writeFrame: "writeFrame t i p s = (e, s') \<Longrightarrow> inb s' = inb s"
  by (auto simp: writeFrame_def inb_def dest!: conn_WriteFrame_other split: prod.splits)

lemma conn_WriteClose_other: "conn_WriteClose i r c = (e, c') \<Longrightarrow> c_in c' = c_in c"
  by (simp add: conn_WriteClose_eq conn_WriteFrame_other)

lemma inb_handleOpen: "inb (snd (handleOpen i p s)) = inb s"
  unfolding handleOpen_def Let_def
  by (auto dest!: inb_writeFrame conn_WriteClose_other simp: inb_def retire_def split: prod.split option.split)

lemma inb_ifI:
  "(b \<Longrightarrow> inb (snd x) = l) \<Longrightarrow> (\<not> b \<Longrightarrow> inb (snd y) = l) \<Longrightarrow> inb (snd (if b then x else y)) = l"
  by simp

lemma inb_dispatch: "inb (snd (dispatch f s)) = inb s"
  unfolding dispatch_def Let_def
  by (intro inb_ifI)
    (simp_all add: inb_handleOpen inb_writeFrame split: option.split sum.split prod.split)

lemma read_turn_Inr:
  assumes "conn_Read (s_conn s) = (Inr f, c)"
  shows "read_turn now s =
    (if (word_of_nat (length (fr_Payload f)) :: u32) > s_maxFrame s then
       (False, shutdown ReasonLimitFrameTooLarge
          (setErr (ErrProto ErrFrameTooLarge) (s\<lparr>s_conn := c, s_lastRecv := now\<rparr>)))
     else case dispatch f (s\<lparr>s_conn := c, s_lastRecv := now\<rparr>) of
         (None, s) \<Rightarrow> (True, s)
       | (Some (Plain e), s) \<Rightarrow> (False, shutdown ReasonProtocolMalformedFrame (setErr e s))
       | (Some (Fatal e r), s) \<Rightarrow> (False, shutdown r (setErr e s)))"
  using assms by (simp add: read_turn_def Let_def)

lemma read_turn_progress:
  assumes "read_turn now s = (True, s')"
  shows "length (inb s') < length (inb s)"
proof -
  obtain r c where c: "conn_Read (s_conn s) = (r, c)" by force
  with assms obtain f where r: "r = Inr f"
    by (cases r) (auto simp: read_turn_def Let_def)
  let ?s = "s\<lparr>s_conn := c, s_lastRecv := now\<rparr>"
  obtain e s1 where d: "dispatch f ?s = (e, s1)" by force
  have "s' = snd (dispatch f ?s)"
    using assms unfolding read_turn_Inr [OF c [unfolded r]] d
    by (cases "s_maxFrame s < word_of_nat (length (fr_Payload f))"; cases e)
      (auto split: dispatch_err.splits)
  then have "inb s' = in_bytes (c_in c)" using inb_dispatch [of f ?s] by simp
  moreover have "inb s = frame_bytes f @ in_bytes (c_in c)"
    using ReadFrame_Inr(1) [of MaxFramePayload "c_in (s_conn s)" f] c r
    by (auto simp: conn_Read_def inb_def split: prod.splits)
  ultimately show ?thesis by (simp add: HeaderSize_def)
qed

lemma shutdown_done [simp]: "s_done (shutdown r s)"
  by (simp add: shutdown_def Let_def)

lemma read_turn_stop:
  assumes "read_turn now s = (False, s')"
  shows "s_done s'"
proof -
  obtain r c where c: "conn_Read (s_conn s) = (r, c)" by force
  show ?thesis
  proof (cases r)
    case (Inl e)
    with c have "s_done (snd (read_turn now s))" by (simp add: read_turn_def Let_def)
    with assms show ?thesis by simp
  next
    case (Inr f)
    obtain e s1 where d: "dispatch f (s\<lparr>s_conn := c, s_lastRecv := now\<rparr>) = (e, s1)" by force
    from assms show ?thesis
      unfolding read_turn_Inr [OF c [unfolded Inr]] d
      by (cases "s_maxFrame s < word_of_nat (length (fr_Payload f))"; cases e)
        (auto split: dispatch_err.splits)
  qed
qed

lemma readLoop_ends:
  "sess_inv s \<Longrightarrow> length (inb s) < fuel \<Longrightarrow> \<exists>s'. readLoop fuel now s = Some s' \<and> s_done s' \<and> sess_inv s'"
proof (induction fuel arbitrary: s)
  case (Suc fuel)
  obtain b s1 where t: "read_turn now s = (b, s1)" by force
  have i: "sess_inv s1" using sess_inv_read_turn [OF Suc.prems(1), of now] by (simp add: t)
  show ?case
  proof (cases b)
    case True
    with t Suc.prems(2) read_turn_progress [of now s s1] have "length (inb s1) < fuel" by simp
    with Suc.IH [OF i] t True show ?thesis by simp
  next
    case False
    with t i read_turn_stop show ?thesis by auto
  qed
qed simp

section \<open>What the end of a session leaves\<close>

lemma try_send_fold:
  "ch < length cs \<Longrightarrow> cs ! ch \<noteq> None \<or> ch \<in> snd ` set ps \<Longrightarrow>
     fold (\<lambda>(_, ch). try_send r ch) ps cs ! ch \<noteq> None"
proof (induction ps arbitrary: cs)
  case (Cons p ps)
  obtain i d where p: "p = (i, d)" by force
  have "try_send r d cs ! ch \<noteq> None \<or> ch \<in> snd ` set ps"
    using Cons.prems by (auto simp: p try_send_def nth_list_update)
  with Cons.IH [of "try_send r d cs"] Cons.prems(1) show ?case by (simp add: p)
qed simp

lemma map_of_snd: "map_of xs k = Some v \<Longrightarrow> v \<in> snd ` set xs"
  by (force dest: map_of_SomeD)

lemma kill_all_released:
  assumes "sess_inv s"
  shows "map_of (s_streams s) i = Some a \<Longrightarrow> st_reset (s_objs (kill_all r s) ! a)"
    and "map_of (s_pending s) i = Some ch \<Longrightarrow> s_chans (kill_all r s) ! ch \<noteq> None"
proof -
  assume a: "map_of (s_streams s) i = Some a"
  with assms have "a < length (s_objs s)" unfolding sess_inv_def by blast
  with a map_of_snd [OF a] show "st_reset (s_objs (kill_all r s) ! a)"
    by (simp add: kill_all_def flip: kill_fold_def) (simp add: nth_kill_fold kill_keeps)
next
  assume c: "map_of (s_pending s) i = Some ch"
  with assms have "ch < length (s_chans s)" unfolding sess_inv_def by blast
  then have "fold (\<lambda>(_, ch). try_send r ch) (s_pending s) (s_chans s) ! ch \<noteq> None"
    using map_of_snd [OF c] by (intro try_send_fold) simp_all
  then show "s_chans (kill_all r s) ! ch \<noteq> None" by (simp add: kill_all_def)
qed

lemma reset_not_blocked:
  "st_reset st \<Longrightarrow> fst (Read_locked thr n st) \<noteq> RBlock \<and> fst (Write_locked mx n st) \<noteq> WBlock"
  by (auto simp: Read_locked_def Write_locked_def Let_def)

lemma sess_inv_setErr_fields [simp]:
  "s_streams (setErr e s) = s_streams s" "s_pending (setErr e s) = s_pending s"
  "s_objs (setErr e s) = s_objs s" "s_chans (setErr e s) = s_chans s" "s_done (setErr e s) = s_done s"
  by (simp_all add: setErr_def)

section \<open>Properties\<close>

text \<open>C12: Whatever bytes the peer sends and however its frames interleave with the calls of the
  session's owner: the number of live streams and of streams waiting to be accepted stays within
  the negotiated limit, no stream ever buffers more than the negotiated window, streams waiting
  to be accepted were numbered by the peer from its own half of the identifier space, and the
  next identifier this side will use is from its own half.\<close>
theorem session_bounds:
  assumes "sess_step\<^sup>*\<^sup>* (newSession now c isClient ack) s"
  shows "StreamCount s \<le> unat (k_MaxStreams ack) \<and>
    length (s_acceptCh s) \<le> unat (k_MaxStreams ack) \<and>
    (\<forall>st \<in> set (s_objs s). length (st_buf st) \<le> unat (k_InitialWindow ack)) \<and>
    (\<forall>a \<in> set (s_acceptCh s). (st_id (s_objs s ! a) mod 2 = 1) = (\<not> isClient)) \<and>
    (s_nextID s mod 2 = 1) = isClient"
proof -
  from sess_reach_inv [OF assms sess_inv_newSession]
  have i: "sess_inv s" and l: "limits s = limits (newSession now c isClient ack)" by auto
  from l have "s_window s = k_InitialWindow ack" "s_maxStreams s = k_MaxStreams ack"
    "s_isClient s = isClient"
    by (simp_all add: limits_def newSession_def)
  with i show ?thesis
    by (auto simp: sess_inv_def StreamCount_def own_parity_def recv_inv_def)
qed

text \<open>C27: The read loop ends on every input: whatever finite sequence of bytes the peer sends
  before its connection ends, the loop returns, and the session is then closed.\<close>
theorem readLoop_terminates:
  assumes "sess_inv s" and "length (in_bytes (c_in (s_conn s))) < fuel"
  shows "\<exists>s'. readLoop fuel now s = Some s' \<and> s_done s' \<and> sess_inv s'"
  using readLoop_ends [OF assms(1)] assms(2) by (simp add: inb_def)

text \<open>C28: Ending a session, by \<open>Close\<close> or by \<open>shutdown\<close>, releases everyone who waits on it: it
  is done, no stream and no pending open is left, no read or write on a stream that was live
  can wait any longer, and every open that was waiting for an answer has one.\<close>
theorem session_end_releases:
  assumes "sess_inv s" and "\<not> s_done s" and "s' = session_Close r s \<or> s' = shutdown r s"
  shows "s_done s' \<and> StreamCount s' = 0 \<and> s_pending s' = [] \<and>
    (\<forall>i a. map_of (s_streams s) i = Some a \<longrightarrow>
       fst (Read_locked thr n (s_objs s' ! a)) \<noteq> RBlock \<and>
       fst (Write_locked mx n (s_objs s' ! a)) \<noteq> WBlock) \<and>
    (\<forall>i ch. map_of (s_pending s) i = Some ch \<longrightarrow> s_chans s' ! ch \<noteq> None)"
proof -
  obtain s1 where s1: "sess_inv s1" "s_streams s1 = s_streams s" "s_pending s1 = s_pending s"
    and e: "s_done s'" "s_streams s' = []" "s_pending s' = []" "s_objs s' = s_objs (kill_all r s1)"
      "s_chans s' = s_chans (kill_all r s1)"
  proof (cases "s' = shutdown r s")
    case True
    with assms(1,2) that [of s] show ?thesis by (auto simp: shutdown_def Let_def kill_all_def)
  next
    case False
    let ?s = "setErr (ErrSessionClosed (Some r)) s"
    from False assms that [of "?s\<lparr>s_conn := snd (conn_WriteError r (s_conn ?s))\<rparr>"] show ?thesis
      by (auto simp: session_Close_def Let_def kill_all_def)
  qed
  from kill_all_released [OF s1(1)] s1 e show ?thesis
    by (simp add: StreamCount_def reset_not_blocked)
qed

text \<open>A session with one open pending, for the witnesses.\<close>

definition demo_ack :: hello_ack where
  "demo_ack = \<lparr>k_Version = 1, k_MaxFramePayload = 64, k_InitialWindow = 8, k_MaxStreams = 2\<rparr>"

definition demo_conn :: conn where
  "demo_conn = NewConn \<lparr>in_bytes = [], in_end = EOF\<rparr> \<lparr>out_bytes = [], out_calls = None, out_err = EOF\<rparr>"

definition demo_session :: session where
  "demo_session = snd (Open_send [] (newSession 0 demo_conn True demo_ack))"

lemma demo_session_reach: "sess_step\<^sup>*\<^sup>* (newSession 0 demo_conn True demo_ack) demo_session"
  unfolding demo_session_def by (intro r_into_rtranclp ss_open)

lemma demo_session_inv: "sess_inv demo_session"
  using sess_reach_inv [OF demo_session_reach sess_inv_newSession] by blast

lemma demo_session_fields:
  "s_streams demo_session = [(1, 0)]" "s_pending demo_session = [(1, 0)]" "\<not> s_done demo_session"
  "in_bytes (c_in (s_conn demo_session)) = []"
  by (simp_all add: demo_session_def Open_send_def newSession_def demo_ack_def demo_conn_def NewConn_def
      isClosed_def writeFrame_def conn_WriteFrame_def WriteFrame_def conn_Write_def Let_def)

theorem session_bounds_witness: "StreamCount demo_session \<le> 2 \<and> s_nextID demo_session mod 2 = 1"
  using session_bounds [OF demo_session_reach] by (simp add: demo_ack_def)

theorem readLoop_terminates_witness:
  "\<exists>s'. readLoop 1 5 demo_session = Some s' \<and> s_done s' \<and> sess_inv s'"
  by (rule readLoop_terminates [OF demo_session_inv]) (simp add: demo_session_fields)

theorem session_end_releases_witness:
  "s_done (shutdown ReasonShutdown demo_session) \<and> StreamCount (shutdown ReasonShutdown demo_session) = 0 \<and>
   fst (Read_locked 4 1 (s_objs (shutdown ReasonShutdown demo_session) ! 0)) \<noteq> RBlock \<and>
   s_chans (shutdown ReasonShutdown demo_session) ! 0 \<noteq> None"
  using session_end_releases [OF demo_session_inv demo_session_fields(3) disjI2 [OF refl], of ReasonShutdown 4 1 64]
  by (simp add: demo_session_fields)

lemma disjE3: "A \<or> B \<or> C \<Longrightarrow> (A \<Longrightarrow> P) \<Longrightarrow> (B \<Longrightarrow> P) \<Longrightarrow> (C \<Longrightarrow> P) \<Longrightarrow> P"
  by blast

text \<open>C29: A peer that breaks the protocol loses the session: a handshake frame after the
  handshake, data beyond the window that is left for a live stream, an attempt to reopen a live
  stream and an attempt to open a stream numbered from this side's half each close the session
  at once. Data beyond the window is reported as a flow-control violation, the others as a
  malformed frame, to every stream that was live.\<close>
theorem protocol_violation_fatal:
  assumes "sess_inv s" and "\<not> s_done s" and "conn_Read (s_conn s) = (Inr f, c)"
    and "length (fr_Payload f) \<le> unat (s_maxFrame s)"
    and "fr_Type f \<in> {TypeHello, TypeHelloAck, TypeAuth, TypeAuthOK} \<and> reason = ReasonProtocolMalformedFrame
      \<or> fr_Type f = TypeStreamData \<and> map_of (s_streams s) (fr_StreamID f) = Some a \<and>
          \<not> st_reset (s_objs s ! a) \<and> \<not> st_remoteClosed (s_objs s ! a) \<and>
          unat (st_recvWindow (s_objs s ! a)) < length (fr_Payload f) \<and>
          reason = ReasonFlowControlViolation
      \<or> fr_Type f = TypeOpenStream \<and>
          (map_of (s_streams s) (fr_StreamID f) \<noteq> None \<or> (fr_StreamID f mod 2 = 1) = s_isClient s) \<and>
          reason = ReasonProtocolMalformedFrame"
  shows "\<exists>s'. read_turn now s = (False, s') \<and> s_done s' \<and>
    (\<forall>i b. map_of (s_streams s) i = Some b \<longrightarrow>
       st_reset (s_objs s' ! b) \<and>
       (st_reset (s_objs s ! b) \<or> st_resetReason (s_objs s' ! b) = reason))"
proof -
  let ?s = "s\<lparr>s_conn := c, s_lastRecv := now\<rparr>"
  have un: "unat (word_of_nat (length (fr_Payload f)) :: u32) = length (fr_Payload f)"
    using assms(4) by (rule unat_word_of_nat_le)
  then have le: "\<not> (word_of_nat (length (fr_Payload f)) :: u32) > s_maxFrame s"
    using assms(4) by (simp add: word_less_nat_alt)
  have "\<exists>e. read_turn now s = (False, shutdown reason (setErr e ?s))"
    using assms(5)
  proof (rule disjE3)
    assume h: "fr_Type f \<in> {TypeHello, TypeHelloAck, TypeAuth, TypeAuthOK} \<and> reason = ReasonProtocolMalformedFrame"
    then have "dispatch f ?s = (Some (Plain (ErrProto ErrMalformedFrame)), ?s)"
      by (auto simp: dispatch_def type_defs)
    with le h show ?thesis by (auto simp: read_turn_Inr [OF assms(3)])
  next
    assume a: "fr_Type f = TypeStreamData \<and> map_of (s_streams s) (fr_StreamID f) = Some a \<and>
      \<not> st_reset (s_objs s ! a) \<and> \<not> st_remoteClosed (s_objs s ! a) \<and>
      unat (st_recvWindow (s_objs s ! a)) < length (fr_Payload f) \<and> reason = ReasonFlowControlViolation"
    then have "deliver (fr_Payload f) (s_objs s ! a) = Inl ErrFlowControl"
      by (simp add: deliver_def word_less_nat_alt un)
    with a have "dispatch f ?s = (Some (Fatal ErrFlowControl ReasonFlowControlViolation), ?s)"
      by (simp add: dispatch_def type_defs stream_lookup_def)
    with le a show ?thesis by (auto simp: read_turn_Inr [OF assms(3)])
  next
    assume a: "fr_Type f = TypeOpenStream \<and>
      (map_of (s_streams s) (fr_StreamID f) \<noteq> None \<or> (fr_StreamID f mod 2 = 1) = s_isClient s) \<and>
      reason = ReasonProtocolMalformedFrame"
    then have "dispatch f ?s = (Some (Plain (ErrProto ErrMalformedFrame)), ?s)"
      by (auto simp: dispatch_def handleOpen_def)
    with le a show ?thesis by (auto simp: read_turn_Inr [OF assms(3)])
  qed
  then obtain e where t: "read_turn now s = (False, shutdown reason (setErr e ?s))" by blast
  have "s_objs (shutdown reason (setErr e ?s)) ! b = kill reason (s_objs s ! b)"
    if b: "map_of (s_streams s) i = Some b" for i b
  proof -
    have "b < length (s_objs s)" using b assms(1) unfolding sess_inv_def by blast
    with map_of_snd [OF b] assms(2) show ?thesis
      by (simp add: shutdown_def Let_def kill_all_def nth_kill_fold flip: kill_fold_def)
  qed
  with t show ?thesis by (auto simp: kill_def)
qed

definition demo_hello_frame :: frame where
  "demo_hello_frame = \<lparr>fr_Type = TypeHello, fr_StreamID = 0, fr_Payload = [1, 1, 1, 0]\<rparr>"

lemma MaxFramePayload_unat [simp]: "unat MaxFramePayload = 65536"
  by (simp add: MaxFramePayload_def)

theorem protocol_violation_fatal_witness:
  "\<exists>s'. read_turn 5 (arrive (frame_bytes demo_hello_frame) EOF demo_session) = (False, s') \<and> s_done s' \<and>
     st_resetReason (s_objs s' ! 0) = ReasonProtocolMalformedFrame"
proof -
  let ?s = "arrive (frame_bytes demo_hello_frame) EOF demo_session"
  have inv: "sess_inv ?s" by (simp add: arrive_def demo_session_inv)
  have d: "\<not> s_done ?s" by (simp add: arrive_def demo_session_fields)
  have "frame_ok MaxFramePayload demo_hello_frame"
    by (simp add: frame_ok_def demo_hello_frame_def type_known_def)
  from ReadFrame_frame_bytes [OF this, of "[]" EOF]
  have r: "conn_Read (s_conn ?s) = (Inr demo_hello_frame, (s_conn ?s)\<lparr>c_in := \<lparr>in_bytes = [], in_end = EOF\<rparr>\<rparr>)"
    by (simp add: conn_Read_def arrive_def demo_session_fields)
  have f: "s_maxFrame ?s = 64" "s_streams ?s = [(1, 0)]" "\<not> st_reset (s_objs ?s ! 0)"
    by (simp_all add: arrive_def demo_session_fields)
      (simp_all add: demo_session_def Open_send_def newSession_def demo_ack_def demo_conn_def NewConn_def
        isClosed_def writeFrame_def conn_WriteFrame_def WriteFrame_def conn_Write_def Let_def newStream_def)
  have "length (fr_Payload demo_hello_frame) \<le> unat (s_maxFrame ?s)"
    unfolding f(1) by (simp add: demo_hello_frame_def)
  from protocol_violation_fatal [OF inv d r this, of ReasonProtocolMalformedFrame 0 5]
  obtain s' where "read_turn 5 ?s = (False, s')" "s_done s'" and
    k: "\<forall>i b. map_of (s_streams ?s) i = Some b \<longrightarrow> st_reset (s_objs s' ! b) \<and>
      (st_reset (s_objs ?s ! b) \<or> st_resetReason (s_objs s' ! b) = ReasonProtocolMalformedFrame)"
    by (auto simp: demo_hello_frame_def)
  moreover from k [rule_format, of 1 0] f have "st_resetReason (s_objs s' ! 0) = ReasonProtocolMalformedFrame"
    by simp
  ultimately show ?thesis by blast
qed

text \<open>The four frames of a handshake that succeeds.\<close>

definition hello_of :: "config \<Rightarrow> hello" where
  "hello_of cd = \<lparr>h_MinVersion = Version, h_MaxVersion = Version, h_Role = cf_Role cd\<rparr>"

definition ack_of :: "config \<Rightarrow> hello_ack" where
  "ack_of ca = \<lparr>k_Version = Version, k_MaxFramePayload = cf_MaxFramePayload (withDefaults ca),
     k_InitialWindow = cf_InitialWindow (withDefaults ca), k_MaxStreams = cf_MaxStreams (withDefaults ca)\<rparr>"

definition ctl :: "u8 \<Rightarrow> byte list \<Rightarrow> frame" where
  "ctl t p = \<lparr>fr_Type = t, fr_StreamID = 0, fr_Payload = p\<rparr>"

definition open_sink :: "byte list \<Rightarrow> sink" where
  "open_sink b = \<lparr>out_bytes = b, out_calls = None, out_err = EOF\<rparr>"

definition hs_conn :: "time option \<Rightarrow> byte list \<Rightarrow> byte list \<Rightarrow> conn" where
  "hs_conn d i out = \<lparr>c_in = \<lparr>in_bytes = i, in_end = EOF\<rparr>, c_out = open_sink out,
     c_closed = False, c_readDeadline = d\<rparr>"

lemma hs_conn_steps:
  "NewConn \<lparr>in_bytes = i, in_end = EOF\<rparr> (open_sink out) = hs_conn None i out"
  "deadlineGuard now dt (hs_conn d i out) = hs_conn (Some (now + dt)) i out"
  "guard_stop (hs_conn d i out) = hs_conn None i out"
  "c_out (hs_conn d i out) = open_sink out" "out_bytes (open_sink out) = out"
  by (simp_all add: NewConn_def hs_conn_def deadlineGuard_def SetReadDeadline_def guard_stop_def
      ClearReadDeadline_def open_sink_def)

lemma hs_read:
  "type_known t \<Longrightarrow> length p \<le> 65536 \<Longrightarrow>
     conn_Read (hs_conn d (frame_bytes (ctl t p) @ r) out) = (Inr (ctl t p), hs_conn d r out)"
  using ReadFrame_frame_bytes [of MaxFramePayload "ctl t p" r EOF]
  by (simp add: conn_Read_def hs_conn_def frame_ok_def ctl_def)

lemma hs_write:
  "length p \<le> 65536 \<Longrightarrow>
     conn_WriteFrame t 0 p (hs_conn d i out) = (None, hs_conn d i (out @ frame_bytes (ctl t p)))"
  by (simp add: conn_WriteFrame_ok hs_conn_def open_sink_def ctl_def)

lemma hs_lengths:
  "length (Hello_Encode h) \<le> 65536" "length (HelloAck_Encode k) \<le> 65536"
  "auth_ok a \<Longrightarrow> length (Auth_Encode a) \<le> 65536"
  "length sid \<le> MaxIdentityLen \<Longrightarrow> length (AuthOK_Encode sid) \<le> 65536"
  by (simp_all add: Hello_Encode_def HelloAck_Encode_def Auth_Encode_def AuthOK_Encode_def
      auth_ok_def MaxIdentityLen_def)

lemma hs_types:
  "type_known TypeHello" "type_known TypeHelloAck" "type_known TypeAuth" "type_known TypeAuthOK"
  "fr_Type (ctl t p) = t" "fr_Payload (ctl t p) = p"
  by (simp_all add: type_known_def ctl_def)

lemma hs_decode:
  "Role_known (cf_Role cd) \<Longrightarrow> DecodeHello (Hello_Encode (hello_of cd)) = Inr (hello_of cd)"
  "cf_MaxFramePayload ca \<le> MaxFramePayload \<Longrightarrow> DecodeHelloAck (HelloAck_Encode (ack_of ca)) = Inr (ack_of ca)"
  by (simp_all add: DecodeHello_Encode hello_of_def DecodeHelloAck_Encode ack_of_def ack_ok_def
      withDefaults_def Let_def MaxFramePayload_def InitialWindow_def MaxStreamsPerConnection_def)

lemmas hs_simps = hs_conn_steps hs_read hs_write hs_lengths hs_types hs_decode
  DecodeAuth_Encode DecodeAuthOK_Encode

lemma Accept_ok:
  assumes "Role_known (cf_Role cd)" and "auth_ok auth"
  shows "mux_Accept now (hs_conn None (frame_bytes (ctl TypeHello (Hello_Encode (hello_of cd))) @
      frame_bytes (ctl TypeAuth (Auth_Encode auth)) @ r) []) ca =
    (let c = hs_conn (Some (now + HandshakeTimeout)) r (frame_bytes (ctl TypeHelloAck (HelloAck_Encode (ack_of ca))))
     in (Inr \<lparr>hs_Conn = c, hs_Hello = hello_of cd, hs_Auth = auth, hs_cfg = withDefaults ca, hs_ack = ack_of ca\<rparr>, c))"
proof -
  have "h_MinVersion (hello_of cd) = Version" "h_MaxVersion (hello_of cd) = Version"
    by (simp_all add: hello_of_def)
  then show ?thesis
    using assms unfolding mux_Accept_def ack_of_def [symmetric] Let_def by (simp add: hs_simps)
qed

lemma Dial_ok:
  assumes "cf_MaxFramePayload ca \<le> MaxFramePayload" and "auth_ok auth" and "length sid \<le> MaxIdentityLen"
  shows "mux_Dial now (hs_conn None (frame_bytes (ctl TypeHelloAck (HelloAck_Encode (ack_of ca))) @
      frame_bytes (ctl TypeAuthOK (AuthOK_Encode sid)) @ r) []) cd auth =
    (let c = hs_conn None r (frame_bytes (ctl TypeHello (Hello_Encode (hello_of cd))) @
        frame_bytes (ctl TypeAuth (Auth_Encode auth)))
     in (Inr ((newSession now c True (ack_of ca))\<lparr>s_ID := sid, s_Peer := auth\<rparr>), c))"
proof -
  have "cf_Role (withDefaults cd) = cf_Role cd" by (simp add: withDefaults_def Let_def)
  then have "\<lparr>h_MinVersion = Version, h_MaxVersion = Version, h_Role = cf_Role (withDefaults cd)\<rparr> = hello_of cd"
    by (simp add: hello_of_def)
  moreover have "k_Version (ack_of ca) = Version" by (simp add: ack_of_def)
  ultimately show ?thesis
    using assms unfolding mux_Dial_def Let_def by (simp add: hs_simps) (simp add: type_defs)
qed



text \<open>A peer at the stream limit that asks for one stream more is refused and not
  disconnected: no stream is registered or queued, the session stays open, and the answer on
  the wire is a \<open>CLOSE_STREAM\<close> for that identifier with the reason
  \<open>limit_streams_exceeded\<close>.\<close>
theorem open_at_limit_refused:
  assumes "map_of (s_streams s) i = None" and "(i mod 2 = 1) \<noteq> s_isClient s"
    and "length (s_streams s) = unat (s_maxStreams s)" and "out_calls (c_out (s_conn s)) = None"
    and "fr_Type f = TypeOpenStream" and "fr_StreamID f = i"
  shows "\<exists>c. dispatch f s = (None, s\<lparr>s_conn := c\<rparr>) \<and>
    out_bytes (c_out c) = out_bytes (c_out (s_conn s)) @
      frame_bytes \<lparr>fr_Type = TypeCloseStream, fr_StreamID = i, fr_Payload = bytes_of ReasonLimitStreamsExceeded\<rparr>"
proof -
  have "(word_of_nat (length (s_streams s)) :: u32) \<ge> s_maxStreams s"
    using assms(3) by simp
  moreover have "length (bytes_of ReasonLimitStreamsExceeded) \<le> 65536"
    by (simp add: ReasonLimitStreamsExceeded_def)
  ultimately show ?thesis
    using assms by (auto simp: dispatch_def handleOpen_def conn_WriteClose_eq conn_WriteFrame_ok)
qed

theorem open_at_limit_refused_witness:
  "\<exists>c. dispatch \<lparr>fr_Type = TypeOpenStream, fr_StreamID = 2, fr_Payload = []\<rparr>
      (demo_session\<lparr>s_maxStreams := 1\<rparr>) = (None, demo_session\<lparr>s_maxStreams := 1, s_conn := c\<rparr>)"
proof -
  have "out_calls (c_out (s_conn demo_session)) = None" "s_isClient demo_session"
    by (simp_all add: demo_session_def Open_send_def newSession_def demo_ack_def demo_conn_def NewConn_def
        isClosed_def writeFrame_def conn_WriteFrame_def WriteFrame_def conn_Write_def Let_def)
  then show ?thesis
    using open_at_limit_refused [of "demo_session\<lparr>s_maxStreams := 1\<rparr>" 2
        "\<lparr>fr_Type = TypeOpenStream, fr_StreamID = 2, fr_Payload = []\<rparr>"]
    by (auto simp: demo_session_fields)
qed

definition data_frames :: "u32 \<Rightarrow> byte list list \<Rightarrow> byte list" where
  "data_frames i cs = concat (map (\<lambda>c. frame_bytes \<lparr>fr_Type = TypeStreamData, fr_StreamID = i, fr_Payload = c\<rparr>) cs)"

text \<open>What the loop of \<open>Write\<close> has done when it stops, on a connection that accepts the frames.\<close>

definition write_post :: "nat \<Rightarrow> nat \<Rightarrow> byte list \<Rightarrow> nat \<Rightarrow> session \<Rightarrow> byte list list \<Rightarrow> bool" where
  "write_post fuel a p k s cs \<longleftrightarrow>
    (case write_loop fuel a p k s of ((w, e), s') \<Rightarrow>
       w = k + length (concat cs) \<and> concat cs = take (length (concat cs)) p \<and>
       (\<forall>c \<in> set cs. 0 < length c \<and> length c \<le> unat (s_maxFrame s)) \<and>
       out_bytes (c_out (s_conn s')) = out_bytes (c_out (s_conn s)) @ data_frames (st_id (s_objs s ! a)) cs \<and>
       unat (st_sendWindow (s_objs s' ! a)) + length (concat cs) = unat (st_sendWindow (s_objs s ! a)) \<and>
       (length p < fuel \<longrightarrow> e \<noteq> WNoFuel) \<and>
       (e = WDone \<longrightarrow> length (concat cs) = length p))"

lemma write_post_stop:
  "write_loop fuel a p k s = ((k, e), s) \<Longrightarrow> e \<noteq> WNoFuel \<or> fuel = 0 \<Longrightarrow> e \<noteq> WDone \<or> p = [] \<Longrightarrow>
     write_post fuel a p k s []"
  by (auto simp: write_post_def data_frames_def)

lemma write_loop_chunks:
  assumes "0 < s_maxFrame s" "unat (s_maxFrame s) \<le> 65536" "length p < 2 ^ 32" "\<not> s_done s"
    "out_calls (c_out (s_conn s)) = None" "a < length (s_objs s)"
  shows "\<exists>cs. write_post fuel a p k s cs"
  using assms
proof (induction fuel arbitrary: p k s)
  case 0
  show ?case by (rule exI [of _ "[]"]) (simp add: write_post_stop)
next
  case (Suc fuel)
  let ?st = "s_objs s ! a"
  obtain r st where w: "Write_locked (s_maxFrame s) (length p) ?st = (r, st)" by force
  show ?case
  proof (cases "p \<noteq> [] \<and> (\<exists>n. r = WSend n)")
    case False
    then show ?thesis
      using w by (intro exI [of _ "[]"] write_post_stop [where e = "snd (fst (write_loop (Suc fuel) a p k s))"])
        (auto split: write_res.splits)
  next
    case True
    then obtain n where p: "p \<noteq> []" and r: "r = WSend n" by auto
    note W = Write_locked_WSend [OF w [unfolded r] Suc.prems(3)]
    have n: "0 < n" "n \<le> length p" "n \<le> unat (s_maxFrame s)" "n \<le> unat (st_sendWindow ?st)"
      using W(1,6) p Suc.prems(1) by (auto simp: word_less_nat_alt)
    let ?f = "\<lparr>fr_Type = TypeStreamData, fr_StreamID = st_id ?st, fr_Payload = take n p\<rparr>"
    define s2 where "s2 = (upd_stream a (\<lambda>_. st) s)\<lparr>s_conn := (s_conn s)\<lparr>c_out := (c_out (s_conn s))
        \<lparr>out_bytes := out_bytes (c_out (s_conn s)) @ frame_bytes ?f\<rparr>\<rparr>\<rparr>"
    have id: "st_id st = st_id ?st" using W(3) by simp
    have d: "sendData (st_id st) (take n p) (upd_stream a (\<lambda>_. st) s) = (None, s2)"
      using Suc.prems(2,4,5) n(3)
      by (simp add: sendData_def isClosed_def upd_stream_def writeFrame_def conn_WriteFrame_ok id s2_def)
    have loop: "write_loop (Suc fuel) a p k s = write_loop fuel a (drop n p) (k + n) s2"
      using p w r d by simp
    have f2: "s_maxFrame s2 = s_maxFrame s" "\<not> s_done s2" "out_calls (c_out (s_conn s2)) = None"
      "a < length (s_objs s2)" "s_objs s2 ! a = st"
      "out_bytes (c_out (s_conn s2)) = out_bytes (c_out (s_conn s)) @ frame_bytes ?f"
      using Suc.prems by (simp_all add: s2_def upd_stream_def)
    have "length (drop n p) < 2 ^ 32" using Suc.prems(3) by simp
    with Suc.IH [of s2 "drop n p" "k + n"] f2 Suc.prems(1,2)
    obtain cs where cs: "write_post fuel a (drop n p) (k + n) s2 cs" by auto
    obtain w e s' where l: "write_loop fuel a (drop n p) (k + n) s2 = ((w, e), s')"
      by (metis prod.exhaust)
    have post: "w = k + n + length (concat cs)" "concat cs = take (length (concat cs)) (drop n p)"
      "\<forall>c \<in> set cs. 0 < length c \<and> length c \<le> unat (s_maxFrame s)"
      "out_bytes (c_out (s_conn s')) = out_bytes (c_out (s_conn s2)) @ data_frames (st_id st) cs"
      "unat (st_sendWindow (s_objs s' ! a)) + length (concat cs) = unat (st_sendWindow st)"
      "length p - n < fuel \<longrightarrow> e \<noteq> WNoFuel" "e = WDone \<longrightarrow> length (concat cs) = length p - n"
      using cs unfolding write_post_def l f2 by simp_all
    have "length (concat cs) \<le> length p - n"
      using arg_cong [OF post(2), of length] by simp
    then have le: "n + length (concat cs) \<le> length p" using n(2) by simp
    have "concat (take n p # cs) = take (length (concat (take n p # cs))) p"
      using post(2) n(2) by (simp add: take_add)
    moreover have "length p < Suc fuel \<longrightarrow> e \<noteq> WNoFuel" "e = WDone \<longrightarrow> n + length (concat cs) = length p"
      using post(6,7) n(1,2) by auto
    moreover have "unat (st_sendWindow (s_objs s' ! a)) + (n + length (concat cs)) = unat (st_sendWindow ?st)"
      using post(5) W(2) n(4) by simp
    ultimately have "write_post (Suc fuel) a p k s (take n p # cs)"
      unfolding write_post_def loop l using n post(1,3,4) f2(6) le p
      by (simp add: data_frames_def id min.absorb2)
    then show ?thesis by blast
  qed
qed

text \<open>C30: \<open>Write\<close> on a live connection stops (everything written, out of credit, or the stream
  closed) after sending a prefix of the payload as consecutive data frames, each non-empty and
  within the negotiated frame size, and never sends more than the credit the peer has granted.
  The reported count is exactly the number of bytes sent.\<close>
theorem stream_Write_splits:
  assumes "0 < s_maxFrame s" and "unat (s_maxFrame s) \<le> 65536" and "length p < 2 ^ 32"
    and "\<not> s_done s" and "out_calls (c_out (s_conn s)) = None" and "a < length (s_objs s)"
  shows "\<exists>w e s' cs. stream_Write a p s = ((w, e), s') \<and> e \<noteq> WNoFuel \<and> concat cs = take w p \<and>
    w = length (concat cs) \<and> w \<le> unat (st_sendWindow (s_objs s ! a)) \<and> (e = WDone \<longrightarrow> w = length p) \<and>
    (\<forall>c \<in> set cs. 0 < length c \<and> length c \<le> unat (s_maxFrame s)) \<and>
    out_bytes (c_out (s_conn s')) = out_bytes (c_out (s_conn s)) @
      concat (map (\<lambda>c. frame_bytes \<lparr>fr_Type = TypeStreamData, fr_StreamID = st_id (s_objs s ! a),
                                    fr_Payload = c\<rparr>) cs)"
proof -
  from write_loop_chunks [OF assms, of "length p + 1" 0] obtain cs
    where cs: "write_post (length p + 1) a p 0 s cs" ..
  obtain w e s' where l: "write_loop (length p + 1) a p 0 s = ((w, e), s')"
    by (metis prod.exhaust)
  from cs have "w = length (concat cs)" "concat cs = take (length (concat cs)) p"
    "\<forall>c \<in> set cs. 0 < length c \<and> length c \<le> unat (s_maxFrame s)"
    "out_bytes (c_out (s_conn s')) = out_bytes (c_out (s_conn s)) @ data_frames (st_id (s_objs s ! a)) cs"
    "unat (st_sendWindow (s_objs s' ! a)) + length (concat cs) = unat (st_sendWindow (s_objs s ! a))"
    "e \<noteq> WNoFuel" "e = WDone \<longrightarrow> length (concat cs) = length p"
    unfolding write_post_def l by simp_all
  note post = this
  have "w \<le> unat (st_sendWindow (s_objs s ! a))" using post(1,5) by linarith
  moreover have "concat cs = take w p" using post(1,2) by metis
  moreover have "e = WDone \<longrightarrow> w = length p" using post(1,7) by metis
  moreover have "stream_Write a p s = ((w, e), s')" using l by (simp only: stream_Write_def)
  ultimately show ?thesis
    using post(1,3,4,6) unfolding data_frames_def by blast
qed

theorem stream_Write_splits_witness:
  "\<exists>w e s' cs. stream_Write 0 [1, 2, 3] demo_session = ((w, e), s') \<and> e \<noteq> WNoFuel \<and> concat cs = take w [1, 2, 3 :: byte]"
proof -
  have h: "0 < s_maxFrame demo_session" "unat (s_maxFrame demo_session) \<le> 65536"
    "out_calls (c_out (s_conn demo_session)) = None" "0 < length (s_objs demo_session)"
    by (simp_all add: demo_session_def Open_send_def newSession_def demo_ack_def demo_conn_def NewConn_def
        isClosed_def writeFrame_def conn_WriteFrame_def WriteFrame_def conn_Write_def Let_def)
  have l: "length [1, 2, 3 :: byte] < 2 ^ 32" by simp
  from stream_Write_splits [OF h(1,2) l demo_session_fields(3) h(3,4)] show ?thesis by blast
qed

section \<open>Two edges\<close>

text \<open>An identifier is forgotten when its stream is retired, and the peer may open it again.\<close>

lemma retired_identifier_reopened:
  assumes "s1 = snd (handleOpen 1 [] (newSession 0 demo_conn False demo_ack))" and "s2 = retire 1 s1"
  shows "map fst (s_streams s1) = [1] \<and> s_streams s2 = [] \<and> fst (handleOpen 1 [] s2) = None \<and>
    map fst (s_streams (snd (handleOpen 1 [] s2))) = [1] \<and> map st_id (s_objs (snd (handleOpen 1 [] s2))) = [1, 1]"
  using assms
  by (simp add: handleOpen_def newSession_def demo_ack_def demo_conn_def NewConn_def retire_def writeFrame_def conn_WriteFrame_def
      WriteFrame_def conn_Write_def newStream_def Let_def)

text \<open>A peer that ends the session with an ERROR frame whose reason is that of success completes a pending
  \<open>Open\<close>: it returns a stream of a session that has ended.\<close>

lemma error_frame_completes_open:
  assumes "s = snd (dispatch \<lparr>fr_Type = TypeError, fr_StreamID = 0, fr_Payload = bytes_of ReasonOK\<rparr> demo_session)"
  shows "s_done s \<and> (\<exists>s'. Open_wait OnValue False (1, 0, 0) s = Some (Inr 0, s') \<and> s_done s')"
proof -
  have "s = shutdown ReasonOK (setErr (ErrSessionClosed (Some ReasonOK)) demo_session)"
    using assms by (simp add: dispatch_def type_defs)
  moreover have "s_chans (shutdown ReasonOK (setErr e demo_session)) = [Some ReasonOK]" for e
  proof -
    have "s_chans demo_session = [None]"
      by (simp add: demo_session_def Open_send_def newSession_def demo_ack_def demo_conn_def NewConn_def
          isClosed_def writeFrame_def conn_WriteFrame_def WriteFrame_def conn_Write_def Let_def)
    then show ?thesis by (simp add: shutdown_def kill_all_def try_send_def demo_session_fields Let_def)
  qed
  ultimately show ?thesis by (simp add: Open_wait_def Let_def)
qed

end
