(* ===== verification/Bridge.thy ===== *)
theory Bridge
  imports Proto_Frame
begin

text \<open>
  Joining two connections under a shared byte budget, \<open>internal/bridge/bridge.go\<close>. The two
  copying goroutines are the two pipes of a state; each turn of \<open>copyOneWay\<close> is three steps (a
  read, the claim on the budget, the write), so that the other direction may run between them.
  What a connection's \<open>Read\<close> and \<open>Write\<close> return is chosen by the environment within the
  contracts of \<open>io.Reader\<close> and \<open>io.Writer\<close>.
\<close>

section \<open>The budget\<close>

definition bufferSize :: nat where "bufferSize = unat MaxFramePayload"

text \<open>\<open>take\<close>: what one successful compare-and-swap reserves of the budget.\<close>

definition budget_take :: "u64 \<Rightarrow> nat \<Rightarrow> u64 \<Rightarrow> nat \<times> u64" where
  "budget_take maxBytes want spent =
    (if maxBytes = 0 then (want, spent)
     else if spent \<ge> maxBytes then (0, spent)
     else let left = maxBytes - spent;
              grant = (word_of_nat want :: u64);
              grant = (if grant > left then left else grant)
          in (unat grant, spent + grant))"

section \<open>One direction\<close>

datatype copy_err = ErrBudgetExhausted | ErrShortWrite | CopyIO io_err

text \<open>How \<open>copyOneWay\<close> returns: at a clean end, with a read error, or with a write error.\<close>

datatype copy_end = CleanEOF | ReadErr io_err | WriteErr copy_err

datatype phase =
    Reading
  | Got "byte list" "io_err option"
  | Claimed "byte list" nat "io_err option"
  | Ended copy_end

record pipe =
  p_n :: nat
  p_phase :: phase

text \<open>The end of a turn, on the error \<open>Read\<close> returned.\<close>

fun after_read :: "io_err option \<Rightarrow> phase" where
  "after_read None = Reading"
| "after_read (Some EOF) = Ended CleanEOF"
| "after_read (Some e) = Ended (ReadErr e)"

definition pipe_read :: "byte list \<Rightarrow> io_err option \<Rightarrow> pipe \<Rightarrow> pipe" where
  "pipe_read b er p = p\<lparr>p_phase := (if length b > 0 then Got b er else after_read er)\<rparr>"

definition pipe_claim :: "u64 \<Rightarrow> byte list \<Rightarrow> io_err option \<Rightarrow> pipe \<times> u64 \<Rightarrow> pipe \<times> u64" where
  "pipe_claim maxBytes b er ps =
    (case ps of (p, spent) \<Rightarrow>
      (case budget_take maxBytes (length b) spent of
         (allowed, spent) \<Rightarrow>
           if allowed = 0 then (p\<lparr>p_phase := Ended (WriteErr ErrBudgetExhausted)\<rparr>, spent)
           else (p\<lparr>p_phase := Claimed b allowed er\<rparr>, spent)))"

text \<open>\<open>nw\<close> and \<open>ew\<close> are what \<open>Write\<close> returns for the first \<open>allowed\<close> bytes of \<open>b\<close>.\<close>

definition pipe_write :: "byte list \<Rightarrow> nat \<Rightarrow> io_err option \<Rightarrow> nat \<Rightarrow> io_err option \<Rightarrow> pipe \<Rightarrow> pipe" where
  "pipe_write b allowed er nw ew p =
    (if allowed < length b then
       p\<lparr>p_n := p_n p + nw, p_phase := Ended (WriteErr ErrBudgetExhausted)\<rparr>
     else
       let p = p\<lparr>p_n := p_n p + nw\<rparr> in
       case ew of
         Some e \<Rightarrow> p\<lparr>p_phase := Ended (WriteErr (CopyIO e))\<rparr>
       | None \<Rightarrow>
           if nw \<noteq> length b then p\<lparr>p_phase := Ended (WriteErr ErrShortWrite)\<rparr>
           else p\<lparr>p_phase := after_read er\<rparr>)"

section \<open>Both directions\<close>

datatype side = SideA | SideB

datatype action = DoReset side reason | DoHalfClose side | DoClose side

record join =
  j_ab :: pipe
  j_ba :: pipe
  j_spent :: u64
  j_first :: "copy_err option"
  j_actions :: "action list"
  j_wait :: nat  \<comment> \<open>goroutines the wait group still waits for\<close>
  j_short :: bool  \<comment> \<open>some write stored fewer bytes than it was given\<close>

definition join_init :: join where
  "join_init = \<lparr>j_ab = \<lparr>p_n = 0, p_phase = Reading\<rparr>, j_ba = \<lparr>p_n = 0, p_phase = Reading\<rparr>,
     j_spent = 0, j_first = None, j_actions = [], j_wait = 2, j_short = False\<rparr>"

definition abort :: "reason \<Rightarrow> action list" where
  "abort r = [DoReset SideA r, DoReset SideB r]"

text \<open>The error a goroutine records and what it does to the connections, by how its copy ended;
  \<open>dst\<close> is the side it writes to.\<close>

fun on_end :: "side \<Rightarrow> copy_end \<Rightarrow> copy_err option \<times> action list" where
  "on_end dst (WriteErr ErrBudgetExhausted) = (Some ErrBudgetExhausted, abort ReasonLimitBytesExceeded)"
| "on_end dst (WriteErr e) = (Some e, abort ReasonShutdown)"
| "on_end dst (ReadErr e) = (Some (CopyIO e), abort ReasonShutdown)"
| "on_end dst CleanEOF = (None, [DoHalfClose dst])"

definition join_finish :: "side \<Rightarrow> copy_end \<Rightarrow> join \<Rightarrow> join" where
  "join_finish dst ce j =
    (case on_end dst ce of
       (e, acts) \<Rightarrow>
         let j = j\<lparr>j_first := (if j_first j = None then e else j_first j),
                   j_actions := j_actions j @ acts, j_wait := j_wait j - 1\<rparr> in
         if j_wait j = 0 then j\<lparr>j_actions := j_actions j @ [DoClose SideA, DoClose SideB]\<rparr> else j)"

definition swap_join :: "join \<Rightarrow> join" where
  "swap_join j = j\<lparr>j_ab := j_ba j, j_ba := j_ab j\<rparr>"

text \<open>A step of the direction from A to B. A goroutine whose copy has ended in this step also runs
  its final switch.\<close>

definition settle :: "side \<Rightarrow> join \<Rightarrow> join" where
  "settle dst j = (case p_phase (j_ab j) of Ended ce \<Rightarrow> join_finish dst ce j | _ \<Rightarrow> j)"

inductive pipe_step :: "u64 \<Rightarrow> side \<Rightarrow> join \<Rightarrow> join \<Rightarrow> bool" for maxBytes :: u64 and dst :: side where
  p_read: "p_phase (j_ab j) = Reading \<Longrightarrow> length b \<le> bufferSize \<Longrightarrow>
    pipe_step maxBytes dst j (settle dst (j\<lparr>j_ab := pipe_read b er (j_ab j)\<rparr>))"
| p_claim: "p_phase (j_ab j) = Got b er \<Longrightarrow> pipe_claim maxBytes b er (j_ab j, j_spent j) = (p, spent) \<Longrightarrow>
    pipe_step maxBytes dst j (settle dst (j\<lparr>j_ab := p, j_spent := spent\<rparr>))"
| p_write: "p_phase (j_ab j) = Claimed b allowed er \<Longrightarrow> nw \<le> allowed \<Longrightarrow>
    pipe_step maxBytes dst j
      (settle dst (j\<lparr>j_ab := pipe_write b allowed er nw ew (j_ab j), j_short := (j_short j \<or> nw < allowed)\<rparr>))"

inductive join_run :: "u64 \<Rightarrow> join \<Rightarrow> bool" for maxBytes :: u64 where
  init: "join_run maxBytes join_init"
| stepAB: "join_run maxBytes j \<Longrightarrow> pipe_step maxBytes SideB j j' \<Longrightarrow> join_run maxBytes j'"
| stepBA: "join_run maxBytes j \<Longrightarrow> pipe_step maxBytes SideA (swap_join j) j' \<Longrightarrow> join_run maxBytes (swap_join j')"

text \<open>\<open>Stats\<close> and the error, as returned when the wait group is done.\<close>

definition join_result :: "join \<Rightarrow> (nat \<times> nat) \<times> copy_err option" where
  "join_result j = ((p_n (j_ab j), p_n (j_ba j)), j_first j)"

section \<open>Lemmas\<close>

lemma budget_take_bounds:
  assumes "budget_take mx want spent = (allowed, spent')" and "want < 2 ^ 64" and "mx \<noteq> 0"
    and "unat spent \<le> unat mx"
  shows "unat spent' = unat spent + allowed" and "unat spent' \<le> unat mx" and "allowed \<le> want"
    and "allowed < want \<Longrightarrow> unat spent' = unat mx"
proof -
  have un: "unat (word_of_nat want :: u64) = want" using assms(2) by (simp add: unat_of_nat)
  have "unat spent' = unat spent + allowed \<and> unat spent' \<le> unat mx \<and> allowed \<le> want \<and>
    (allowed < want \<longrightarrow> unat spent' = unat mx)"
  proof (cases "spent \<ge> mx")
    case True
    with assms show ?thesis by (auto simp: budget_take_def word_le_nat_alt)
  next
    case False
    let ?left = "mx - spent"
    define g where "g = (if (word_of_nat want :: u64) > ?left then ?left else word_of_nat want)"
    have l: "unat ?left = unat mx - unat spent"
      using assms(4) by (simp add: unat_sub word_le_nat_alt)
    have g: "unat g = min want (unat mx - unat spent)"
      unfolding g_def using un l by (simp add: word_less_nat_alt)
    have e: "allowed = unat g" "spent' = spent + g"
      using assms(1,3) False by (simp_all add: budget_take_def g_def Let_def)
    have "unat spent + unat g < 2 ^ 64"
      using g assms(4) unat_less_pow [of mx] by simp
    then have "unat spent' = unat spent + unat g"
      unfolding e by (simp add: unat_word_ariths)
    with g e assms(4) show ?thesis by auto
  qed
  then show "unat spent' = unat spent + allowed" "unat spent' \<le> unat mx" "allowed \<le> want"
    "allowed < want \<Longrightarrow> unat spent' = unat mx" by auto
qed

text \<open>What a pipe has claimed but not yet written.\<close>

definition outstanding :: "pipe \<Rightarrow> nat" where
  "outstanding p = (case p_phase p of Claimed b allowed er \<Rightarrow> allowed | _ \<Rightarrow> 0)"

definition pipe_ok :: "u64 \<Rightarrow> u64 \<Rightarrow> pipe \<Rightarrow> bool" where
  "pipe_ok mx spent p \<longleftrightarrow>
    (case p_phase p of
       Got b er \<Rightarrow> 0 < length b \<and> length b \<le> bufferSize
     | Claimed b allowed er \<Rightarrow> length b \<le> bufferSize \<and> allowed \<le> length b \<and> (allowed < length b \<longrightarrow> spent = mx)
     | Ended (WriteErr ErrBudgetExhausted) \<Rightarrow> spent = mx
     | _ \<Rightarrow> True)"

definition join_inv :: "u64 \<Rightarrow> join \<Rightarrow> bool" where
  "join_inv mx j \<longleftrightarrow> pipe_ok mx (j_spent j) (j_ab j) \<and> pipe_ok mx (j_spent j) (j_ba j) \<and>
     unat (j_spent j) \<le> unat mx \<and>
     p_n (j_ab j) + p_n (j_ba j) + outstanding (j_ab j) + outstanding (j_ba j) \<le> unat (j_spent j) \<and>
     (\<not> j_short j \<longrightarrow>
       p_n (j_ab j) + p_n (j_ba j) + outstanding (j_ab j) + outstanding (j_ba j) = unat (j_spent j))"

lemma join_inv_settle [simp]: "join_inv mx (settle dst j) = join_inv mx j"
  by (auto simp: settle_def join_finish_def join_inv_def Let_def split: phase.split prod.split)

lemma pipes_settle [simp]:
  "j_ab (settle dst j) = j_ab j" "j_ba (settle dst j) = j_ba j" "j_spent (settle dst j) = j_spent j"
  "j_short (settle dst j) = j_short j"
  by (auto simp: settle_def join_finish_def Let_def split: phase.split prod.split)

lemma join_inv_swap [simp]: "join_inv mx (swap_join j) = join_inv mx j"
  by (auto simp: swap_join_def join_inv_def)

lemma pipe_ok_mono:
  assumes "pipe_ok mx spent p" and "unat spent \<le> unat spent'" and "unat spent' \<le> unat mx"
  shows "pipe_ok mx spent' p"
proof -
  have "spent = mx \<Longrightarrow> spent' = mx" using assms(2,3) by (simp add: word_unat_eq_iff)
  with assms(1) show ?thesis
    by (auto simp: pipe_ok_def split: phase.splits copy_end.splits copy_err.splits)
qed

lemma after_read_cases:
  "after_read er = Reading \<or> after_read er = Ended CleanEOF \<or> (\<exists>e. after_read er = Ended (ReadErr e))"
  by (cases er rule: after_read.cases) simp_all

lemma after_read_ok:
  "p_phase p = after_read er \<Longrightarrow> pipe_ok mx spent p" "p_phase p = after_read er \<Longrightarrow> outstanding p = 0"
  using after_read_cases [of er] by (auto simp: pipe_ok_def outstanding_def)

lemma inv_read:
  assumes "join_inv mx j" and "p_phase (j_ab j) = Reading" and "length b \<le> bufferSize"
  shows "join_inv mx (j\<lparr>j_ab := pipe_read b er (j_ab j)\<rparr>)"
proof (cases "b = []")
  case True
  then have "p_phase (pipe_read b er (j_ab j)) = after_read er" by (simp add: pipe_read_def)
  note after_read_ok [OF this]
  with assms(1,2) True show ?thesis by (simp add: join_inv_def) (simp add: pipe_read_def outstanding_def)
next
  case False
  with assms show ?thesis by (simp add: join_inv_def pipe_read_def outstanding_def pipe_ok_def)
qed

lemma bufferSize_lt: "n \<le> bufferSize \<Longrightarrow> n < 2 ^ 64"
  by (simp add: bufferSize_def MaxFramePayload_def)

lemma inv_claim:
  assumes "join_inv mx j" and "mx \<noteq> 0" and "p_phase (j_ab j) = Got b er"
    and "pipe_claim mx b er (j_ab j, j_spent j) = (p, spent)"
  shows "join_inv mx (j\<lparr>j_ab := p, j_spent := spent\<rparr>)"
proof -
  obtain al sp where t: "budget_take mx (length b) (j_spent j) = (al, sp)" by force
  have b: "0 < length b" "length b \<le> bufferSize"
    using assms(1,3) by (simp_all add: join_inv_def pipe_ok_def)
  have s: "unat (j_spent j) \<le> unat mx" using assms(1) by (simp add: join_inv_def)
  note bt = budget_take_bounds [OF t bufferSize_lt [OF b(2)] assms(2) s]
  have p: "spent = sp" "p = (if al = 0 then (j_ab j)\<lparr>p_phase := Ended (WriteErr ErrBudgetExhausted)\<rparr>
      else (j_ab j)\<lparr>p_phase := Claimed b al er\<rparr>)"
    using assms(4) t by (auto simp: pipe_claim_def split: if_splits)
  have full: "al < length b \<Longrightarrow> sp = mx" using bt(4) by (simp add: word_unat_eq_iff)
  have i: "pipe_ok mx (j_spent j) (j_ba j)"
    "p_n (j_ab j) + p_n (j_ba j) + outstanding (j_ab j) + outstanding (j_ba j) \<le> unat (j_spent j)"
    "\<not> j_short j \<longrightarrow> p_n (j_ab j) + p_n (j_ba j) + outstanding (j_ab j) + outstanding (j_ba j) = unat (j_spent j)"
    using assms(1) unfolding join_inv_def by blast+
  have "pipe_ok mx sp (j_ba j)"
    using bt(1,2) by (intro pipe_ok_mono [OF i(1)]) linarith+
  moreover have "pipe_ok mx sp p"
  proof (cases "al = 0")
    case True
    with p full b(1) show ?thesis by (simp add: pipe_ok_def)
  next
    case False
    with p(2) have "p_phase p = Claimed b al er" by simp
    with b(2) bt(3) full show ?thesis unfolding pipe_ok_def by simp
  qed
  moreover have "p_n p + outstanding p = p_n (j_ab j) + outstanding (j_ab j) + al"
    using p(2) assms(3) by (simp add: outstanding_def)
  ultimately show ?thesis
    using i(2,3) bt(1,2) unfolding join_inv_def p(1) by (simp; linarith)
qed

lemma inv_write:
  assumes "join_inv mx j" and "p_phase (j_ab j) = Claimed b al er" and "nw \<le> al"
  shows "join_inv mx (j\<lparr>j_ab := pipe_write b al er nw ew (j_ab j), j_short := (j_short j \<or> nw < al)\<rparr>)"
proof -
  let ?p = "pipe_write b al er nw ew (j_ab j)"
  have c: "al \<le> length b" "al < length b \<longrightarrow> j_spent j = mx"
    using assms(1,2) by (simp_all add: join_inv_def pipe_ok_def)
  have n: "p_n ?p = p_n (j_ab j) + nw"
    by (auto simp: pipe_write_def Let_def split: option.split)
  have "pipe_ok mx (j_spent j) ?p \<and> outstanding ?p = 0"
  proof (cases "al < length b \<or> ew \<noteq> None \<or> nw \<noteq> length b")
    case True
    with c(2) show ?thesis
      by (auto simp: pipe_write_def Let_def pipe_ok_def outstanding_def split: option.split)
  next
    case False
    then have "p_phase ?p = after_read er" by (simp add: pipe_write_def Let_def)
    with after_read_ok show ?thesis by blast
  qed
  then show ?thesis
    using assms n by (auto simp: join_inv_def outstanding_def [of "j_ab j"])
qed

lemma pipe_step_inv: "pipe_step mx dst j j' \<Longrightarrow> join_inv mx j \<Longrightarrow> mx \<noteq> 0 \<Longrightarrow> join_inv mx j'"
proof (induction rule: pipe_step.induct)
  case (p_claim j b er p spent)
  then show ?case using inv_claim [of mx j b er p spent] by simp
qed (simp_all add: inv_read inv_write)

lemma join_run_inv: "join_run mx j \<Longrightarrow> mx \<noteq> 0 \<Longrightarrow> join_inv mx j"
proof (induction rule: join_run.induct)
  case init
  then show ?case by (simp add: join_inv_def join_init_def pipe_ok_def outstanding_def)
next
  case (stepAB j j')
  then show ?case using pipe_step_inv by blast
next
  case (stepBA j j')
  then show ?case using pipe_step_inv [of mx SideA "swap_join j" j'] by simp
qed

text \<open>With no budget, no direction ever ends for lack of one.\<close>

definition not_exhausted :: "pipe \<Rightarrow> bool" where
  "not_exhausted p \<longleftrightarrow> p_phase p \<noteq> Ended (WriteErr ErrBudgetExhausted) \<and>
     (case p_phase p of Got b er \<Rightarrow> 0 < length b | Claimed b al er \<Rightarrow> al = length b | _ \<Rightarrow> True)"

lemma not_exhausted_after_read: "p_phase p = after_read er \<Longrightarrow> not_exhausted p"
  using after_read_cases [of er] by (auto simp: not_exhausted_def)

lemma not_exhausted_read: "not_exhausted (pipe_read b er p)"
proof (cases "b = []")
  case True
  then show ?thesis by (intro not_exhausted_after_read [of _ er]) (simp add: pipe_read_def)
qed (simp add: not_exhausted_def pipe_read_def)

lemma not_exhausted_write: "al = length b \<Longrightarrow> not_exhausted (pipe_write b al er nw ew p)"
proof (cases "ew \<noteq> None \<or> nw \<noteq> length b")
  case True
  moreover assume "al = length b"
  ultimately show ?thesis
    by (cases ew) (simp_all add: pipe_write_def Let_def not_exhausted_def)
next
  case False
  moreover assume "al = length b"
  ultimately show ?thesis
    by (intro not_exhausted_after_read [of _ er]) (simp add: pipe_write_def Let_def)
qed

lemma unlimited_step:
  "pipe_step 0 dst j j' \<Longrightarrow> not_exhausted (j_ab j) \<Longrightarrow> not_exhausted (j_ba j) \<Longrightarrow>
     not_exhausted (j_ab j') \<and> not_exhausted (j_ba j')"
proof (induction rule: pipe_step.induct)
  case (p_claim j b er p spent)
  then have "0 < length b" by (simp add: not_exhausted_def)
  with p_claim show ?case
    by (auto simp: pipe_claim_def budget_take_def not_exhausted_def [of p])
next
  case (p_write j b allowed er nw ew)
  then have "allowed = length b" by (simp add: not_exhausted_def)
  with p_write show ?case by (simp add: not_exhausted_write)
qed (simp add: not_exhausted_read)

lemma unlimited_run: "join_run 0 j \<Longrightarrow> not_exhausted (j_ab j) \<and> not_exhausted (j_ba j)"
proof (induction rule: join_run.induct)
  case init
  then show ?case by (simp add: join_init_def not_exhausted_def)
next
  case (stepAB j j')
  then show ?case using unlimited_step by blast
next
  case (stepBA j j')
  then show ?case using unlimited_step [of SideA "swap_join j" j'] by (simp add: swap_join_def)
qed

section \<open>Properties\<close>

text \<open>A run that exhausts a budget of two bytes with a read of three.\<close>

definition demo_join :: join where
  "demo_join = \<lparr>j_ab = \<lparr>p_n = 2, p_phase = Ended (WriteErr ErrBudgetExhausted)\<rparr>,
     j_ba = \<lparr>p_n = 0, p_phase = Reading\<rparr>, j_spent = 2, j_first = Some ErrBudgetExhausted,
     j_actions = abort ReasonLimitBytesExceeded, j_wait = 1, j_short = False\<rparr>"

lemma demo_join_run: "join_run 2 demo_join"
proof -
  let ?b = "[1, 2, 3 :: byte]"
  define j1 where "j1 = join_init\<lparr>j_ab := \<lparr>p_n = 0, p_phase = Got ?b None\<rparr>\<rparr>"
  define j2 where "j2 = join_init\<lparr>j_ab := \<lparr>p_n = 0, p_phase = Claimed ?b 2 None\<rparr>, j_spent := 2\<rparr>"
  have "p_phase (j_ab join_init) = Reading" "length ?b \<le> bufferSize"
    by (simp_all add: join_init_def bufferSize_def MaxFramePayload_def)
  from join_run.stepAB [OF join_run.init pipe_step.p_read [OF this, where er = None]]
  have r1: "join_run 2 j1" by (simp add: j1_def join_init_def pipe_read_def settle_def)
  have "p_phase (j_ab j1) = Got ?b None" by (simp add: j1_def)
  moreover have "pipe_claim 2 ?b None (j_ab j1, j_spent j1) = (\<lparr>p_n = 0, p_phase = Claimed ?b 2 None\<rparr>, 2)"
    by (simp add: pipe_claim_def budget_take_def j1_def join_init_def)
  ultimately have r2: "join_run 2 j2"
    using join_run.stepAB [OF r1 pipe_step.p_claim [of j1 ?b None 2 "\<lparr>p_n = 0, p_phase = Claimed ?b 2 None\<rparr>" 2]]
    by (simp add: j1_def j2_def join_init_def settle_def)
  have "p_phase (j_ab j2) = Claimed ?b 2 None" by (simp add: j2_def)
  from join_run.stepAB [OF r2 pipe_step.p_write [OF this, of 2 2 SideB None]] show ?thesis
    by (simp add: j2_def demo_join_def pipe_write_def settle_def join_finish_def join_init_def
        numeral_2_eq_2)
qed

text \<open>C17: The budget of a bridged pair is shared and exact: in every interleaving of the two
  copying directions the bytes written in both directions together never exceed it, and when a
  direction was cut for exhausting it, and every write stored what it was given, exactly the
  budget has been carried once nothing claimed is still to be written.\<close>
theorem budget_exact:
  assumes "join_run maxBytes j" and "maxBytes \<noteq> 0"
  shows "p_n (j_ab j) + p_n (j_ba j) \<le> unat maxBytes \<and>
    (p_phase (j_ab j) = Ended (WriteErr ErrBudgetExhausted) \<longrightarrow>
     outstanding (j_ba j) = 0 \<longrightarrow> \<not> j_short j \<longrightarrow> p_n (j_ab j) + p_n (j_ba j) = unat maxBytes)"
proof -
  from join_run_inv [OF assms] have
    i: "pipe_ok maxBytes (j_spent j) (j_ab j)" "unat (j_spent j) \<le> unat maxBytes"
    "p_n (j_ab j) + p_n (j_ba j) + outstanding (j_ab j) + outstanding (j_ba j) \<le> unat (j_spent j)"
    "\<not> j_short j \<longrightarrow> p_n (j_ab j) + p_n (j_ba j) + outstanding (j_ab j) + outstanding (j_ba j) = unat (j_spent j)"
    unfolding join_inv_def by blast+
  have "j_spent j = maxBytes \<and> outstanding (j_ab j) = 0"
    if "p_phase (j_ab j) = Ended (WriteErr ErrBudgetExhausted)"
    using i(1) that by (simp add: pipe_ok_def outstanding_def)
  with i show ?thesis by auto
qed

theorem budget_exact_witness:
  "p_n (j_ab demo_join) + p_n (j_ba demo_join) = 2 \<and> p_n (j_ab demo_join) + p_n (j_ba demo_join) \<le> unat (2 :: u64)"
  using budget_exact [OF demo_join_run] by (simp add: demo_join_def)

text \<open>A budget of zero means no limit.\<close>

lemma unlimited_never_exhausted:
  "join_run 0 j \<Longrightarrow> p_phase (j_ab j) \<noteq> Ended (WriteErr ErrBudgetExhausted) \<and>
     p_phase (j_ba j) \<noteq> Ended (WriteErr ErrBudgetExhausted)"
  using unlimited_run by (simp add: not_exhausted_def)

end
