(* ===== verification/Policy.thy ===== *)
theory Policy
  imports Proto_Grant
begin

text \<open>
  Access policy, \<open>internal/control/policy\<close>: deny by default, rules that can only allow, and the
  longest lifetime any matching rule gives. Reading and decoding the policy file (file system
  and JSON) is an argument of \<open>LoadRules\<close>; the checks it makes on the decoded rules are modelled.
\<close>

section \<open>Rules and decisions\<close>

definition EffectAllow :: string where "EffectAllow = ''allow''"

record rule =
  r_PolicyID :: string
  r_Principals :: "string list"
  r_Devices :: "string list"
  r_Resources :: "string list"
  r_MaxTTL :: duration
  r_Effect :: string

record decision =
  d_Allowed :: bool
  d_MaxTTL :: duration
  d_PolicyID :: string
  d_Reason :: reason

fun contains :: "string list \<Rightarrow> string \<Rightarrow> bool" where
  "contains [] want = False"
| "contains (v # list) want = (if v = want then True else contains list want)"

definition denied :: decision where
  "denied = \<lparr>d_Allowed = False, d_MaxTTL = 0, d_PolicyID = '''', d_Reason = ReasonPolicyDenied\<rparr>"

section \<open>Evaluation\<close>

text \<open>The loop over the rules, with the best decision so far.\<close>

fun eval_loop :: "rule list \<Rightarrow> string \<Rightarrow> string \<Rightarrow> string \<Rightarrow> decision \<Rightarrow> decision" where
  "eval_loop [] userID deviceID resourceID best = best"
| "eval_loop (r # rules) userID deviceID resourceID best =
    (if r_Effect r \<noteq> EffectAllow then eval_loop rules userID deviceID resourceID best
     else if \<not> contains (r_Principals r) userID \<or> \<not> contains (r_Devices r) deviceID \<or>
             \<not> contains (r_Resources r) resourceID
       then eval_loop rules userID deviceID resourceID best
     else
       let ttl = r_MaxTTL r;
           ttl = (if ttl \<le> 0 \<or> ttl > MaxGrantTTL then MaxGrantTTL else ttl);
           best = (if \<not> d_Allowed best \<or> ttl > d_MaxTTL best
                   then \<lparr>d_Allowed = True, d_MaxTTL = ttl, d_PolicyID = r_PolicyID r, d_Reason = ReasonOK\<rparr>
                   else best)
       in eval_loop rules userID deviceID resourceID best)"

definition Evaluate :: "rule list \<Rightarrow> string \<Rightarrow> string \<Rightarrow> string \<Rightarrow> decision" where
  "Evaluate rules userID deviceID resourceID =
    (if userID = '''' \<or> deviceID = '''' \<or> resourceID = '''' then denied
     else eval_loop rules userID deviceID resourceID denied)"

section \<open>Loading\<close>

datatype load_err = LoadRead string | LoadParse string | NoPolicyID nat | BadEffect string | EmptyList string

fun check_rules :: "nat \<Rightarrow> rule list \<Rightarrow> load_err option" where
  "check_rules i [] = None"
| "check_rules i (r # rules) =
    (if r_PolicyID r = '''' then Some (NoPolicyID i)
     else if r_Effect r \<noteq> EffectAllow then Some (BadEffect (r_PolicyID r))
     else if r_Principals r = [] \<or> r_Devices r = [] \<or> r_Resources r = [] then Some (EmptyList (r_PolicyID r))
     else check_rules (i + 1) rules)"

definition LoadRules ::
  "('p \<Rightarrow> string + 'b) \<Rightarrow> ('b \<Rightarrow> string + rule list) \<Rightarrow> 'p \<Rightarrow> load_err + rule list" where
  "LoadRules readFile decode path =
    (case readFile path of
       Inl e \<Rightarrow> Inl (LoadRead e)
     | Inr b \<Rightarrow>
        (case decode b of
           Inl e \<Rightarrow> Inl (LoadParse e)
         | Inr rules \<Rightarrow>
            (case check_rules 0 rules of Some e \<Rightarrow> Inl e | None \<Rightarrow> Inr rules)))"

section \<open>The reference decision\<close>

text \<open>What a policy means, without a loop: a request is allowed when some rule matches it, for the
  longest of the matching rules' lifetimes, in the name of the first rule that gives it.\<close>

definition matches :: "string \<Rightarrow> string \<Rightarrow> string \<Rightarrow> rule \<Rightarrow> bool" where
  "matches u d x r \<longleftrightarrow> r_Effect r = EffectAllow \<and> u \<in> set (r_Principals r) \<and>
     d \<in> set (r_Devices r) \<and> x \<in> set (r_Resources r)"

definition capped :: "rule \<Rightarrow> duration" where
  "capped r = (if r_MaxTTL r \<le> 0 \<or> r_MaxTTL r > MaxGrantTTL then MaxGrantTTL else r_MaxTTL r)"

definition reference :: "rule list \<Rightarrow> string \<Rightarrow> string \<Rightarrow> string \<Rightarrow> decision" where
  "reference rules u d x =
    (let ms = filter (matches u d x) rules; ttl = Max (set (map capped ms)) in
     if u = '''' \<or> d = '''' \<or> x = '''' \<or> ms = [] then denied
     else \<lparr>d_Allowed = True, d_MaxTTL = ttl,
           d_PolicyID = r_PolicyID (hd (filter (\<lambda>r. capped r = ttl) ms)), d_Reason = ReasonOK\<rparr>)"

lemma contains_iff [simp]: "contains xs w \<longleftrightarrow> w \<in> set xs"
  by (induction xs) auto

text \<open>The loop on the matching rules only, as a fold.\<close>

definition better :: "rule \<Rightarrow> decision \<Rightarrow> decision" where
  "better r best = (if \<not> d_Allowed best \<or> capped r > d_MaxTTL best
     then \<lparr>d_Allowed = True, d_MaxTTL = capped r, d_PolicyID = r_PolicyID r, d_Reason = ReasonOK\<rparr> else best)"

lemma eval_loop_fold: "eval_loop rules u d x best = fold better (filter (matches u d x) rules) best"
  by (induction rules arbitrary: best)
    (auto simp: matches_def better_def capped_def Let_def)

definition best_of :: "rule list \<Rightarrow> decision" where
  "best_of ms = (let ttl = Max (set (map capped ms)) in
     \<lparr>d_Allowed = True, d_MaxTTL = ttl, d_PolicyID = r_PolicyID (hd (filter (\<lambda>r. capped r = ttl) ms)),
      d_Reason = ReasonOK\<rparr>)"

lemma best_of_snoc:
  assumes "ms \<noteq> []"
  shows "best_of (ms @ [r]) = better r (best_of ms)"
proof -
  let ?m = "Max (capped ` set ms)"
  have max: "Max (capped ` set (ms @ [r])) = max (capped r) ?m"
    using assms by (simp add: Max_insert)
  have "?m \<in> capped ` set ms" using assms by (intro Max_in) auto
  then have ne: "filter (\<lambda>r. capped r = ?m) ms \<noteq> []"
    by (auto simp: filter_empty_conv)
  show ?thesis
  proof (cases "capped r > ?m")
    case True
    have "capped q \<le> ?m" if "q \<in> set ms" for q using that by simp
    with True have "\<forall>q\<in>set ms. capped q \<noteq> capped r" by (metis not_le)
    then have "filter (\<lambda>q. capped q = capped r) ms = []" by (simp add: filter_empty_conv)
    with True max show ?thesis
      by (simp add: best_of_def better_def max_def)
  next
    case False
    with max ne show ?thesis
      by (simp add: best_of_def better_def max_def hd_append)
  qed
qed

lemma fold_better: "ms \<noteq> [] \<Longrightarrow> fold better ms denied = best_of ms"
proof (induction ms rule: rev_induct)
  case (snoc r ms)
  then show ?case
    by (cases "ms = []") (simp_all add: best_of_snoc, simp add: best_of_def better_def denied_def)
qed simp

lemma Evaluate_reference: "Evaluate rules u d x = reference rules u d x"
  by (simp add: Evaluate_def reference_def eval_loop_fold fold_better best_of_def Let_def)

lemma capped_bounds: "0 < capped r" "capped r \<le> MaxGrantTTL"
  by (auto simp: capped_def MaxGrantTTL_def Minute_def Second_def)

lemma Evaluate_ttl:
  assumes "d_Allowed (Evaluate rules u d x)"
  shows "0 < d_MaxTTL (Evaluate rules u d x) \<and> d_MaxTTL (Evaluate rules u d x) \<le> MaxGrantTTL"
proof -
  let ?ms = "filter (matches u d x) rules"
  have ne: "?ms \<noteq> []"
    using assms by (auto simp: Evaluate_reference reference_def denied_def Let_def split: if_splits)
  then have "Max (set (map capped ?ms)) \<in> set (map capped ?ms)"
    by (intro Max_in) (simp_all only: finite_set set_empty map_is_Nil_conv not_False_eq_True)
  then obtain r where "Max (set (map capped ?ms)) = capped r" by auto
  moreover have "d_MaxTTL (Evaluate rules u d x) = Max (set (map capped ?ms))"
    using assms ne by (auto simp: Evaluate_reference reference_def denied_def Let_def split: if_splits)
  ultimately show ?thesis using capped_bounds [of r] by simp
qed

lemma check_rules_None:
  "check_rules i rules = None \<longleftrightarrow>
     (\<forall>r \<in> set rules. r_PolicyID r \<noteq> '''' \<and> r_Effect r = EffectAllow \<and>
        r_Principals r \<noteq> [] \<and> r_Devices r \<noteq> [] \<and> r_Resources r \<noteq> [])"
  by (induction rules arbitrary: i) auto

section \<open>Properties\<close>

text \<open>C18: The evaluation loop computes the reference decision: deny for an empty identifier or
  when no rule matches, otherwise allow for the longest capped lifetime of the matching rules,
  in the name of the first rule that gives it.\<close>
theorem Evaluate_equals_reference:
  "Evaluate rules u d x = reference rules u d x"
  by (rule Evaluate_reference)

text \<open>C31: Whether a request is allowed and for how long does not depend on the order of the
  rules or on repetitions; every allowed lifetime is positive and within the ceiling on grants;
  a request is allowed only by a rule that names its user, its device and its resource, so no
  rule means no access; and adding a rule never takes access or lifetime away.\<close>
theorem Evaluate_meaning:
  assumes "set rules = set rules'"
  shows "d_Allowed (Evaluate rules u d x) = d_Allowed (Evaluate rules' u d x) \<and>
    d_MaxTTL (Evaluate rules u d x) = d_MaxTTL (Evaluate rules' u d x) \<and>
    (d_Allowed (Evaluate rules u d x) \<longleftrightarrow>
       u \<noteq> '''' \<and> d \<noteq> '''' \<and> x \<noteq> '''' \<and> (\<exists>r \<in> set rules. matches u d x r)) \<and>
    (d_Allowed (Evaluate rules u d x) \<longrightarrow>
       0 < d_MaxTTL (Evaluate rules u d x) \<and> d_MaxTTL (Evaluate rules u d x) \<le> MaxGrantTTL \<and>
       d_Allowed (Evaluate (q # rules) u d x) \<and>
       d_MaxTTL (Evaluate rules u d x) \<le> d_MaxTTL (Evaluate (q # rules) u d x))"
proof -
  let ?M = "\<lambda>rs. {r \<in> set rs. matches u d x r}"
  have al: "d_Allowed (Evaluate rs u d x) \<longleftrightarrow> u \<noteq> '''' \<and> d \<noteq> '''' \<and> x \<noteq> '''' \<and> ?M rs \<noteq> {}" for rs
    by (auto simp: Evaluate_reference reference_def Let_def denied_def filter_empty_conv)
  have ttl: "d_MaxTTL (Evaluate rs u d x) = (if d_Allowed (Evaluate rs u d x) then Max (capped ` ?M rs) else 0)" for rs
    unfolding al by (auto simp: Evaluate_reference reference_def Let_def denied_def filter_empty_conv)
  have fin: "finite (?M rs)" for rs by simp
  have b: "0 < Max (capped ` ?M rs) \<and> Max (capped ` ?M rs) \<le> MaxGrantTTL" if "?M rs \<noteq> {}" for rs
    using that capped_bounds by (auto simp: Max_gr_iff)
  have mono: "Max (capped ` ?M rules) \<le> Max (capped ` ?M (q # rules))" if "?M rules \<noteq> {}"
    using that by (intro Max_mono) auto
  show ?thesis
    using assms b mono unfolding ttl al by auto
qed

theorem Evaluate_meaning_witness:
  "d_Allowed (Evaluate [\<lparr>r_PolicyID = ''p'', r_Principals = [''u''], r_Devices = [''d''], r_Resources = [''x''],
      r_MaxTTL = 0, r_Effect = ''allow''\<rparr>] ''u'' ''d'' ''x'') \<and>
   0 < d_MaxTTL (Evaluate [\<lparr>r_PolicyID = ''p'', r_Principals = [''u''], r_Devices = [''d''], r_Resources = [''x''],
      r_MaxTTL = 0, r_Effect = ''allow''\<rparr>] ''u'' ''d'' ''x'')"
proof -
  let ?r = "\<lparr>r_PolicyID = ''p'', r_Principals = [''u''], r_Devices = [''d''], r_Resources = [''x''],
      r_MaxTTL = 0, r_Effect = ''allow''\<rparr>"
  from Evaluate_meaning [of "[?r]" "[?r, ?r]" "''u''" "''d''" "''x''" ?r] show ?thesis
    by (auto simp: matches_def EffectAllow_def)
qed

text \<open>Only the name in the decision depends on the order, when two matching rules give the same
  lifetime.\<close>

lemma policy_name_depends_on_order:
  fixes r :: rule
  defines "r \<equiv> \<lparr>r_PolicyID = ''p1'', r_Principals = [''u''], r_Devices = [''d''], r_Resources = [''x''],
      r_MaxTTL = 0, r_Effect = ''allow''\<rparr>"
  shows "d_PolicyID (Evaluate [r, r\<lparr>r_PolicyID := ''p2''\<rparr>] ''u'' ''d'' ''x'') = ''p1''"
    and "d_PolicyID (Evaluate [r\<lparr>r_PolicyID := ''p2''\<rparr>, r] ''u'' ''d'' ''x'') = ''p2''"
  by (simp_all add: r_def Evaluate_def denied_def EffectAllow_def Let_def)

end
