(* ===== verification/Backoff.thy ===== *)
theory Backoff
  imports Complex_Main Sar_Prelude
begin

text \<open>
  Reconnect delays, \<open>internal/backoff/backoff.go\<close>. The growth of the ceiling is computed in
  \<open>float64\<close>; that arithmetic (conversion from an integer, product, \<open>math.Pow\<close>, comparison, test
  for infinity and conversion back) is one record of operations that the definitions take as an
  argument, and so is the random number generator.
\<close>

record 'f float_ops =
  f_of_int :: "int \<Rightarrow> 'f"
  f_mul :: "'f \<Rightarrow> 'f \<Rightarrow> 'f"
  f_pow :: "'f \<Rightarrow> 'f \<Rightarrow> 'f"
  f_ge :: "'f \<Rightarrow> 'f \<Rightarrow> bool"
  f_isInf :: "'f \<Rightarrow> bool"
  f_trunc :: "'f \<Rightarrow> int"

definition DefaultInitial :: duration where "DefaultInitial = 500 * Millisecond"
definition DefaultMax :: duration where "DefaultMax = 30 * Second"

record 'f bpolicy =
  b_Initial :: duration
  b_Max :: duration
  b_Factor :: 'f

text \<open>\<open>p.Factor <= 1\<close> is \<open>1 >= p.Factor\<close>; \<open>DefaultFactor\<close> is 2.\<close>

definition backoff_withDefaults :: "'f float_ops \<Rightarrow> 'f bpolicy \<Rightarrow> 'f bpolicy" where
  "backoff_withDefaults fl p =
    (let p = (if b_Initial p \<le> 0 then p\<lparr>b_Initial := DefaultInitial\<rparr> else p);
         p = (if b_Max p \<le> 0 then p\<lparr>b_Max := DefaultMax\<rparr> else p);
         p = (if f_ge fl (f_of_int fl 1) (b_Factor p) then p\<lparr>b_Factor := f_of_int fl 2\<rparr> else p);
         p = (if b_Initial p > b_Max p then p\<lparr>b_Initial := b_Max p\<rparr> else p)
     in p)"

record 'f bstate =
  bs_policy :: "'f bpolicy"
  bs_attempt :: nat

definition backoff_New :: "'f float_ops \<Rightarrow> 'f bpolicy \<Rightarrow> 'f bstate" where
  "backoff_New fl p = \<lparr>bs_policy = backoff_withDefaults fl p, bs_attempt = 0\<rparr>"

definition ceiling_of :: "'f float_ops \<Rightarrow> 'f bstate \<Rightarrow> duration" where
  "ceiling_of fl s =
    (if bs_attempt s = 0 then b_Initial (bs_policy s)
     else
       let grown = f_mul fl (f_of_int fl (b_Initial (bs_policy s)))
                     (f_pow fl (b_Factor (bs_policy s)) (f_of_int fl (int (bs_attempt s))))
       in if f_ge fl grown (f_of_int fl (b_Max (bs_policy s))) \<or> f_isInf fl grown
          then b_Max (bs_policy s)
          else f_trunc fl grown)"

text \<open>\<open>int64N\<close> is \<open>rand.Int64N\<close>.\<close>

definition backoff_Next :: "'f float_ops \<Rightarrow> (int \<Rightarrow> int) \<Rightarrow> 'f bstate \<Rightarrow> duration \<times> 'f bstate" where
  "backoff_Next fl int64N s =
    (let c = ceiling_of fl s; s = s\<lparr>bs_attempt := bs_attempt s + 1\<rparr> in
     if c \<le> 0 then (0, s) else (int64N (c + 1), s))"

definition backoff_Reset :: "'f bstate \<Rightarrow> 'f bstate" where
  "backoff_Reset s = s\<lparr>bs_attempt := 0\<rparr>"

section \<open>Delays are bounded\<close>

definition policy_ok :: "'f float_ops \<Rightarrow> 'f bpolicy \<Rightarrow> bool" where
  "policy_ok fl p \<longleftrightarrow> 0 < b_Initial p \<and> b_Initial p \<le> b_Max p \<and>
     f_ge fl (b_Factor p) (b_Factor p) \<and> \<not> f_ge fl (f_of_int fl 1) (b_Factor p)"

text \<open>What is needed of \<open>float64\<close>: a value that does not reach \<open>float64(m)\<close> truncates to at most
  \<open>m\<close>; growing a positive duration by a factor above one, short of some \<open>float64(m)\<close>, truncates to a
  non-negative number; and 2 is above 1. The factor must be a number: only a NaN is not
  \<open>>=\<close> itself.\<close>

definition float_ok :: "'f float_ops \<Rightarrow> bool" where
  "float_ok fl \<longleftrightarrow>
     (\<forall>g m. \<not> f_ge fl g (f_of_int fl m) \<longrightarrow> f_trunc fl g \<le> m) \<and>
     (\<forall>i f n m. 0 < i \<longrightarrow> f_ge fl f f \<longrightarrow> \<not> f_ge fl (f_of_int fl 1) f \<longrightarrow>
        \<not> f_ge fl (f_mul fl (f_of_int fl i) (f_pow fl f (f_of_int fl (int n)))) (f_of_int fl m) \<longrightarrow>
        0 \<le> f_trunc fl (f_mul fl (f_of_int fl i) (f_pow fl f (f_of_int fl (int n))))) \<and>
     f_ge fl (f_of_int fl 2) (f_of_int fl 2) \<and> \<not> f_ge fl (f_of_int fl 1) (f_of_int fl 2)"

lemma withDefaults_ok:
  assumes "float_ok fl" and "f_ge fl (b_Factor p) (b_Factor p)"
  shows "policy_ok fl (backoff_withDefaults fl p)"
  using assms by (auto simp: backoff_withDefaults_def policy_ok_def float_ok_def Let_def DefaultInitial_def DefaultMax_def
      duration_defs)

lemma float_ok_grown:
  assumes "float_ok fl" and "policy_ok fl p"
    and "\<not> f_ge fl (f_mul fl (f_of_int fl (b_Initial p)) (f_pow fl (b_Factor p) (f_of_int fl (int n)))) (f_of_int fl m)"
  shows "0 \<le> f_trunc fl (f_mul fl (f_of_int fl (b_Initial p)) (f_pow fl (b_Factor p) (f_of_int fl (int n))))"
  using assms unfolding float_ok_def policy_ok_def by blast

lemma ceiling_bounds:
  assumes "float_ok fl" and "policy_ok fl (bs_policy s)"
  shows "0 \<le> ceiling_of fl s \<and> ceiling_of fl s \<le> b_Max (bs_policy s)"
  using float_ok_grown [OF assms, of "bs_attempt s" "b_Max (bs_policy s)"] assms
  by (simp add: ceiling_of_def float_ok_def policy_ok_def Let_def)

text \<open>The states of one retry sequence.\<close>

inductive backoff_run :: "'f float_ops \<Rightarrow> (int \<Rightarrow> int) \<Rightarrow> 'f bpolicy \<Rightarrow> 'f bstate \<Rightarrow> bool"
  for fl :: "'f float_ops" and int64N and p where
  b_new: "backoff_run fl int64N p (backoff_New fl p)"
| b_next: "backoff_run fl int64N p s \<Longrightarrow> backoff_run fl int64N p (snd (backoff_Next fl int64N s))"
| b_reset: "backoff_run fl int64N p s \<Longrightarrow> backoff_run fl int64N p (backoff_Reset s)"

lemma backoff_run_policy: "backoff_run fl r p s \<Longrightarrow> bs_policy s = backoff_withDefaults fl p"
  by (induction rule: backoff_run.induct)
    (auto simp: backoff_New_def backoff_Next_def backoff_Reset_def Let_def)

text \<open>Exact arithmetic on rationals, for the witness.\<close>

definition rat_ops :: "rat float_ops" where
  "rat_ops = \<lparr>f_of_int = of_int, f_mul = (*), f_pow = (\<lambda>f n. f ^ nat \<lfloor>n\<rfloor>), f_ge = (\<ge>),
     f_isInf = (\<lambda>_. False), f_trunc = floor\<rparr>"

lemma rat_ops_ok: "float_ok rat_ops"
  by (auto simp: float_ok_def rat_ops_def floor_le_iff le_floor_iff)

section \<open>Properties\<close>



end
