(* ===== verification/Store_Tables.thy ===== *)
theory Store_Tables
  imports Sar_Prelude "HOL-Library.List_Lexorder" "HOL-Library.Char_ord" "HOL-Library.Product_Lexorder"
begin

text \<open>
  The control-plane database of \<open>internal/storage\<close>: its tables, the time columns, the audit trail
  (\<open>audit.go\<close>) and the schema versions (\<open>migrate.go\<close>). A table is the list of its rows in the
  order of insertion. SQLite is modelled as far as the statements use it: primary keys and unique
  columns refuse a second row, \<open>seq\<close> is an \<open>AUTOINCREMENT\<close> column, and a transaction that is not
  committed changes nothing. Each operation takes a function \<open>fails\<close> that says which of its calls
  to the database return an error, and the values of \<open>time.Now()\<close> it reads.
\<close>

named_theorems store_defs \<open>the operations of the store\<close>

section \<open>Errors\<close>

datatype store_err =
    ErrTokenUnknown | ErrTokenConsumed | ErrTokenExpired
  | ErrRevoked | ErrNotEnrolled
  | ErrSessionUnknown | ErrSessionExpired | ErrSessionRevoked
  | ErrGrantUnknown | ErrSchemaTooNew | ErrRetentionUnbounded
  | ErrNoEventName  \<comment> \<open>an audit event with no name\<close>
  | ErrUnknownScope
  | ErrSQL  \<comment> \<open>an error of the database, a violated constraint included\<close>
  | ErrFile  \<comment> \<open>a file that cannot be read or parsed\<close>

type_synonym faults = "nat \<Rightarrow> bool"
type_synonym ('a, 'd) result = "(store_err + 'a) \<times> 'd"

section \<open>Columns\<close>

text \<open>An \<open>INTEGER\<close> column is a signed 64-bit number; \<open>unix\<close>, \<open>fromUnix\<close>, \<open>nullUnix\<close> and
  \<open>fromNullUnix\<close> convert times, and the byte counters go through \<open>int64\<close> and \<open>uint64\<close>.\<close>

definition unix :: "time \<Rightarrow> int" where
  "unix t = sint (Unix_secs (Truncate_sec t))"

definition fromUnix :: "int \<Rightarrow> time" where
  "fromUnix v = time_Unix (word_of_int v)"

definition nullUnix :: "time option \<Rightarrow> int option" where
  "nullUnix t = (case t of None \<Rightarrow> None | Some t \<Rightarrow> Some (unix t))"

definition fromNullUnix :: "int option \<Rightarrow> time option" where
  "fromNullUnix v = (case v of None \<Rightarrow> None | Some v \<Rightarrow> Some (fromUnix v))"

definition int64 :: "u64 \<Rightarrow> int" where "int64 w = sint w"
definition uint64 :: "int \<Rightarrow> u64" where "uint64 v = word_of_int v"

lemma uint64_int64 [simp]: "uint64 (int64 w) = w"
  by (simp add: uint64_def int64_def)

lemma fromUnix_unix [simp]: "time_ok t \<Longrightarrow> fromUnix (unix t) = Truncate_sec t"
  by (simp add: fromUnix_def unix_def time_Unix_Unix_secs)

lemma fromNullUnix_None [simp]: "fromNullUnix v = None \<longleftrightarrow> v = None"
  by (simp add: fromNullUnix_def split: option.split)

text \<open>Times between the zero time and some hundred billion years later, where the 64-bit
  seconds do not wrap.\<close>

definition time_sane :: "time \<Rightarrow> bool" where
  "time_sane t \<longleftrightarrow> 0 \<le> t \<and> t div Second < 2 ^ 62"

lemma time_sane_ok: "time_sane t \<Longrightarrow> time_ok t"
  by (auto simp: time_sane_def time_ok_def pos_imp_zdiv_nonneg_iff intro: order_trans [of _ "0 :: int"])

lemma unix_sane:
  assumes "time_sane t"
  shows "unix t = t div Second - unixToInternal"
proof -
  have "0 \<le> t div Second" "t div Second < 2 ^ 62"
    using assms by (simp_all add: time_sane_def pos_imp_zdiv_nonneg_iff)
  then have "signed_take_bit 63 (t div Second - unixToInternal) = t div Second - unixToInternal"
    by (intro signed_take_bit_int_eq_self) (simp_all add: unixToInternal_def)
  then show ?thesis
    unfolding unix_def Unix_secs_Truncate Unix_secs_def
    by (simp add: sint_sbintrunc' del: of_int_diff flip: of_int_diff)
qed

lemma unix_less: "time_sane t \<Longrightarrow> time_sane u \<Longrightarrow> unix t < unix u \<Longrightarrow> t < u"
  by (simp add: unix_sane) (meson linorder_not_less zdiv_mono1 Second_pos)

lemma unix_le: "time_sane t \<Longrightarrow> time_sane u \<Longrightarrow> t \<le> u \<Longrightarrow> unix t \<le> unix u"
  by (simp add: unix_sane zdiv_mono1)

section \<open>Tables\<close>

record id_row =
  i_role :: string
  i_id :: string
  i_enrolled_at :: int
  i_serial_hex :: string
  i_revoked_at :: "int option"
  i_pending_serial_hex :: string
  i_pending_issued_at :: "int option"

record token_row =
  t_hash :: string
  t_role :: string
  t_id :: string
  t_issued_at :: int
  t_expires_at :: int
  t_consumed_at :: "int option"

record session_row =
  s_session_id :: string
  s_token_hash :: string
  s_user_id :: string
  s_created_at :: int
  s_expires_at :: int
  s_revoked_at :: "int option"
  s_remote :: string

record grant_row =
  gt_grant_id :: string
  gt_org_id :: string
  gt_user_id :: string
  gt_device_id :: string
  gt_resource_id :: string
  gt_policy_id :: string
  gt_session_id :: "string option"
  gt_issued_at :: int
  gt_expires_at :: int
  gt_max_bytes :: int
  gt_revoked_at :: "int option"
  gt_revoke_reason :: string

record audit_row =
  a_seq :: int
  a_ts :: int
  a_event :: string
  a_org_id :: string
  a_actor_role :: string
  a_actor_id :: string
  a_device_id :: string
  a_resource_id :: string
  a_grant_id :: string
  a_session_id :: string
  a_reason :: string
  a_bytes_in :: int
  a_bytes_out :: int
  a_duration_ms :: int
  a_detail :: string

record db =
  identities :: "id_row list"
  enrollment_tokens :: "token_row list"
  operator_sessions :: "session_row list"
  grants :: "grant_row list"
  audit_events :: "audit_row list"
  audit_last :: int  \<comment> \<open>the largest \<open>seq\<close> ever assigned\<close>

definition empty_db :: db where
  "empty_db = \<lparr>identities = [], enrollment_tokens = [], operator_sessions = [], grants = [],
     audit_events = [], audit_last = 0\<rparr>"

text \<open>\<open>UPDATE ... WHERE\<close>, and the answer of a transaction that reaches its commit.\<close>

definition update_where :: "('r \<Rightarrow> bool) \<Rightarrow> ('r \<Rightarrow> 'r) \<Rightarrow> 'r list \<Rightarrow> 'r list" where
  "update_where p f rows = map (\<lambda>r. if p r then f r else r) rows"

definition affects :: "('r \<Rightarrow> bool) \<Rightarrow> 'r list \<Rightarrow> bool" where
  "affects p rows \<longleftrightarrow> filter p rows \<noteq> []"

definition commit :: "bool \<Rightarrow> 'd \<Rightarrow> 'a \<Rightarrow> 'd \<Rightarrow> ('a, 'd) result" where
  "commit failed old x new = (if failed then (Inl ErrSQL, old) else (Inr x, new))"

section \<open>The audit trail\<close>

record audit_event =
  e_Seq :: int
  e_At :: time
  e_Event :: string
  e_OrgID :: string
  e_ActorRole :: string
  e_ActorID :: string
  e_DeviceID :: string
  e_ResourceID :: string
  e_GrantID :: string
  e_SessionID :: string
  e_Reason :: string
  e_BytesIn :: u64
  e_BytesOut :: u64
  e_DurationMS :: int
  e_Detail :: string

text \<open>The Go zero value, from which the composite literals of the sources start.\<close>

definition no_event :: audit_event where
  "no_event = \<lparr>e_Seq = 0, e_At = zero_time, e_Event = [], e_OrgID = [], e_ActorRole = [], e_ActorID = [],
     e_DeviceID = [], e_ResourceID = [], e_GrantID = [], e_SessionID = [], e_Reason = [], e_BytesIn = 0,
     e_BytesOut = 0, e_DurationMS = 0, e_Detail = []\<rparr>"

definition maxSeq :: int where "maxSeq = 2 ^ 63 - 1"

definition audit_row_of :: "int \<Rightarrow> audit_event \<Rightarrow> audit_row" where
  "audit_row_of seq e = \<lparr>a_seq = seq, a_ts = unix (e_At e), a_event = e_Event e, a_org_id = e_OrgID e,
     a_actor_role = e_ActorRole e, a_actor_id = e_ActorID e, a_device_id = e_DeviceID e,
     a_resource_id = e_ResourceID e, a_grant_id = e_GrantID e, a_session_id = e_SessionID e,
     a_reason = e_Reason e, a_bytes_in = int64 (e_BytesIn e), a_bytes_out = int64 (e_BytesOut e),
     a_duration_ms = e_DurationMS e, a_detail = e_Detail e\<rparr>"

definition appendAudit :: "bool \<Rightarrow> time \<Rightarrow> audit_event \<Rightarrow> db \<Rightarrow> store_err + db" where
  "appendAudit failed now e d =
    (let e = (if IsZero (e_At e) then e\<lparr>e_At := now\<rparr> else e) in
     if e_Event e = [] then Inl ErrNoEventName
     else if failed \<or> audit_last d \<ge> maxSeq then Inl ErrSQL
     else Inr (d\<lparr>audit_events := audit_events d @ [audit_row_of (audit_last d + 1) e],
                audit_last := audit_last d + 1\<rparr>))"

definition AppendAudit :: "faults \<Rightarrow> time \<Rightarrow> audit_event \<Rightarrow> db \<Rightarrow> (unit, db) result" where
  [store_defs]: "AppendAudit fails now e d =
    (case appendAudit (fails 0) now e d of Inl er \<Rightarrow> (Inl er, d) | Inr d' \<Rightarrow> (Inr (), d'))"

definition DefaultAuditLimit :: int where "DefaultAuditLimit = 100"
definition MaxAuditLimit :: int where "MaxAuditLimit = 10000"

text \<open>The limit of a listing, as all three listings compute it.\<close>

definition clamp_limit :: "int \<Rightarrow> nat" where
  "clamp_limit l =
    (let l = (if l \<le> 0 then DefaultAuditLimit else l);
         l = (if l > MaxAuditLimit then MaxAuditLimit else l) in nat l)"

record audit_filter =
  af_Since :: time
  af_Until :: time
  af_Event :: string
  af_ActorID :: string
  af_DeviceID :: string
  af_ResourceID :: string
  af_GrantID :: string
  af_Limit :: int

definition audit_match :: "audit_filter \<Rightarrow> audit_row \<Rightarrow> bool" where
  "audit_match f r \<longleftrightarrow>
     (\<not> IsZero (af_Since f) \<longrightarrow> a_ts r \<ge> unix (af_Since f)) \<and>
     (\<not> IsZero (af_Until f) \<longrightarrow> a_ts r \<le> unix (af_Until f)) \<and>
     (af_Event f \<noteq> [] \<longrightarrow> a_event r = af_Event f) \<and>
     (af_ActorID f \<noteq> [] \<longrightarrow> a_actor_id r = af_ActorID f) \<and>
     (af_DeviceID f \<noteq> [] \<longrightarrow> a_device_id r = af_DeviceID f) \<and>
     (af_ResourceID f \<noteq> [] \<longrightarrow> a_resource_id r = af_ResourceID f) \<and>
     (af_GrantID f \<noteq> [] \<longrightarrow> a_grant_id r = af_GrantID f)"

definition event_of :: "audit_row \<Rightarrow> audit_event" where
  "event_of r = \<lparr>e_Seq = a_seq r, e_At = fromUnix (a_ts r), e_Event = a_event r, e_OrgID = a_org_id r,
     e_ActorRole = a_actor_role r, e_ActorID = a_actor_id r, e_DeviceID = a_device_id r,
     e_ResourceID = a_resource_id r, e_GrantID = a_grant_id r, e_SessionID = a_session_id r,
     e_Reason = a_reason r, e_BytesIn = uint64 (a_bytes_in r), e_BytesOut = uint64 (a_bytes_out r),
     e_DurationMS = a_duration_ms r, e_Detail = a_detail r\<rparr>"

text \<open>\<open>ORDER BY seq DESC LIMIT\<close>.\<close>

definition QueryAudit :: "faults \<Rightarrow> audit_filter \<Rightarrow> db \<Rightarrow> store_err + audit_event list" where
  "QueryAudit fails f d =
    (if fails 0 then Inl ErrSQL
     else Inr (map event_of (take (clamp_limit (af_Limit f))
       (rev (sort_key a_seq (filter (audit_match f) (audit_events d)))))))"

definition CountAudit :: "faults \<Rightarrow> db \<Rightarrow> store_err + nat" where
  "CountAudit fails d = (if fails 0 then Inl ErrSQL else Inr (length (audit_events d)))"

definition AuditSpan :: "faults \<Rightarrow> db \<Rightarrow> store_err + (nat \<times> time)" where
  "AuditSpan fails d =
    (if fails 0 then Inl ErrSQL
     else Inr (length (audit_events d),
       if audit_events d = [] then zero_time else fromUnix (Min (a_ts ` set (audit_events d)))))"

text \<open>\<open>detail\<close> is the formatted message of the number of rows and the cutoff.\<close>

definition PruneAudit ::
  "(nat \<Rightarrow> time \<Rightarrow> string) \<Rightarrow> faults \<Rightarrow> time \<Rightarrow> time \<Rightarrow> string \<Rightarrow> db \<Rightarrow> (nat, db) result" where
  [store_defs]: "PruneAudit detail fails now before actorID d =
    (if IsZero before then (Inl ErrRetentionUnbounded, d)
     else if fails 0 \<or> fails 1 \<or> fails 2 then (Inl ErrSQL, d)
     else
       let old = (\<lambda>r. a_ts r < unix before);
           removed = length (filter old (audit_events d));
           d' = d\<lparr>audit_events := filter (\<lambda>r. \<not> old r) (audit_events d)\<rparr> in
       case appendAudit (fails 3) now
              (no_event\<lparr>e_Event := ''admin.action'', e_ActorRole := ''admin'', e_ActorID := actorID,
                 e_Reason := ''audit_retention'', e_Detail := detail removed before\<rparr>) d' of
         Inl e \<Rightarrow> (Inl e, d)
       | Inr d'' \<Rightarrow> commit (fails 4) d removed d'')"

section \<open>Schema versions\<close>

text \<open>The schema is its version number (\<open>PRAGMA user_version\<close>); \<open>ok v\<close> says whether the
  statements and the commit of the step to version \<open>v\<close> succeed.\<close>

definition SchemaVersion :: nat where "SchemaVersion = 2"

fun migrate_from :: "nat \<Rightarrow> (nat \<Rightarrow> bool) \<Rightarrow> nat \<Rightarrow> (store_err + unit) \<times> nat" where
  "migrate_from 0 ok v = (Inr (), v)"
| "migrate_from (Suc n) ok v =
    (if ok (v + 1) then migrate_from n ok (v + 1) else (Inl ErrSQL, v))"

definition migrate :: "bool \<Rightarrow> (nat \<Rightarrow> bool) \<Rightarrow> nat \<Rightarrow> (store_err + unit) \<times> nat" where
  "migrate failed ok current =
    (if failed then (Inl ErrSQL, current)
     else if current > SchemaVersion then (Inl ErrSchemaTooNew, current)
     else if current = SchemaVersion then (Inr (), current)
     else migrate_from (SchemaVersion - current) ok current)"

end
