(* ===== verification/Store_Identities.thy ===== *)
theory Store_Identities
  imports Store_Tables
begin

text \<open>
  Enrolled identities and enrollment tokens, \<open>internal/storage/identities.go\<close>, and the import of
  the former JSON file, \<open>import.go\<close>. SHA-256 is a parameter of the operations that hash a token.
\<close>

section \<open>Hashes\<close>

definition hex_digit :: "nat \<Rightarrow> char" where
  "hex_digit n = (if n < 10 then char_of (48 + n) else char_of (87 + n))"

fun hex_encode :: "byte list \<Rightarrow> string" where
  "hex_encode [] = []"
| "hex_encode (b # bs) = hex_digit (unat b div 16) # hex_digit (unat b mod 16) # hex_encode bs"

type_synonym sha = "byte list \<Rightarrow> byte list"

definition HashToken :: "sha \<Rightarrow> string \<Rightarrow> string" where
  "HashToken sha256 token = hex_encode (sha256 (bytes_of token))"

section \<open>Tokens\<close>

record token =
  k_Hash :: string
  k_Role :: string
  k_ID :: string
  k_IssuedAt :: time
  k_ExpiresAt :: time
  k_ConsumedAt :: "time option"

text \<open>\<open>ON CONFLICT(hash) DO UPDATE\<close> leaves the column \<open>consumed_at\<close> of the row alone.\<close>

definition PutToken :: "faults \<Rightarrow> token \<Rightarrow> db \<Rightarrow> (unit, db) result" where
  [store_defs]: "PutToken fails t d =
    (if fails 0 then (Inl ErrSQL, d)
     else if affects (\<lambda>r. t_hash r = k_Hash t) (enrollment_tokens d) then
       (Inr (), d\<lparr>enrollment_tokens := update_where (\<lambda>r. t_hash r = k_Hash t)
          (\<lambda>r. r\<lparr>t_role := k_Role t, t_id := k_ID t, t_issued_at := unix (k_IssuedAt t),
                 t_expires_at := unix (k_ExpiresAt t)\<rparr>) (enrollment_tokens d)\<rparr>)
     else
       (Inr (), d\<lparr>enrollment_tokens := enrollment_tokens d @
          [\<lparr>t_hash = k_Hash t, t_role = k_Role t, t_id = k_ID t, t_issued_at = unix (k_IssuedAt t),
            t_expires_at = unix (k_ExpiresAt t), t_consumed_at = nullUnix (k_ConsumedAt t)\<rparr>]\<rparr>))"

definition token_of :: "token_row \<Rightarrow> token" where
  "token_of r = \<lparr>k_Hash = t_hash r, k_Role = t_role r, k_ID = t_id r, k_IssuedAt = fromUnix (t_issued_at r),
     k_ExpiresAt = fromUnix (t_expires_at r), k_ConsumedAt = fromNullUnix (t_consumed_at r)\<rparr>"

definition ConsumeToken ::
  "sha \<Rightarrow> faults \<Rightarrow> time \<Rightarrow> time \<Rightarrow> string \<Rightarrow> db \<Rightarrow> (token, db) result" where
  [store_defs]: "ConsumeToken sha256 fails now now' tok d =
    (let hash = HashToken sha256 tok in
     if fails 0 then (Inl ErrSQL, d)
     else if fails 1 then (Inl ErrSQL, d)
     else case find (\<lambda>r. t_hash r = hash) (enrollment_tokens d) of
       None \<Rightarrow> (Inl ErrTokenUnknown, d)
     | Some r \<Rightarrow>
         let t = token_of r; unused = (\<lambda>r. t_hash r = hash \<and> t_consumed_at r = None) in
         if k_ConsumedAt t \<noteq> None then (Inl ErrTokenConsumed, d)
         else if now > k_ExpiresAt t then (Inl ErrTokenExpired, d)
         else if fails 2 \<or> fails 3 then (Inl ErrSQL, d)
         else if \<not> affects unused (enrollment_tokens d) then (Inl ErrTokenConsumed, d)
         else commit (fails 4) d (t\<lparr>k_ConsumedAt := Some now'\<rparr>)
           (d\<lparr>enrollment_tokens := update_where unused (\<lambda>r. r\<lparr>t_consumed_at := Some (unix now')\<rparr>)
              (enrollment_tokens d)\<rparr>))"

section \<open>Identities\<close>

record id_record =
  r_ID :: string
  r_Role :: string
  r_EnrolledAt :: time
  r_SerialHex :: string
  r_Revoked :: bool
  r_RevokedAt :: "time option"
  r_PendingSerialHex :: string
  r_PendingIssuedAt :: "time option"

abbreviation id_is :: "string \<Rightarrow> string \<Rightarrow> id_row \<Rightarrow> bool" where
  "id_is role ident r \<equiv> i_role r = role \<and> i_id r = ident"

definition PutRecord :: "faults \<Rightarrow> id_record \<Rightarrow> db \<Rightarrow> (unit, db) result" where
  [store_defs]: "PutRecord fails r d =
    (if fails 0 then (Inl ErrSQL, d)
     else if affects (id_is (r_Role r) (r_ID r)) (identities d) then
       (Inr (), d\<lparr>identities := update_where (id_is (r_Role r) (r_ID r))
          (\<lambda>row. row\<lparr>i_enrolled_at := unix (r_EnrolledAt r), i_serial_hex := r_SerialHex r,
             i_revoked_at := nullUnix (r_RevokedAt r), i_pending_serial_hex := [],
             i_pending_issued_at := None\<rparr>) (identities d)\<rparr>)
     else
       (Inr (), d\<lparr>identities := identities d @
          [\<lparr>i_role = r_Role r, i_id = r_ID r, i_enrolled_at = unix (r_EnrolledAt r),
            i_serial_hex = r_SerialHex r, i_revoked_at = nullUnix (r_RevokedAt r),
            i_pending_serial_hex = [], i_pending_issued_at = None\<rparr>]\<rparr>))"

definition record_of :: "id_row \<Rightarrow> id_record" where
  "record_of r = \<lparr>r_ID = i_id r, r_Role = i_role r, r_EnrolledAt = fromUnix (i_enrolled_at r),
     r_SerialHex = i_serial_hex r, r_Revoked = (i_revoked_at r \<noteq> None),
     r_RevokedAt = fromNullUnix (i_revoked_at r), r_PendingSerialHex = i_pending_serial_hex r,
     r_PendingIssuedAt = fromNullUnix (i_pending_issued_at r)\<rparr>"

definition lookupAny :: "bool \<Rightarrow> string \<Rightarrow> string \<Rightarrow> db \<Rightarrow> store_err + id_record" where
  "lookupAny failed role ident d =
    (if failed then Inl ErrSQL
     else case find (id_is role ident) (identities d) of
       None \<Rightarrow> Inl ErrNotEnrolled
     | Some r \<Rightarrow> Inr (record_of r))"

definition Lookup :: "bool \<Rightarrow> string \<Rightarrow> string \<Rightarrow> db \<Rightarrow> store_err + id_record" where
  "Lookup failed role ident d =
    (case lookupAny failed role ident d of
       Inl e \<Rightarrow> Inl e
     | Inr r \<Rightarrow> if r_Revoked r then Inl ErrRevoked else Inr r)"

text \<open>The statement is committed on its own, so an error after it does not undo it.\<close>

definition PutPendingSerial ::
  "faults \<Rightarrow> time \<Rightarrow> string \<Rightarrow> string \<Rightarrow> string \<Rightarrow> db \<Rightarrow> (unit, db) result" where
  [store_defs]: "PutPendingSerial fails now role ident serialHex d =
    (if fails 0 then (Inl ErrSQL, d)
     else
       let live = (\<lambda>r. id_is role ident r \<and> i_revoked_at r = None);
           d' = d\<lparr>identities := update_where live
             (\<lambda>r. r\<lparr>i_pending_serial_hex := serialHex, i_pending_issued_at := Some (unix now)\<rparr>)
             (identities d)\<rparr> in
       if fails 1 then (Inl ErrSQL, d')
       else if \<not> affects live (identities d) then
         (case lookupAny (fails 2) role ident d' of Inl e \<Rightarrow> (Inl e, d') | Inr _ \<Rightarrow> (Inl ErrRevoked, d'))
       else (Inr (), d'))"

definition PromoteSerial :: "faults \<Rightarrow> string \<Rightarrow> string \<Rightarrow> string \<Rightarrow> db \<Rightarrow> (unit, db) result" where
  [store_defs]: "PromoteSerial fails role ident serialHex d =
    (if fails 0 then (Inl ErrSQL, d)
     else (Inr (), d\<lparr>identities := update_where
       (\<lambda>r. id_is role ident r \<and> i_pending_serial_hex r = serialHex \<and> i_revoked_at r = None)
       (\<lambda>r. r\<lparr>i_serial_hex := i_pending_serial_hex r, i_pending_serial_hex := [], i_pending_issued_at := None\<rparr>)
       (identities d)\<rparr>))"

definition Revoke :: "faults \<Rightarrow> time \<Rightarrow> string \<Rightarrow> string \<Rightarrow> db \<Rightarrow> (unit, db) result" where
  [store_defs]: "Revoke fails now role ident d =
    (if fails 0 then (Inl ErrSQL, d)
     else
       let live = (\<lambda>r. id_is role ident r \<and> i_revoked_at r = None);
           d' = d\<lparr>identities := update_where live (\<lambda>r. r\<lparr>i_revoked_at := Some (unix now)\<rparr>) (identities d)\<rparr> in
       if fails 1 then (Inl ErrSQL, d')
       else if \<not> affects live (identities d) then
         (case lookupAny (fails 2) role ident d' of Inl e \<Rightarrow> (Inl e, d') | Inr _ \<Rightarrow> (Inr (), d'))
       else (Inr (), d'))"

text \<open>\<open>ORDER BY id\<close>. A failing query gives the empty list; \<open>bad n\<close> says that the row after \<open>n\<close> others
  cannot be scanned, which ends the listing.\<close>

definition List_identities :: "bool \<Rightarrow> nat option \<Rightarrow> string \<Rightarrow> db \<Rightarrow> id_record list" where
  "List_identities failed bad role d =
    (if failed then []
     else let rows = map record_of (sort_key i_id (filter (\<lambda>r. i_role r = role) (identities d))) in
       case bad of None \<Rightarrow> rows | Some n \<Rightarrow> take n rows)"

section \<open>The former JSON store\<close>

text \<open>Go ranges over the three maps in an arbitrary order, here the order of the lists. \<open>file\<close> is
  the content of the file (\<open>None\<close> when it does not exist, \<open>Inl\<close> when it cannot be read) and
  \<open>unmarshal\<close> the JSON decoder.\<close>

record legacyState =
  l_Devices :: "id_record list"
  l_Operators :: "id_record list"
  l_Tokens :: "token list"

fun import_ids :: "(nat \<Rightarrow> bool) \<Rightarrow> nat \<Rightarrow> string \<Rightarrow> id_record list \<Rightarrow> db \<Rightarrow> store_err + db" where
  "import_ids fails k role [] d = Inr d"
| "import_ids fails k role (r # rs) d =
    (if fails k \<or> affects (id_is role (r_ID r)) (identities d) then Inl ErrSQL
     else import_ids fails (k + 1) role rs (d\<lparr>identities := identities d @
       [\<lparr>i_role = role, i_id = r_ID r, i_enrolled_at = unix (r_EnrolledAt r), i_serial_hex = r_SerialHex r,
         i_revoked_at = nullUnix (r_RevokedAt r), i_pending_serial_hex = [], i_pending_issued_at = None\<rparr>]\<rparr>))"

fun import_tokens :: "(nat \<Rightarrow> bool) \<Rightarrow> nat \<Rightarrow> token list \<Rightarrow> db \<Rightarrow> store_err + (nat \<times> db)" where
  "import_tokens fails n [] d = Inr (n, d)"
| "import_tokens fails n (t # ts) d =
    (if k_ConsumedAt t \<noteq> None then import_tokens fails n ts d
     else if fails n \<or> affects (\<lambda>r. t_hash r = k_Hash t) (enrollment_tokens d) then Inl ErrSQL
     else import_tokens fails (n + 1) ts (d\<lparr>enrollment_tokens := enrollment_tokens d @
       [\<lparr>t_hash = k_Hash t, t_role = k_Role t, t_id = k_ID t, t_issued_at = unix (k_IssuedAt t),
         t_expires_at = unix (k_ExpiresAt t), t_consumed_at = None\<rparr>]\<rparr>))"

definition ImportLegacyJSON ::
  "(nat \<Rightarrow> string) \<Rightarrow> (string \<Rightarrow> legacyState option) \<Rightarrow> (unit + string) option \<Rightarrow> faults \<Rightarrow> (nat \<Rightarrow> bool) \<Rightarrow>
     time \<Rightarrow> db \<Rightarrow> (nat, db) result" where
  [store_defs]: "ImportLegacyJSON detail unmarshal file fails fails_row now d =
    (case file of
       None \<Rightarrow> (Inr 0, d)
     | Some (Inl _) \<Rightarrow> (Inl ErrFile, d)
     | Some (Inr b) \<Rightarrow>
         if fails 0 then (Inl ErrSQL, d)
         else if identities d \<noteq> [] then (Inr 0, d)
         else case unmarshal b of
           None \<Rightarrow> (Inl ErrFile, d)
         | Some st \<Rightarrow>
             if fails 1 then (Inl ErrSQL, d)
             else case import_ids fails_row 0 ''device'' (l_Devices st) d of
               Inl e \<Rightarrow> (Inl e, d)
             | Inr d1 \<Rightarrow>
             (case import_ids fails_row (length (l_Devices st)) ''operator'' (l_Operators st) d1 of
               Inl e \<Rightarrow> (Inl e, d)
             | Inr d2 \<Rightarrow>
             (case import_tokens fails_row (length (l_Devices st) + length (l_Operators st)) (l_Tokens st) d2 of
               Inl e \<Rightarrow> (Inl e, d)
             | Inr (imported, d3) \<Rightarrow>
                 if imported > 0 then
                   (case appendAudit (fails 2) now
                      (no_event\<lparr>e_At := now, e_Event := ''admin.action'', e_ActorRole := ''admin'',
                         e_Detail := detail imported\<rparr>) d3 of
                      Inl e \<Rightarrow> (Inl e, d)
                    | Inr d4 \<Rightarrow> commit (fails 3) d imported d4)
                 else commit (fails 3) d imported d3)))"

end
