(* ===== verification/Store_Access.thy ===== *)
theory Store_Access
  imports Store_Identities
begin

text \<open>
  Operator sessions (\<open>internal/storage/sessions.go\<close>) and issued grants (\<open>grants.go\<close>). Each
  operation that changes them runs in one transaction with the audit event that describes it.
\<close>

section \<open>Sessions\<close>

record session_record =
  sr_SessionID :: string
  sr_TokenHash :: string
  sr_UserID :: string
  sr_CreatedAt :: time
  sr_ExpiresAt :: time
  sr_RevokedAt :: "time option"
  sr_Remote :: string

definition session_Active :: "session_record \<Rightarrow> time \<Rightarrow> bool" where
  "session_Active r now \<longleftrightarrow> sr_RevokedAt r = None \<and> now < sr_ExpiresAt r"

text \<open>\<open>session_id\<close> is the primary key and \<open>token_hash\<close> is unique.\<close>

definition CreateSession :: "faults \<Rightarrow> time \<Rightarrow> session_record \<Rightarrow> audit_event \<Rightarrow> db \<Rightarrow> (unit, db) result" where
  [store_defs]: "CreateSession fails now r e d =
    (if fails 0 then (Inl ErrSQL, d)
     else if fails 1 \<or> affects (\<lambda>x. s_session_id x = sr_SessionID r \<or> s_token_hash x = sr_TokenHash r)
       (operator_sessions d) then (Inl ErrSQL, d)
     else
       case appendAudit (fails 2) now e (d\<lparr>operator_sessions := operator_sessions d @
         [\<lparr>s_session_id = sr_SessionID r, s_token_hash = sr_TokenHash r, s_user_id = sr_UserID r,
           s_created_at = unix (sr_CreatedAt r), s_expires_at = unix (sr_ExpiresAt r),
           s_revoked_at = None, s_remote = sr_Remote r\<rparr>]\<rparr>) of
         Inl er \<Rightarrow> (Inl er, d)
       | Inr d' \<Rightarrow> commit (fails 3) d () d')"

definition session_of :: "session_row \<Rightarrow> session_record" where
  "session_of x = \<lparr>sr_SessionID = s_session_id x, sr_TokenHash = s_token_hash x, sr_UserID = s_user_id x,
     sr_CreatedAt = fromUnix (s_created_at x), sr_ExpiresAt = fromUnix (s_expires_at x),
     sr_RevokedAt = fromNullUnix (s_revoked_at x), sr_Remote = s_remote x\<rparr>"

text \<open>The source returns the record beside the errors \<open>ErrSessionRevoked\<close> and \<open>ErrSessionExpired\<close>; no
  caller reads it then.\<close>

definition LookupSession :: "sha \<Rightarrow> bool \<Rightarrow> time \<Rightarrow> string \<Rightarrow> db \<Rightarrow> store_err + session_record" where
  "LookupSession sha256 failed now tok d =
    (if failed then Inl ErrSQL
     else case find (\<lambda>x. s_token_hash x = HashToken sha256 tok) (operator_sessions d) of
       None \<Rightarrow> Inl ErrSessionUnknown
     | Some x \<Rightarrow>
         let r = session_of x in
         if sr_RevokedAt r \<noteq> None then Inl ErrSessionRevoked
         else if now > sr_ExpiresAt r then Inl ErrSessionExpired
         else Inr r)"

definition LookupSessionByID :: "bool \<Rightarrow> string \<Rightarrow> db \<Rightarrow> store_err + session_record" where
  "LookupSessionByID failed sid d =
    (if failed then Inl ErrSQL
     else case find (\<lambda>x. s_session_id x = sid) (operator_sessions d) of
       None \<Rightarrow> Inl ErrSessionUnknown
     | Some x \<Rightarrow> Inr (session_of x))"

definition RevokeSession ::
  "faults \<Rightarrow> time \<Rightarrow> string \<Rightarrow> string \<Rightarrow> audit_event \<Rightarrow> db \<Rightarrow> (session_record, db) result" where
  [store_defs]: "RevokeSession fails now sid reason actor d =
    (if fails 0 then (Inl ErrSQL, d)
     else if fails 1 then (Inl ErrSQL, d)
     else case find (\<lambda>x. s_session_id x = sid) (operator_sessions d) of
       None \<Rightarrow> (Inl ErrSessionUnknown, d)
     | Some x \<Rightarrow>
         let r = session_of x in
         if sr_RevokedAt r \<noteq> None then (Inr r, d)
         else if fails 2 then (Inl ErrSQL, d)
         else
           let d' = d\<lparr>operator_sessions := update_where (\<lambda>x. s_session_id x = sid \<and> s_revoked_at x = None)
                 (\<lambda>x. x\<lparr>s_revoked_at := Some (unix now)\<rparr>) (operator_sessions d)\<rparr> in
           case appendAudit (fails 3) now (actor\<lparr>e_SessionID := sr_SessionID r, e_Reason := reason\<rparr>) d' of
             Inl er \<Rightarrow> (Inl er, d)
           | Inr d'' \<Rightarrow> commit (fails 4) d (r\<lparr>sr_RevokedAt := Some now\<rparr>) d'')"

record session_filter =
  sf_UserID :: string
  sf_ActiveOnly :: bool
  sf_Limit :: int

definition session_match :: "time \<Rightarrow> session_filter \<Rightarrow> session_row \<Rightarrow> bool" where
  "session_match now f x \<longleftrightarrow>
     (sf_UserID f \<noteq> [] \<longrightarrow> s_user_id x = sf_UserID f) \<and>
     (sf_ActiveOnly f \<longrightarrow> s_revoked_at x = None \<and> s_expires_at x > unix now)"

text \<open>\<open>ORDER BY created_at DESC, session_id DESC LIMIT\<close>.\<close>

definition ListSessions :: "faults \<Rightarrow> time \<Rightarrow> session_filter \<Rightarrow> db \<Rightarrow> store_err + session_record list" where
  "ListSessions fails now f d =
    (if fails 0 then Inl ErrSQL
     else Inr (map session_of (take (clamp_limit (sf_Limit f))
       (rev (sort_key (\<lambda>x. (s_created_at x, s_session_id x)) (filter (session_match now f) (operator_sessions d)))))))"

definition ActiveSessionsForUser :: "faults \<Rightarrow> time \<Rightarrow> string \<Rightarrow> db \<Rightarrow> store_err + session_record list" where
  "ActiveSessionsForUser fails now userID d =
    ListSessions fails now \<lparr>sf_UserID = userID, sf_ActiveOnly = True, sf_Limit = MaxAuditLimit\<rparr> d"

section \<open>Grants\<close>

record grant_record =
  gr_GrantID :: string
  gr_OrgID :: string
  gr_UserID :: string
  gr_DeviceID :: string
  gr_ResourceID :: string
  gr_PolicyID :: string
  gr_SessionID :: string
  gr_IssuedAt :: time
  gr_ExpiresAt :: time
  gr_MaxBytes :: u64
  gr_RevokedAt :: "time option"
  gr_RevokeReason :: string

definition grant_Revoked :: "grant_record \<Rightarrow> bool" where
  "grant_Revoked g \<longleftrightarrow> gr_RevokedAt g \<noteq> None"

definition grant_Expired :: "grant_record \<Rightarrow> time \<Rightarrow> bool" where
  "grant_Expired g now \<longleftrightarrow> now > gr_ExpiresAt g"

definition grant_Usable :: "grant_record \<Rightarrow> time \<Rightarrow> bool" where
  "grant_Usable g now \<longleftrightarrow> \<not> grant_Revoked g \<and> \<not> grant_Expired g now"

text \<open>\<open>grant_id\<close> is the primary key; \<open>session_id\<close> refers to a session or is \<open>NULL\<close>.\<close>

definition grant_row_of :: "grant_record \<Rightarrow> grant_row" where
  "grant_row_of g = \<lparr>gt_grant_id = gr_GrantID g, gt_org_id = gr_OrgID g, gt_user_id = gr_UserID g,
     gt_device_id = gr_DeviceID g, gt_resource_id = gr_ResourceID g, gt_policy_id = gr_PolicyID g,
     gt_session_id = (if gr_SessionID g \<noteq> [] then Some (gr_SessionID g) else None),
     gt_issued_at = unix (gr_IssuedAt g), gt_expires_at = unix (gr_ExpiresAt g),
     gt_max_bytes = int64 (gr_MaxBytes g), gt_revoked_at = None, gt_revoke_reason = []\<rparr>"

definition foreign_key_ok :: "grant_row \<Rightarrow> db \<Rightarrow> bool" where
  "foreign_key_ok x d \<longleftrightarrow>
    (case gt_session_id x of
       None \<Rightarrow> True
     | Some sid \<Rightarrow> affects (\<lambda>s. s_session_id s = sid) (operator_sessions d))"

definition RecordGrant :: "faults \<Rightarrow> time \<Rightarrow> grant_record \<Rightarrow> audit_event \<Rightarrow> db \<Rightarrow> (unit, db) result" where
  [store_defs]: "RecordGrant fails now g e d =
    (if fails 0 then (Inl ErrSQL, d)
     else if fails 1 \<or> affects (\<lambda>x. gt_grant_id x = gr_GrantID g) (grants d) \<or>
       \<not> foreign_key_ok (grant_row_of g) d then (Inl ErrSQL, d)
     else
       case appendAudit (fails 2) now e (d\<lparr>grants := grants d @ [grant_row_of g]\<rparr>) of
         Inl er \<Rightarrow> (Inl er, d)
       | Inr d' \<Rightarrow> commit (fails 3) d () d')"

definition grant_of :: "grant_row \<Rightarrow> grant_record" where
  "grant_of x = \<lparr>gr_GrantID = gt_grant_id x, gr_OrgID = gt_org_id x, gr_UserID = gt_user_id x,
     gr_DeviceID = gt_device_id x, gr_ResourceID = gt_resource_id x, gr_PolicyID = gt_policy_id x,
     gr_SessionID = (case gt_session_id x of None \<Rightarrow> [] | Some sid \<Rightarrow> sid),
     gr_IssuedAt = fromUnix (gt_issued_at x), gr_ExpiresAt = fromUnix (gt_expires_at x),
     gr_MaxBytes = uint64 (gt_max_bytes x), gr_RevokedAt = fromNullUnix (gt_revoked_at x),
     gr_RevokeReason = gt_revoke_reason x\<rparr>"

definition LookupGrant :: "bool \<Rightarrow> string \<Rightarrow> db \<Rightarrow> store_err + grant_record" where
  "LookupGrant failed gid d =
    (if failed then Inl ErrSQL
     else case find (\<lambda>x. gt_grant_id x = gid) (grants d) of
       None \<Rightarrow> Inl ErrGrantUnknown
     | Some x \<Rightarrow> Inr (grant_of x))"

definition RevokeGrant ::
  "faults \<Rightarrow> time \<Rightarrow> string \<Rightarrow> string \<Rightarrow> audit_event \<Rightarrow> db \<Rightarrow> (grant_record, db) result" where
  [store_defs]: "RevokeGrant fails now gid reason actor d =
    (if fails 0 then (Inl ErrSQL, d)
     else if fails 1 then (Inl ErrSQL, d)
     else case find (\<lambda>x. gt_grant_id x = gid) (grants d) of
       None \<Rightarrow> (Inl ErrGrantUnknown, d)
     | Some x \<Rightarrow>
         let g = grant_of x in
         if grant_Revoked g then (Inr g, d)
         else if fails 2 then (Inl ErrSQL, d)
         else
           let d' = d\<lparr>grants := update_where (\<lambda>x. gt_grant_id x = gid \<and> gt_revoked_at x = None)
                 (\<lambda>x. x\<lparr>gt_revoked_at := Some (unix now), gt_revoke_reason := reason\<rparr>) (grants d)\<rparr> in
           case appendAudit (fails 3) now
                  (actor\<lparr>e_GrantID := gr_GrantID g, e_DeviceID := gr_DeviceID g, e_ResourceID := gr_ResourceID g,
                     e_SessionID := gr_SessionID g, e_Reason := reason\<rparr>) d' of
             Inl er \<Rightarrow> (Inl er, d)
           | Inr d'' \<Rightarrow> commit (fails 4) d (g\<lparr>gr_RevokedAt := Some now, gr_RevokeReason := reason\<rparr>) d'')"

record grant_filter =
  gf_UserID :: string
  gf_DeviceID :: string
  gf_SessionID :: string
  gf_ActiveOnly :: bool
  gf_Limit :: int

definition grant_match :: "time \<Rightarrow> grant_filter \<Rightarrow> grant_row \<Rightarrow> bool" where
  "grant_match now f x \<longleftrightarrow>
     (gf_UserID f \<noteq> [] \<longrightarrow> gt_user_id x = gf_UserID f) \<and>
     (gf_DeviceID f \<noteq> [] \<longrightarrow> gt_device_id x = gf_DeviceID f) \<and>
     (gf_SessionID f \<noteq> [] \<longrightarrow> gt_session_id x = Some (gf_SessionID f)) \<and>
     (gf_ActiveOnly f \<longrightarrow> gt_revoked_at x = None \<and> gt_expires_at x > unix now)"

definition ListGrants :: "faults \<Rightarrow> time \<Rightarrow> grant_filter \<Rightarrow> db \<Rightarrow> store_err + grant_record list" where
  "ListGrants fails now f d =
    (if fails 0 then Inl ErrSQL
     else Inr (map grant_of (take (clamp_limit (gf_Limit f))
       (rev (sort_key (\<lambda>x. (gt_issued_at x, gt_grant_id x)) (filter (grant_match now f) (grants d)))))))"

text \<open>The zero value and other numbers of \<open>GrantScope\<close> are \<^term>\<open>None\<close>.\<close>

datatype grant_scope = ScopeUser | ScopeDevice | ScopeSession

fun in_scope :: "grant_scope \<Rightarrow> string \<Rightarrow> grant_row \<Rightarrow> bool" where
  "in_scope ScopeUser v x \<longleftrightarrow> gt_user_id x = v"
| "in_scope ScopeDevice v x \<longleftrightarrow> gt_device_id x = v"
| "in_scope ScopeSession v x \<longleftrightarrow> gt_session_id x = Some v"

text \<open>The columns the cascade selects; the others keep their zero values.\<close>

definition affected_of :: "grant_row \<Rightarrow> grant_record" where
  "affected_of x = \<lparr>gr_GrantID = gt_grant_id x, gr_OrgID = [], gr_UserID = gt_user_id x,
     gr_DeviceID = gt_device_id x, gr_ResourceID = gt_resource_id x, gr_PolicyID = [],
     gr_SessionID = (case gt_session_id x of None \<Rightarrow> [] | Some sid \<Rightarrow> sid),
     gr_IssuedAt = zero_time, gr_ExpiresAt = fromUnix (gt_expires_at x), gr_MaxBytes = 0,
     gr_RevokedAt = None, gr_RevokeReason = []\<rparr>"

fun audit_cascade ::
  "(nat \<Rightarrow> bool) \<Rightarrow> nat \<Rightarrow> time \<Rightarrow> string \<Rightarrow> audit_event \<Rightarrow> grant_record list \<Rightarrow> db \<Rightarrow> store_err + db" where
  "audit_cascade fails k now reason actor [] d = Inr d"
| "audit_cascade fails k now reason actor (g # gs) d =
    (case appendAudit (fails k) now
       (actor\<lparr>e_At := now, e_GrantID := gr_GrantID g, e_DeviceID := gr_DeviceID g, e_ResourceID := gr_ResourceID g,
          e_SessionID := gr_SessionID g, e_Reason := reason\<rparr>) d of
       Inl er \<Rightarrow> Inl er
     | Inr d' \<Rightarrow> audit_cascade fails (k + 1) now reason actor gs d')"

definition RevokeGrantsWhere ::
  "faults \<Rightarrow> time \<Rightarrow> grant_scope option \<Rightarrow> string \<Rightarrow> string \<Rightarrow> audit_event \<Rightarrow> db \<Rightarrow>
     (grant_record list, db) result" where
  [store_defs]: "RevokeGrantsWhere fails now by_scope v reason actor d =
    (case by_scope of
       None \<Rightarrow> (Inl ErrUnknownScope, d)
     | Some by_scope \<Rightarrow>
       if fails 0 \<or> fails 1 \<or> fails 2 then (Inl ErrSQL, d)
       else
         let sel = (\<lambda>x. in_scope by_scope v x \<and> gt_revoked_at x = None \<and> gt_expires_at x > unix now);
             affected = map affected_of (filter sel (grants d)) in
         if affected = [] then commit (fails 3) d [] d
         else if fails 4 then (Inl ErrSQL, d)
         else
           let d' = d\<lparr>grants := update_where sel
                 (\<lambda>x. x\<lparr>gt_revoked_at := Some (unix now), gt_revoke_reason := reason\<rparr>) (grants d)\<rparr> in
           case audit_cascade fails 5 now reason actor affected d' of
             Inl er \<Rightarrow> (Inl er, d)
           | Inr d'' \<Rightarrow> commit (fails 3) d
               (map (\<lambda>g. g\<lparr>gr_RevokedAt := Some now, gr_RevokeReason := reason\<rparr>) affected) d'')"

end
