(* ===== verification/Store.thy ===== *)
theory Store
  imports Store_Access
begin

text \<open>
  The store as a whole: sequences of its operations, the integrity of the tables, what no sequence
  of operations can undo, and the view of the store as a set of live grants that the relay and
  the issuer rely on.
\<close>

section \<open>Sequences of operations\<close>

datatype call =
    CPutToken faults token
  | CConsumeToken sha faults time time string
  | CPutRecord faults id_record
  | CPutPendingSerial faults time string string string
  | CPromoteSerial faults string string string
  | CRevoke faults time string string
  | CImport "nat \<Rightarrow> string" "string \<Rightarrow> legacyState option" "(unit + string) option" faults faults time
  | CAppendAudit faults time audit_event
  | CPruneAudit "nat \<Rightarrow> time \<Rightarrow> string" faults time time string
  | CCreateSession faults time session_record audit_event
  | CRevokeSession faults time string string audit_event
  | CRecordGrant faults time grant_record audit_event
  | CRevokeGrant faults time string string audit_event
  | CRevokeGrantsWhere faults time "grant_scope option" string string audit_event

fun exec :: "call \<Rightarrow> db \<Rightarrow> db" where
  "exec (CPutToken f t) d = snd (PutToken f t d)"
| "exec (CConsumeToken h f n n' t) d = snd (ConsumeToken h f n n' t d)"
| "exec (CPutRecord f r) d = snd (PutRecord f r d)"
| "exec (CPutPendingSerial f n ro i s) d = snd (PutPendingSerial f n ro i s d)"
| "exec (CPromoteSerial f ro i s) d = snd (PromoteSerial f ro i s d)"
| "exec (CRevoke f n ro i) d = snd (Revoke f n ro i d)"
| "exec (CImport dt u fi f fr n) d = snd (ImportLegacyJSON dt u fi f fr n d)"
| "exec (CAppendAudit f n e) d = snd (AppendAudit f n e d)"
| "exec (CPruneAudit dt f n b a) d = snd (PruneAudit dt f n b a d)"
| "exec (CCreateSession f n r e) d = snd (CreateSession f n r e d)"
| "exec (CRevokeSession f n s r e) d = snd (RevokeSession f n s r e d)"
| "exec (CRecordGrant f n g e) d = snd (RecordGrant f n g e d)"
| "exec (CRevokeGrant f n g r e) d = snd (RevokeGrant f n g r e d)"
| "exec (CRevokeGrantsWhere f n b v r e) d = snd (RevokeGrantsWhere f n b v r e d)"

definition run :: "call list \<Rightarrow> db \<Rightarrow> db" where
  "run cs d = fold exec cs d"

lemma run_simps [simp]: "run [] d = d" "run (c # cs) d = run cs (exec c d)"
  "run (cs @ cs') d = run cs' (run cs d)"
  by (simp_all add: run_def)

section \<open>Integrity of the tables\<close>

definition audit_ok :: "audit_row list \<Rightarrow> int \<Rightarrow> bool" where
  "audit_ok rows n \<longleftrightarrow> sorted_wrt (<) (map a_seq rows) \<and>
     (\<forall>r\<in>set rows. 0 < a_seq r \<and> a_seq r \<le> n \<and> a_event r \<noteq> []) \<and> 0 \<le> n \<and> n \<le> maxSeq"

definition db_ok :: "db \<Rightarrow> bool" where
  "db_ok d \<longleftrightarrow>
     distinct (map (\<lambda>r. (i_role r, i_id r)) (identities d)) \<and>
     distinct (map t_hash (enrollment_tokens d)) \<and>
     distinct (map s_session_id (operator_sessions d)) \<and>
     distinct (map s_token_hash (operator_sessions d)) \<and>
     distinct (map gt_grant_id (grants d)) \<and>
     (\<forall>x\<in>set (grants d). foreign_key_ok x d \<and> gt_session_id x \<noteq> Some []) \<and>
     audit_ok (audit_events d) (audit_last d)"

subsection \<open>Rows and audit events\<close>

lemma map_update_where [simp]:
  "(\<And>r. k (f r) = k r) \<Longrightarrow> map k (update_where p f rows) = map k rows"
  by (simp add: update_where_def)

lemma set_update_where:
  "set (update_where p f rows) = (\<lambda>r. if p r then f r else r) ` set rows"
  by (simp add: update_where_def)

lemma in_update_where: "x \<in> set rows \<Longrightarrow> \<exists>x'\<in>set (update_where p f rows). x' = (if p x then f x else x)"
  by (auto simp: set_update_where)

lemma from_update_where: "x' \<in> set (update_where p f rows) \<Longrightarrow> \<exists>x\<in>set rows. x' = (if p x then f x else x)"
  by (auto simp: set_update_where)

lemma affects_iff [simp]: "affects p rows \<longleftrightarrow> (\<exists>r\<in>set rows. p r)"
  by (simp add: affects_def filter_empty_conv)

lemma find_update_where:
  assumes "\<And>r. q (f r) = q r"
  shows "find q (update_where p f rows) = map_option (\<lambda>r. if p r then f r else r) (find q rows)"
  using assms by (induction rows) (auto simp: update_where_def)

lemma find_append: "find q (xs @ ys) = (case find q xs of None \<Rightarrow> find q ys | Some x \<Rightarrow> Some x)"
  by (induction xs) auto

lemma find_Some_in: "find q xs = Some x \<Longrightarrow> x \<in> set xs \<and> q x"
  by (auto simp: find_Some_iff)

lemma find_distinct:
  "distinct (map k xs) \<Longrightarrow> x \<in> set xs \<Longrightarrow> find (\<lambda>y. k y = k x) xs = Some x"
  by (induction xs) (auto simp: image_iff rev_image_eqI)

text \<open>Two databases that differ in the audit trail only, which may have grown by \<open>n\<close> rows.\<close>

definition audit_grown :: "audit_row list \<Rightarrow> db \<Rightarrow> db \<Rightarrow> bool" where
  "audit_grown rows d d' \<longleftrightarrow>
     d' = d\<lparr>audit_events := audit_events d @ rows, audit_last := audit_last d + int (length rows)\<rparr> \<and>
     map a_seq rows = [audit_last d + 1 .. audit_last d + int (length rows)] \<and>
     (\<forall>r\<in>set rows. a_event r \<noteq> []) \<and> (rows \<noteq> [] \<longrightarrow> audit_last d + int (length rows) \<le> maxSeq)"

lemma appendAudit_Inr:
  assumes "appendAudit failed now e d = Inr d'"
  shows "audit_grown [audit_row_of (audit_last d + 1) (if IsZero (e_At e) then e\<lparr>e_At := now\<rparr> else e)] d d'"
  using assms by (auto simp: appendAudit_def audit_grown_def audit_row_of_def Let_def split: if_splits)

lemma upto_append: "0 \<le> k \<Longrightarrow> 0 \<le> l \<Longrightarrow> [i + 1 .. i + k] @ [i + k + 1 .. i + k + l] = [i + 1 .. i + (k + l :: int)]"
  using upto_split1 [of "i + 1" "i + k + 1" "i + k + l"] upto_split2 [of "i + 1" "i + k" "i + (k + l)"]
  by (cases "l = 0") (simp_all add: algebra_simps)

lemma audit_grown_trans:
  assumes "audit_grown xs d d1" and "audit_grown ys d1 d2"
  shows "audit_grown (xs @ ys) d d2"
  using assms upto_append [of "int (length xs)" "int (length ys)" "audit_last d"]
  by (auto simp: audit_grown_def algebra_simps)

lemma audit_cascade_Inr:
  "audit_cascade fails k now reason actor gs d = Inr d' \<Longrightarrow>
     \<exists>rows. audit_grown rows d d' \<and> map a_grant_id rows = map gr_GrantID gs"
proof (induction gs arbitrary: k d)
  case Nil
  then show ?case by (auto simp: audit_grown_def intro!: exI [of _ "[]"])
next
  case (Cons g gs)
  let ?e = "actor\<lparr>e_At := now, e_GrantID := gr_GrantID g, e_DeviceID := gr_DeviceID g,
    e_ResourceID := gr_ResourceID g, e_SessionID := gr_SessionID g, e_Reason := reason\<rparr>"
  from Cons.prems obtain d1 where d1: "appendAudit (fails k) now ?e d = Inr d1"
    "audit_cascade fails (k + 1) now reason actor gs d1 = Inr d'"
    by (auto split: sum.splits)
  from Cons.IH [OF d1(2)] obtain rows where
    "audit_grown rows d1 d'" "map a_grant_id rows = map gr_GrantID gs" by blast
  with audit_grown_trans [OF appendAudit_Inr [OF d1(1)]] show ?case
    by (intro exI [of _ "audit_row_of (audit_last d + 1) (if IsZero (e_At ?e) then ?e\<lparr>e_At := now\<rparr> else ?e) # rows"])
      (simp add: audit_row_of_def)
qed

lemma audit_ok_grown:
  assumes "audit_grown rows d d'" and "audit_ok (audit_events d) (audit_last d)"
  shows "audit_ok (audit_events d') (audit_last d')"
proof -
  have seqs: "map a_seq rows = [audit_last d + 1 .. audit_last d + int (length rows)]"
    and ev: "\<forall>r\<in>set rows. a_event r \<noteq> []"
    and d': "audit_events d' = audit_events d @ rows" "audit_last d' = audit_last d + int (length rows)"
    and top: "rows \<noteq> [] \<longrightarrow> audit_last d + int (length rows) \<le> maxSeq"
    using assms(1) by (auto simp: audit_grown_def)
  have new: "audit_last d < a_seq r \<and> a_seq r \<le> audit_last d'" if "r \<in> set rows" for r
  proof -
    have "a_seq r \<in> set (map a_seq rows)" using that by simp
    then show ?thesis unfolding seqs d' by simp
  qed
  have old: "0 < a_seq r \<and> a_seq r \<le> audit_last d \<and> a_event r \<noteq> []" if "r \<in> set (audit_events d)" for r
    using that assms(2) by (auto simp: audit_ok_def)
  have n: "0 \<le> audit_last d" using assms(2) by (simp add: audit_ok_def)
  have "sorted_wrt (<) (map a_seq (audit_events d) @ map a_seq rows)"
  proof -
    have "sorted_wrt (<) (map a_seq rows)" unfolding seqs by (rule sorted_wrt_upto)
    moreover have "a_seq a < a_seq b" if "a \<in> set (audit_events d)" "b \<in> set rows" for a b
      using old [OF that(1)] new [OF that(2)] by linarith
    ultimately show ?thesis
      using assms(2) by (simp add: audit_ok_def sorted_wrt_append)
  qed
  moreover have "0 < a_seq r \<and> a_seq r \<le> audit_last d' \<and> a_event r \<noteq> []"
    if "r \<in> set (audit_events d')" for r
    using that old [of r] new [of r] ev n d' by fastforce
  moreover have "0 \<le> audit_last d' \<and> audit_last d' \<le> maxSeq"
    using top d'(2) n assms(2) by (cases "rows = []") (auto simp: audit_ok_def)
  ultimately show ?thesis by (simp add: audit_ok_def d')
qed

subsection \<open>Elementary changes\<close>

text \<open>Every operation is a sequence of these changes of one table. None of them removes a row, except
  from the audit trail, or clears a column that records a consumption or the revocation of a session
  or a grant.\<close>

inductive change :: "bool \<Rightarrow> db \<Rightarrow> db \<Rightarrow> bool" for pr d where
  ch_token_add: "(\<forall>x\<in>set (enrollment_tokens d). t_hash x \<noteq> t_hash r) \<Longrightarrow>
    change pr d (d\<lparr>enrollment_tokens := enrollment_tokens d @ [r]\<rparr>)"
| ch_token_upd: "(\<And>x. t_hash (f x) = t_hash x) \<Longrightarrow>
    (\<And>x. p x \<Longrightarrow> t_consumed_at x \<noteq> None \<Longrightarrow> t_consumed_at (f x) = t_consumed_at x) \<Longrightarrow>
    change pr d (d\<lparr>enrollment_tokens := update_where p f (enrollment_tokens d)\<rparr>)"
| ch_id_add: "(\<forall>x\<in>set (identities d). \<not> id_is (i_role r) (i_id r) x) \<Longrightarrow>
    change pr d (d\<lparr>identities := identities d @ [r]\<rparr>)"
| ch_id_upd: "(\<And>x. i_role (f x) = i_role x) \<Longrightarrow> (\<And>x. i_id (f x) = i_id x) \<Longrightarrow>
    change pr d (d\<lparr>identities := update_where p f (identities d)\<rparr>)"
| ch_session_add: "(\<forall>x\<in>set (operator_sessions d). s_session_id x \<noteq> s_session_id r \<and> s_token_hash x \<noteq> s_token_hash r) \<Longrightarrow>
    change pr d (d\<lparr>operator_sessions := operator_sessions d @ [r]\<rparr>)"
| ch_session_revoke: "(\<And>x. p x \<Longrightarrow> s_revoked_at x = None) \<Longrightarrow>
    change pr d (d\<lparr>operator_sessions := update_where p (\<lambda>x. x\<lparr>s_revoked_at := Some t\<rparr>) (operator_sessions d)\<rparr>)"
| ch_grant_add: "(\<forall>x\<in>set (grants d). gt_grant_id x \<noteq> gt_grant_id r) \<Longrightarrow> foreign_key_ok r d \<Longrightarrow>
    gt_session_id r \<noteq> Some [] \<Longrightarrow> gt_revoked_at r = None \<Longrightarrow>
    change pr d (d\<lparr>grants := grants d @ [r]\<rparr>)"
| ch_grant_revoke: "(\<And>x. p x \<Longrightarrow> gt_revoked_at x = None) \<Longrightarrow>
    change pr d (d\<lparr>grants := update_where p (\<lambda>x. x\<lparr>gt_revoked_at := Some t, gt_revoke_reason := reason\<rparr>) (grants d)\<rparr>)"
| ch_audit: "audit_grown rows d d' \<Longrightarrow> change pr d d'"
| ch_prune: "pr \<Longrightarrow> change pr d (d\<lparr>audit_events := filter p (audit_events d)\<rparr>)"

abbreviation changes :: "bool \<Rightarrow> db \<Rightarrow> db \<Rightarrow> bool" where "changes pr \<equiv> (change pr)\<^sup>*\<^sup>*"

lemma snd_commit [simp]: "snd (commit b d x d') = (if b then d else d')"
  by (simp add: commit_def)

lemma changes_audit:
  "changes pr d d1 \<Longrightarrow> appendAudit b now e d1 = Inr d2 \<Longrightarrow> changes pr d d2"
  by (meson appendAudit_Inr ch_audit rtranclp.rtrancl_into_rtrancl)

lemma changes_step: "change pr d d1 \<Longrightarrow> changes pr d1 d2 \<Longrightarrow> changes pr d d2"
  by (rule converse_rtranclp_into_rtranclp)

lemma change_audit: "appendAudit b now e d1 = Inr d2 \<Longrightarrow> change pr d d1 \<Longrightarrow> changes pr d d2"
  by (rule changes_audit [OF r_into_rtranclp [of "change pr"]])

lemma change_cascade:
  "audit_cascade fails k now reason actor gs d1 = Inr d2 \<Longrightarrow> change pr d d1 \<Longrightarrow> changes pr d d2"
  by (meson audit_cascade_Inr ch_audit r_into_rtranclp rtranclp.rtrancl_into_rtrancl)

lemma grant_row_of_id [simp]: "gt_grant_id (grant_row_of g) = gr_GrantID g"
  "gt_session_id (grant_row_of g) \<noteq> Some []" "gt_revoked_at (grant_row_of g) = None"
  by (simp_all add: grant_row_of_def)

lemma changes_tokens:
  "changes pr d (snd (PutToken f t d))" "changes pr d (snd (ConsumeToken h f n n' tok d))"
  by (auto simp: store_defs Let_def token_of_def split: option.split
      intro!: r_into_rtranclp ch_token_add ch_token_upd)

lemma changes_identities:
  "changes pr d (snd (PutRecord f r d))" "changes pr d (snd (PutPendingSerial f n ro i s d))"
  "changes pr d (snd (PromoteSerial f ro i s d))" "changes pr d (snd (Revoke f n ro i d))"
  by (auto simp: store_defs Let_def split: option.split sum.split
      intro!: r_into_rtranclp ch_id_add ch_id_upd)

lemma changes_import_ids: "import_ids f k role rs d = Inr d' \<Longrightarrow> changes pr d d'"
proof (induction rs arbitrary: k d)
  case (Cons r rs)
  let ?row = "\<lparr>i_role = role, i_id = r_ID r, i_enrolled_at = unix (r_EnrolledAt r), i_serial_hex = r_SerialHex r,
    i_revoked_at = nullUnix (r_RevokedAt r), i_pending_serial_hex = [], i_pending_issued_at = None\<rparr>"
  from Cons.prems have "\<forall>x\<in>set (identities d). \<not> id_is role (r_ID r) x"
    and "import_ids f (k + 1) role rs (d\<lparr>identities := identities d @ [?row]\<rparr>) = Inr d'"
    by (simp_all split: if_splits)
  with changes_step [OF ch_id_add [of d ?row pr]] Cons.IH show ?case by simp
qed simp

lemma changes_import_tokens: "import_tokens f k ts d = Inr (n, d') \<Longrightarrow> changes pr d d'"
proof (induction ts arbitrary: k d)
  case (Cons t ts)
  let ?row = "\<lparr>t_hash = k_Hash t, t_role = k_Role t, t_id = k_ID t, t_issued_at = unix (k_IssuedAt t),
    t_expires_at = unix (k_ExpiresAt t), t_consumed_at = None\<rparr>"
  show ?case
  proof (cases "k_ConsumedAt t = None")
    case True
    with Cons.prems have "\<forall>x\<in>set (enrollment_tokens d). t_hash x \<noteq> k_Hash t"
      and "import_tokens f (k + 1) ts (d\<lparr>enrollment_tokens := enrollment_tokens d @ [?row]\<rparr>) = Inr (n, d')"
      by (simp_all split: if_splits)
    with changes_step [OF ch_token_add [of d ?row pr]] Cons.IH show ?thesis by simp
  next
    case False
    with Cons show ?thesis by simp
  qed
qed simp

lemma changes_import:
  assumes "import_ids f k ro rs d = Inr d1" and "import_ids f k' ro' rs' d1 = Inr d2"
    and "import_tokens f n ts d2 = Inr (n', d3)"
  shows "changes pr d d3"
  using changes_import_ids [OF assms(1)] changes_import_ids [OF assms(2)] changes_import_tokens [OF assms(3)]
  by (meson rtranclp_trans)

lemma changes_ImportLegacyJSON: "changes pr d (snd (ImportLegacyJSON dt u fi f fr n d))"
  by (auto simp: ImportLegacyJSON_def split: option.split sum.split
      elim!: changes_audit [rotated] intro: changes_import)

lemma changes_audit_ops:
  "changes pr d (snd (AppendAudit f n e d))" "changes True d (snd (PruneAudit dt f n b a d))"
  by (auto simp: store_defs Let_def split: sum.split
      elim!: change_audit changes_audit [rotated] intro: ch_prune)

lemma changes_sessions:
  "changes pr d (snd (CreateSession f n r e d))" "changes pr d (snd (RevokeSession f n s rs e d))"
  by (auto simp: store_defs Let_def split: sum.split option.split elim!: change_audit
      intro!: ch_session_add ch_session_revoke)

lemma changes_grants:
  "changes pr d (snd (RecordGrant f n g e d))" "changes pr d (snd (RevokeGrant f n gid rs e d))"
  by (auto simp: store_defs Let_def split: sum.split option.split elim!: change_audit
      intro!: ch_grant_add ch_grant_revoke)

lemma changes_RevokeGrantsWhere: "changes pr d (snd (RevokeGrantsWhere f n sc v rs e d))"
  by (auto simp: store_defs Let_def split: sum.split option.split elim!: change_cascade
      intro!: ch_grant_revoke)

lemmas changes_ops = changes_tokens changes_identities changes_ImportLegacyJSON changes_audit_ops
  changes_sessions changes_grants changes_RevokeGrantsWhere

fun is_prune :: "call \<Rightarrow> bool" where
  "is_prune (CPruneAudit dt f n b a) = True"
| "is_prune _ = False"

lemma changes_exec: "changes (is_prune c) d (exec c d)"
  by (cases c) (simp_all add: changes_ops)

lemma changes_mono: "changes pr d d' \<Longrightarrow> (pr \<Longrightarrow> pr') \<Longrightarrow> changes pr' d d'"
  by (cases "pr = pr'") (auto elim!: rtranclp_mono [THEN predicate2D, rotated] change.cases intro: change.intros)

lemma changes_run: "(\<And>c. c \<in> set cs \<Longrightarrow> is_prune c \<Longrightarrow> pr) \<Longrightarrow> changes pr d (run cs d)"
proof (induction cs arbitrary: d)
  case (Cons c cs)
  have "is_prune c \<Longrightarrow> pr" by (rule Cons.prems [of c]) simp_all
  from changes_mono [OF changes_exec this] have "changes pr d (exec c d)" .
  moreover have "changes pr (exec c d) (run cs (exec c d))"
    by (rule Cons.IH) (rule Cons.prems, simp_all)
  ultimately show ?case by simp
qed simp

subsection \<open>Every operation keeps the tables in order\<close>

lemma foreign_key_ok_cong:
  "set (map s_session_id (operator_sessions d)) \<subseteq> set (map s_session_id (operator_sessions d')) \<Longrightarrow>
     foreign_key_ok x d \<Longrightarrow> foreign_key_ok x d'"
  by (fastforce simp: foreign_key_ok_def split: option.splits)

lemma foreign_key_ok_update [simp]:
  "foreign_key_ok x (d\<lparr>grants := gs\<rparr>) = foreign_key_ok x d"
  "foreign_key_ok x (d\<lparr>identities := is\<rparr>) = foreign_key_ok x d"
  "foreign_key_ok x (d\<lparr>enrollment_tokens := ts\<rparr>) = foreign_key_ok x d"
  "foreign_key_ok x (d\<lparr>audit_events := as\<rparr>) = foreign_key_ok x d"
  "foreign_key_ok x (d\<lparr>audit_last := n\<rparr>) = foreign_key_ok x d"
  by (simp_all add: foreign_key_ok_def split: option.split)

lemma grants_ok_mono:
  assumes "\<forall>x\<in>set (grants d). foreign_key_ok x d \<and> gt_session_id x \<noteq> Some []"
    and "set (map s_session_id (operator_sessions d)) \<subseteq> set (map s_session_id (operator_sessions d'))"
    and "\<And>x'. x' \<in> set (grants d') \<Longrightarrow> \<exists>x\<in>set (grants d). gt_session_id x' = gt_session_id x"
  shows "\<forall>x\<in>set (grants d'). foreign_key_ok x d' \<and> gt_session_id x \<noteq> Some []"
proof
  fix x' assume "x' \<in> set (grants d')"
  from assms(3) [OF this] obtain x where x: "x \<in> set (grants d)" "gt_session_id x' = gt_session_id x" by blast
  with assms(1) have "foreign_key_ok x d" "gt_session_id x' \<noteq> Some []" by auto
  with foreign_key_ok_cong [OF assms(2), of x] x(2)
  show "foreign_key_ok x' d' \<and> gt_session_id x' \<noteq> Some []" by (simp add: foreign_key_ok_def)
qed

lemma audit_ok_filter: "audit_ok rows n \<Longrightarrow> audit_ok (filter p rows) n"
  by (simp add: audit_ok_def sorted_wrt_map sorted_wrt_filter)

lemma distinct_snoc: "distinct (map k (xs @ [x])) \<longleftrightarrow> distinct (map k xs) \<and> (\<forall>y\<in>set xs. k y \<noteq> k x)"
  by (force simp: image_iff)

lemma change_ok:
  assumes "change pr d d'" and "db_ok d"
  shows "db_ok d'"
proof -
  note ok = assms(2) [unfolded db_ok_def]
  from assms(1) show ?thesis
  proof (cases rule: change.cases)
    case (ch_token_add r)
    with ok show ?thesis by (simp add: db_ok_def distinct_snoc del: map_append)
  next
    case (ch_token_upd f p)
    with ok show ?thesis by (simp add: db_ok_def)
  next
    case (ch_id_add r)
    with ok show ?thesis by (simp add: db_ok_def distinct_snoc del: map_append)
  next
    case (ch_id_upd f p)
    with ok show ?thesis by (simp add: db_ok_def)
  next
    case (ch_session_add r)
    then have "\<forall>x\<in>set (grants d'). foreign_key_ok x d' \<and> gt_session_id x \<noteq> Some []"
      using ok by - (rule grants_ok_mono [of d], auto)
    with ch_session_add ok show ?thesis by (simp add: db_ok_def distinct_snoc del: map_append)
  next
    case (ch_session_revoke p t)
    then have "\<forall>x\<in>set (grants d'). foreign_key_ok x d' \<and> gt_session_id x \<noteq> Some []"
      using ok by - (rule grants_ok_mono [of d], auto simp del: set_map)
    with ch_session_revoke ok show ?thesis by (simp add: db_ok_def)
  next
    case (ch_grant_add r)
    with ok show ?thesis by (simp add: db_ok_def distinct_snoc del: map_append)
  next
    case (ch_grant_revoke p t reason)
    then have "\<exists>x\<in>set (grants d). gt_session_id x' = gt_session_id x" if "x' \<in> set (grants d')" for x'
      using that by (fastforce simp: set_update_where)
    then have "\<forall>x\<in>set (grants d'). foreign_key_ok x d' \<and> gt_session_id x \<noteq> Some []"
      using ch_grant_revoke ok by - (rule grants_ok_mono [of d], simp_all)
    with ch_grant_revoke ok show ?thesis by (simp add: db_ok_def)
  next
    case (ch_audit rows)
    then have "audit_ok (audit_events d') (audit_last d')"
      using ok audit_ok_grown by blast
    moreover from ch_audit obtain a n where "d' = d\<lparr>audit_events := a, audit_last := n\<rparr>"
      by (auto simp: audit_grown_def)
    ultimately show ?thesis using ok by (simp add: db_ok_def)
  next
    case (ch_prune p)
    with ok show ?thesis by (simp add: db_ok_def audit_ok_filter)
  qed
qed

lemma db_ok_empty [simp]: "db_ok empty_db"
  by (simp add: db_ok_def empty_db_def audit_ok_def maxSeq_def)

lemma changes_ok: "changes pr d d' \<Longrightarrow> db_ok d \<Longrightarrow> db_ok d'"
  by (induction rule: rtranclp_induct) (auto intro: change_ok)

lemma exec_ok [simp]: "db_ok d \<Longrightarrow> db_ok (exec c d)"
  by (rule changes_ok [OF changes_exec])

lemma run_ok [simp]: "db_ok d \<Longrightarrow> db_ok (run cs d)"
  by (rule changes_ok [OF changes_run [where pr = True]]) simp_all

section \<open>What no operation undoes\<close>

text \<open>A relation between an earlier and a later database that every elementary change respects.\<close>

locale lasting =
  fixes R :: "db \<Rightarrow> db \<Rightarrow> bool" and pr :: bool
  assumes lasting_refl: "R d d"
    and lasting_trans: "R d d1 \<Longrightarrow> R d1 d2 \<Longrightarrow> R d d2"
    and lasting_change: "change pr d d' \<Longrightarrow> R d d'"
begin

lemma lasts: "changes pr d d' \<Longrightarrow> R d d'"
  by (induction rule: rtranclp_induct) (blast intro: lasting_refl lasting_trans lasting_change)+

lemma lasts_run: "(\<And>c. c \<in> set cs \<Longrightarrow> is_prune c \<Longrightarrow> pr) \<Longrightarrow> R d (run cs d)"
  by (rule lasts) (rule changes_run)

end

text \<open>Every row of a table has a later row; the later row of a session or a grant is the earlier one,
  or the earlier one revoked.\<close>

definition rows_kept :: "('r \<Rightarrow> 'r \<Rightarrow> bool) \<Rightarrow> 'r list \<Rightarrow> 'r list \<Rightarrow> bool" where
  "rows_kept later xs ys \<longleftrightarrow> (\<forall>x\<in>set xs. \<exists>y\<in>set ys. later x y)"

definition token_later :: "token_row \<Rightarrow> token_row \<Rightarrow> bool" where
  "token_later x y \<longleftrightarrow> t_hash y = t_hash x \<and> (t_consumed_at x \<noteq> None \<longrightarrow> t_consumed_at y = t_consumed_at x)"

definition session_later :: "session_row \<Rightarrow> session_row \<Rightarrow> bool" where
  "session_later x y \<longleftrightarrow> y = x \<or> s_revoked_at x = None \<and> (\<exists>t. y = x\<lparr>s_revoked_at := Some t\<rparr>)"

definition grant_later :: "grant_row \<Rightarrow> grant_row \<Rightarrow> bool" where
  "grant_later x y \<longleftrightarrow> y = x \<or>
     gt_revoked_at x = None \<and> (\<exists>t r. y = x\<lparr>gt_revoked_at := Some t, gt_revoke_reason := r\<rparr>)"

definition rows_later :: "db \<Rightarrow> db \<Rightarrow> bool" where
  "rows_later d d' \<longleftrightarrow> rows_kept token_later (enrollment_tokens d) (enrollment_tokens d') \<and>
     rows_kept session_later (operator_sessions d) (operator_sessions d') \<and>
     rows_kept grant_later (grants d) (grants d')"

lemma later_refl [simp]: "token_later x x" "session_later y y" "grant_later z z"
  by (simp_all add: token_later_def session_later_def grant_later_def)

lemma later_revoked:
  "s_revoked_at y = None \<Longrightarrow> session_later y (y\<lparr>s_revoked_at := Some t\<rparr>)"
  "gt_revoked_at z = None \<Longrightarrow> grant_later z (z\<lparr>gt_revoked_at := Some t, gt_revoke_reason := r\<rparr>)"
  by (auto simp: session_later_def grant_later_def)

lemma later_trans:
  "token_later x x' \<Longrightarrow> token_later x' x'' \<Longrightarrow> token_later x x''"
  "session_later y y' \<Longrightarrow> session_later y' y'' \<Longrightarrow> session_later y y''"
  "grant_later z z' \<Longrightarrow> grant_later z' z'' \<Longrightarrow> grant_later z z''"
  by (auto simp: token_later_def session_later_def grant_later_def)

lemma rows_kept_refl [simp]: "(\<And>x. R x x) \<Longrightarrow> rows_kept R xs xs"
  by (auto simp: rows_kept_def)

lemma rows_kept_trans:
  "rows_kept R xs ys \<Longrightarrow> rows_kept R ys zs \<Longrightarrow> (\<And>x y z. R x y \<Longrightarrow> R y z \<Longrightarrow> R x z) \<Longrightarrow> rows_kept R xs zs"
  unfolding rows_kept_def by metis

lemma rows_kept_append [simp]: "(\<And>x. R x x) \<Longrightarrow> rows_kept R xs (xs @ ys)"
  by (auto simp: rows_kept_def)

lemma rows_kept_update [simp]:
  "(\<And>x. R x x) \<Longrightarrow> (\<And>x. p x \<Longrightarrow> R x (f x)) \<Longrightarrow> rows_kept R xs (update_where p f xs)"
  unfolding rows_kept_def using in_update_where [of _ xs p f] by metis

lemma rows_later_change:
  assumes "change pr d d'"
  shows "rows_later d d'"
  using assms
  by (cases rule: change.cases)
    (auto simp: rows_later_def token_later_def later_revoked audit_grown_def)

interpretation kept: lasting rows_later True
proof unfold_locales
  show "rows_later d d2" if "rows_later d d1" "rows_later d1 d2" for d d1 d2
    using that unfolding rows_later_def by (blast intro: rows_kept_trans later_trans)
qed (simp_all add: rows_later_def rows_later_change [unfolded rows_later_def])

text \<open>No audit row is edited, and none appears below the highest number ever assigned.\<close>

definition audit_kept :: "db \<Rightarrow> db \<Rightarrow> bool" where
  "audit_kept d d' \<longleftrightarrow> audit_last d \<le> audit_last d' \<and>
     (\<forall>r\<in>set (audit_events d'). r \<in> set (audit_events d) \<or> audit_last d < a_seq r)"

definition audit_prefix :: "db \<Rightarrow> db \<Rightarrow> bool" where
  "audit_prefix d d' \<longleftrightarrow> (\<exists>rows. audit_events d' = audit_events d @ rows)"

lemma audit_grown_seq:
  assumes "audit_grown rows d d'" and "r \<in> set rows"
  shows "audit_last d < a_seq r"
proof -
  have "a_seq r \<in> set (map a_seq rows)" using assms(2) by simp
  then show ?thesis using assms(1) by (simp add: audit_grown_def del: set_map)
qed

interpretation kept_audit: lasting audit_kept True
proof unfold_locales
  show "audit_kept d d2" if "audit_kept d d1" "audit_kept d1 d2" for d d1 d2
    using that unfolding audit_kept_def by fastforce
  show "audit_kept d d'" if c: "change True d d'" for d d'
    using c
  proof (cases rule: change.cases)
    case (ch_audit rows)
    with audit_grown_seq [OF ch_audit] show ?thesis by (auto simp: audit_kept_def audit_grown_def)
  qed (auto simp: audit_kept_def)
qed (auto simp: audit_kept_def)

interpretation append_only: lasting audit_prefix False
proof unfold_locales
  show "audit_prefix d d'" if "change False d d'" for d d'
    using that by (cases rule: change.cases) (auto simp: audit_prefix_def audit_grown_def)
qed (auto simp: audit_prefix_def)

section \<open>Failed operations\<close>

text \<open>An operation that runs in a transaction, or as one statement: if it reports an error it has
  changed nothing, so it can be repeated as if it had never run.\<close>

locale transactional =
  fixes tx_op :: "db \<Rightarrow> ('a, db) result"
  assumes rollback: "fst (tx_op d) = Inl e \<Longrightarrow> snd (tx_op d) = d"
begin

lemma retry: "fst (tx_op d) = Inl e \<Longrightarrow> other (snd (tx_op d)) = other d"
  by (simp add: rollback)

lemma effect: "snd (tx_op d) \<noteq> d \<Longrightarrow> \<exists>x. tx_op d = (Inr x, snd (tx_op d))"
  by (cases "fst (tx_op d)") (auto simp: rollback prod_eq_iff)

end

lemma commit_cases:
  "fst (commit b d x d') = Inl e \<Longrightarrow> snd (commit b d x d') = d" "commit b d x d' = (Inr y, d'') \<longleftrightarrow> \<not> b \<and> y = x \<and> d'' = d'"
  by (auto simp: commit_def split: if_splits)

interpretation PutToken_tx: transactional "PutToken f t"
  by unfold_locales (auto simp: PutToken_def split: if_splits)

interpretation ConsumeToken_tx: transactional "ConsumeToken h f n n' tok"
  by unfold_locales (auto simp: ConsumeToken_def commit_def Let_def split: if_splits option.splits)

interpretation PutRecord_tx: transactional "PutRecord f r"
  by unfold_locales (auto simp: PutRecord_def split: if_splits)

interpretation PromoteSerial_tx: transactional "PromoteSerial f ro i s"
  by unfold_locales (auto simp: PromoteSerial_def split: if_splits)

interpretation ImportLegacyJSON_tx: transactional "ImportLegacyJSON dt u fi f fr n"
  by unfold_locales
    (auto simp: ImportLegacyJSON_def commit_def split: if_splits option.splits sum.splits)

interpretation AppendAudit_tx: transactional "AppendAudit f n e"
  by unfold_locales (auto simp: AppendAudit_def split: sum.splits)

interpretation PruneAudit_tx: transactional "PruneAudit dt f n b a"
  by unfold_locales (auto simp: PruneAudit_def commit_def Let_def split: if_splits sum.splits)

interpretation CreateSession_tx: transactional "CreateSession f n r e"
  by unfold_locales (auto simp: CreateSession_def commit_def split: if_splits sum.splits)

interpretation RevokeSession_tx: transactional "RevokeSession f n s r e"
  by unfold_locales (auto simp: RevokeSession_def commit_def Let_def split: if_splits sum.splits option.splits)

interpretation RecordGrant_tx: transactional "RecordGrant f n g e"
  by unfold_locales (auto simp: RecordGrant_def commit_def split: if_splits sum.splits)

interpretation RevokeGrant_tx: transactional "RevokeGrant f n g r e"
  by unfold_locales (auto simp: RevokeGrant_def commit_def Let_def split: if_splits sum.splits option.splits)

interpretation RevokeGrantsWhere_tx: transactional "RevokeGrantsWhere f n b v r e"
  by unfold_locales
    (auto simp: RevokeGrantsWhere_def commit_def Let_def split: if_splits sum.splits option.splits)

lemmas rollbacks = PutToken_tx.rollback ConsumeToken_tx.rollback PutRecord_tx.rollback PromoteSerial_tx.rollback
  ImportLegacyJSON_tx.rollback AppendAudit_tx.rollback PruneAudit_tx.rollback CreateSession_tx.rollback
  RevokeSession_tx.rollback RecordGrant_tx.rollback RevokeGrant_tx.rollback RevokeGrantsWhere_tx.rollback

text \<open>The error a call reports.\<close>

fun error_of :: "store_err + 'a \<Rightarrow> store_err option" where
  "error_of (Inl e) = Some e"
| "error_of (Inr x) = None"

fun error :: "call \<Rightarrow> db \<Rightarrow> store_err option" where
  "error (CPutToken f t) d = error_of (fst (PutToken f t d))"
| "error (CConsumeToken h f n n' t) d = error_of (fst (ConsumeToken h f n n' t d))"
| "error (CPutRecord f r) d = error_of (fst (PutRecord f r d))"
| "error (CPutPendingSerial f n ro i s) d = error_of (fst (PutPendingSerial f n ro i s d))"
| "error (CPromoteSerial f ro i s) d = error_of (fst (PromoteSerial f ro i s d))"
| "error (CRevoke f n ro i) d = error_of (fst (Revoke f n ro i d))"
| "error (CImport dt u fi f fr n) d = error_of (fst (ImportLegacyJSON dt u fi f fr n d))"
| "error (CAppendAudit f n e) d = error_of (fst (AppendAudit f n e d))"
| "error (CPruneAudit dt f n b a) d = error_of (fst (PruneAudit dt f n b a d))"
| "error (CCreateSession f n r e) d = error_of (fst (CreateSession f n r e d))"
| "error (CRevokeSession f n s r e) d = error_of (fst (RevokeSession f n s r e d))"
| "error (CRecordGrant f n g e) d = error_of (fst (RecordGrant f n g e d))"
| "error (CRevokeGrant f n g r e) d = error_of (fst (RevokeGrant f n g r e d))"
| "error (CRevokeGrantsWhere f n b v r e) d = error_of (fst (RevokeGrantsWhere f n b v r e d))"

lemma error_of_Some [simp]: "error_of r = Some e \<longleftrightarrow> r = Inl e"
  by (cases r) auto

lemma error_of_None [simp]: "error_of r = None \<longleftrightarrow> (\<exists>x. r = Inr x)"
  by (cases r) auto

text \<open>\<open>PutPendingSerial\<close> and \<open>Revoke\<close> ask for the number of affected rows after their statement has
  been committed; only that question can leave an effect behind an error.\<close>

fun rows_affected_fails :: "call \<Rightarrow> bool" where
  "rows_affected_fails (CPutPendingSerial f n ro i s) = f 1"
| "rows_affected_fails (CRevoke f n ro i) = f 1"
| "rows_affected_fails _ = False"

lemma update_where_none: "\<not> affects p rows \<Longrightarrow> update_where p f rows = rows"
  by (auto simp: update_where_def intro: map_idI)

lemma unaffected_rollback:
  "fst (PutPendingSerial f n ro i s d) = Inl e \<Longrightarrow> \<not> f 1 \<Longrightarrow> snd (PutPendingSerial f n ro i s d) = d"
  "fst (Revoke f n ro i d) = Inl e \<Longrightarrow> \<not> f 1 \<Longrightarrow> snd (Revoke f n ro i d) = d"
  by (auto simp: PutPendingSerial_def Revoke_def Let_def update_where_none split: if_splits sum.splits)

lemma error_rollback: "error c d = Some e \<Longrightarrow> \<not> rows_affected_fails c \<Longrightarrow> exec c d = d"
  by (cases c) (auto simp: rollbacks unaffected_rollback simp del: affects_iff)

section \<open>The store as a set of live grants\<close>

text \<open>What the issuer adds and the administrator takes away: the grants that have not been revoked,
  by identifier.\<close>

type_synonym live_grants = "string \<rightharpoonup> grant_row"

definition live :: "db \<Rightarrow> live_grants" where
  "live d gid = (case find (\<lambda>x. gt_grant_id x = gid) (grants d) of
     None \<Rightarrow> None
   | Some x \<Rightarrow> if gt_revoked_at x = None then Some x else None)"

fun abstract_call :: "call \<Rightarrow> live_grants \<Rightarrow> live_grants" where
  "abstract_call (CRecordGrant f n g e) m = m(gr_GrantID g \<mapsto> grant_row_of g)"
| "abstract_call (CRevokeGrant f n gid r e) m = m(gid := None)"
| "abstract_call (CRevokeGrantsWhere f n (Some sc) v r e) m =
    (\<lambda>gid. case m gid of
       None \<Rightarrow> None
     | Some x \<Rightarrow> if in_scope sc v x \<and> gt_expires_at x > unix n then None else Some x)"
| "abstract_call _ m = m"

lemma grant_Revoked_of [simp]: "grant_Revoked (grant_of x) \<longleftrightarrow> gt_revoked_at x \<noteq> None"
  by (simp add: grant_Revoked_def grant_of_def)

lemma live_cong: "grants d' = grants d \<Longrightarrow> live d' = live d"
  by (auto simp: live_def)

lemma audit_grown_grants: "audit_grown rows d d' \<Longrightarrow> grants d' = grants d"
  by (auto simp: audit_grown_def)

lemma appendAudit_grants: "appendAudit b n e d = Inr d' \<Longrightarrow> grants d' = grants d"
  by (auto dest!: appendAudit_Inr audit_grown_grants)

lemma audit_cascade_grants: "audit_cascade f k n r e gs d = Inr d' \<Longrightarrow> grants d' = grants d"
  by (auto dest!: audit_cascade_Inr audit_grown_grants)

lemma live_revoke:
  assumes "\<And>x. p x \<Longrightarrow> gt_revoked_at x = None"
    and "grants d' = update_where p (\<lambda>x. x\<lparr>gt_revoked_at := Some t, gt_revoke_reason := r\<rparr>) (grants d)"
  shows "live d' gid = (case live d gid of None \<Rightarrow> None | Some x \<Rightarrow> if p x then None else Some x)"
  using assms by (auto simp: live_def find_update_where split: option.split)

lemma live_RecordGrant:
  assumes "fst (RecordGrant f n g e d) = Inr ()"
  shows "live (snd (RecordGrant f n g e d)) = (live d)(gr_GrantID g \<mapsto> grant_row_of g)"
proof
  fix gid
  have "grants (snd (RecordGrant f n g e d)) = grants d @ [grant_row_of g]"
    and "\<forall>x\<in>set (grants d). gt_grant_id x \<noteq> gr_GrantID g"
    using assms
    by (auto simp: RecordGrant_def commit_def dest: appendAudit_grants split: if_splits sum.splits)
  moreover from this(2) have "find (\<lambda>x. gt_grant_id x = gr_GrantID g) (grants d) = None"
    by (auto simp: find_None_iff)
  ultimately show "live (snd (RecordGrant f n g e d)) gid = ((live d)(gr_GrantID g \<mapsto> grant_row_of g)) gid"
    by (simp add: live_def find_append split: option.split)
qed

lemma RevokeGrant_Inr:
  assumes "fst (RevokeGrant f n gid r e d) = Inr g"
  shows "live (snd (RevokeGrant f n gid r e d)) = (live d)(gid := None)"
proof -
  from assms obtain x where x: "find (\<lambda>x. gt_grant_id x = gid) (grants d) = Some x"
    by (auto simp: RevokeGrant_def split: if_splits option.splits)
  show ?thesis
  proof (cases "gt_revoked_at x = None")
    case True
    then have "grants (snd (RevokeGrant f n gid r e d)) =
        update_where (\<lambda>x. gt_grant_id x = gid \<and> gt_revoked_at x = None)
          (\<lambda>x. x\<lparr>gt_revoked_at := Some (unix n), gt_revoke_reason := r\<rparr>) (grants d)"
      using assms x
      by (auto simp: RevokeGrant_def Let_def commit_def
          dest: appendAudit_grants split: if_splits sum.splits)
    note live_revoke [OF _ this]
    then show ?thesis
      by (auto simp: fun_eq_iff live_def split: option.split dest: find_Some_in)
  next
    case False
    with assms x have "snd (RevokeGrant f n gid r e d) = d"
      by (auto simp: RevokeGrant_def Let_def split: if_splits)
    with False x show ?thesis by (auto simp: live_def fun_eq_iff)
  qed
qed

lemma RevokeGrantsWhere_Inr:
  assumes "fst (RevokeGrantsWhere f n (Some sc) v r e d) = Inr gs"
  defines "sel \<equiv> \<lambda>x. in_scope sc v x \<and> gt_revoked_at x = None \<and> gt_expires_at x > unix n"
  shows "grants (snd (RevokeGrantsWhere f n (Some sc) v r e d)) =
      update_where sel (\<lambda>x. x\<lparr>gt_revoked_at := Some (unix n), gt_revoke_reason := r\<rparr>) (grants d)"
    and "map gr_GrantID gs = map gt_grant_id (filter sel (grants d))"
proof -
  have "filter sel (grants d) = [] \<Longrightarrow> update_where sel h (grants d) = grants d" for h
    by (simp add: update_where_none affects_def del: affects_iff)
  then show "grants (snd (RevokeGrantsWhere f n (Some sc) v r e d)) =
      update_where sel (\<lambda>x. x\<lparr>gt_revoked_at := Some (unix n), gt_revoke_reason := r\<rparr>) (grants d)"
    using assms(1) unfolding sel_def
    by (auto simp: RevokeGrantsWhere_def Let_def commit_def dest: audit_cascade_grants split: if_splits sum.splits)
  show "map gr_GrantID gs = map gt_grant_id (filter sel (grants d))"
    using assms(1) unfolding sel_def
    by (auto simp: RevokeGrantsWhere_def Let_def commit_def affected_of_def split: if_splits sum.splits)
qed

lemma live_RevokeGrantsWhere:
  assumes "fst (RevokeGrantsWhere f n (Some sc) v r e d) = Inr gs"
  shows "live (snd (RevokeGrantsWhere f n (Some sc) v r e d)) gid =
    (case live d gid of None \<Rightarrow> None | Some x \<Rightarrow> if in_scope sc v x \<and> gt_expires_at x > unix n then None else Some x)"
proof -
  have "gt_revoked_at x = None" if "live d gid = Some x" for x
    using that by (auto simp: live_def split: option.splits if_splits)
  then show ?thesis
    by (subst live_revoke [OF _ RevokeGrantsWhere_Inr(1) [OF assms]]) (auto split: option.split)
qed

text \<open>The other operations leave the grants alone.\<close>

lemma import_ids_grants: "import_ids f k ro rs d = Inr d' \<Longrightarrow> grants d' = grants d"
  by (induction rs arbitrary: k d) (auto split: if_splits)

lemma import_tokens_grants: "import_tokens f k ts d = Inr (m, d') \<Longrightarrow> grants d' = grants d"
  by (induction ts arbitrary: k d) (auto split: if_splits)

lemma grants_unchanged:
  "grants (snd (PutToken f t d)) = grants d" "grants (snd (ConsumeToken h f n n' tok d)) = grants d"
  "grants (snd (PutRecord f r d)) = grants d" "grants (snd (PutPendingSerial f n ro i s d)) = grants d"
  "grants (snd (PromoteSerial f ro i s d)) = grants d" "grants (snd (Revoke f n ro i d)) = grants d"
  "grants (snd (AppendAudit f n e d)) = grants d" "grants (snd (PruneAudit dt f n b a d)) = grants d"
  "grants (snd (CreateSession f n sr e d)) = grants d" "grants (snd (RevokeSession f n s rs e d)) = grants d"
  by (auto simp: store_defs Let_def dest!: appendAudit_grants split: option.split sum.split)

lemma grants_unchanged_import: "grants (snd (ImportLegacyJSON dt u fi f fr n d)) = grants d"
  by (auto simp: ImportLegacyJSON_def dest!: appendAudit_grants import_ids_grants import_tokens_grants
      split: option.split sum.split)

lemma live_exec: "error c d = None \<Longrightarrow> live (exec c d) = abstract_call c (live d)"
proof (cases c)
  case (CRevokeGrantsWhere f n b v r e)
  assume "error c d = None"
  with CRevokeGrantsWhere show ?thesis
    by (cases b) (auto simp: live_RevokeGrantsWhere fun_eq_iff RevokeGrantsWhere_def [of f n None])
qed (auto simp: live_RecordGrant RevokeGrant_Inr grants_unchanged grants_unchanged_import intro: live_cong)

section \<open>Lookups after a sequence of operations\<close>

lemma later_token:
  assumes "db_ok d" and "x \<in> set (enrollment_tokens d)" and "t_consumed_at x = Some t"
  shows "\<exists>y. find (\<lambda>r. t_hash r = t_hash x) (enrollment_tokens (run cs d)) = Some y \<and> t_consumed_at y = Some t"
proof -
  have "rows_later d (run cs d)" by (rule kept.lasts_run) simp
  then obtain y where y: "y \<in> set (enrollment_tokens (run cs d))" "token_later x y"
    using assms(2) by (auto simp: rows_later_def rows_kept_def)
  moreover have "distinct (map t_hash (enrollment_tokens (run cs d)))"
    using run_ok [OF assms(1)] by (simp add: db_ok_def)
  ultimately have "find (\<lambda>r. t_hash r = t_hash y) (enrollment_tokens (run cs d)) = Some y"
    by (simp add: find_distinct)
  with y(2) assms(3) show ?thesis by (simp add: token_later_def)
qed

lemma later_grant:
  assumes "db_ok d" and "find (\<lambda>x. gt_grant_id x = gid) (grants d) = Some x"
  shows "\<exists>y. find (\<lambda>x. gt_grant_id x = gid) (grants (run cs d)) = Some y \<and> grant_later x y"
proof -
  have x: "x \<in> set (grants d)" "gt_grant_id x = gid" using find_Some_in [OF assms(2)] by auto
  have "rows_later d (run cs d)" by (rule kept.lasts_run) simp
  with x(1) obtain y where y: "y \<in> set (grants (run cs d))" "grant_later x y"
    by (auto simp: rows_later_def rows_kept_def)
  moreover have "distinct (map gt_grant_id (grants (run cs d)))"
    using run_ok [OF assms(1)] by (simp add: db_ok_def)
  ultimately have "find (\<lambda>r. gt_grant_id r = gt_grant_id y) (grants (run cs d)) = Some y"
    by (simp add: find_distinct)
  moreover from y(2) x(2) have "gt_grant_id y = gid" by (auto simp: grant_later_def)
  ultimately show ?thesis using y(2) by simp
qed

lemma later_session:
  assumes "db_ok d" and "find (\<lambda>x. s_token_hash x = h) (operator_sessions d) = Some x"
  shows "\<exists>y. find (\<lambda>x. s_token_hash x = h) (operator_sessions (run cs d)) = Some y \<and> session_later x y"
proof -
  have x: "x \<in> set (operator_sessions d)" "s_token_hash x = h" using find_Some_in [OF assms(2)] by auto
  have "rows_later d (run cs d)" by (rule kept.lasts_run) simp
  with x(1) obtain y where y: "y \<in> set (operator_sessions (run cs d))" "session_later x y"
    by (auto simp: rows_later_def rows_kept_def)
  moreover have "distinct (map s_token_hash (operator_sessions (run cs d)))"
    using run_ok [OF assms(1)] by (simp add: db_ok_def)
  ultimately have "find (\<lambda>r. s_token_hash r = s_token_hash y) (operator_sessions (run cs d)) = Some y"
    by (simp add: find_distinct)
  moreover from y(2) x(2) have "s_token_hash y = h" by (auto simp: session_later_def)
  ultimately show ?thesis using y(2) by simp
qed

lemma grant_of_later:
  assumes "grant_later x y"
  shows "grant_of y = grant_of x \<or> \<not> grant_Revoked (grant_of x) \<and>
    (\<exists>t r. grant_of y = (grant_of x)\<lparr>gr_RevokedAt := Some t, gr_RevokeReason := r\<rparr>)"
  using assms by (auto simp: grant_later_def grant_of_def fromNullUnix_def grant_Revoked_def)

lemma ConsumeToken_Inr:
  assumes "fst (ConsumeToken h f n n' tok d) = Inr t"
  shows "\<exists>x\<in>set (enrollment_tokens (snd (ConsumeToken h f n n' tok d))).
    t_hash x = HashToken h tok \<and> t_consumed_at x = Some (unix n')"
proof -
  from assms obtain x where x: "find (\<lambda>r. t_hash r = HashToken h tok) (enrollment_tokens d) = Some x"
    "t_consumed_at x = None"
    by (auto simp: ConsumeToken_def Let_def token_of_def split: if_splits option.splits)
  have d': "enrollment_tokens (snd (ConsumeToken h f n n' tok d)) =
    update_where (\<lambda>r. t_hash r = HashToken h tok \<and> t_consumed_at r = None)
      (\<lambda>r. r\<lparr>t_consumed_at := Some (unix n')\<rparr>) (enrollment_tokens d)"
    using assms by (auto simp: ConsumeToken_def Let_def commit_def split: if_splits option.splits)
  from find_Some_in [OF x(1)] have "x \<in> set (enrollment_tokens d)" "t_hash x = HashToken h tok" by auto
  with in_update_where [OF this(1), of "\<lambda>r. t_hash r = HashToken h tok \<and> t_consumed_at r = None"
      "\<lambda>r. r\<lparr>t_consumed_at := Some (unix n')\<rparr>"] x(2)
  show ?thesis unfolding d'
    by (intro bexI [of _ "x\<lparr>t_consumed_at := Some (unix n')\<rparr>"]) simp_all
qed

lemma ConsumeToken_consumed:
  assumes "find (\<lambda>r. t_hash r = HashToken h tok) (enrollment_tokens d) = Some y" and "t_consumed_at y = Some t"
  shows "fst (ConsumeToken h f n n' tok d) = Inl (if f 0 \<or> f 1 then ErrSQL else ErrTokenConsumed)"
  using assms by (simp add: ConsumeToken_def token_of_def fromNullUnix_def Let_def)

section \<open>Properties\<close>

text \<open>C15: Whatever operations ran since the database was empty, in whatever order and with whatever
  failures, its tables are in order: keys and token hashes are unique, every grant that names a
  session refers to one that exists, and the audit rows have names and strictly increasing
  numbers.\<close>
theorem store_integrity: "db_ok (run cs empty_db)"
  by (rule run_ok) (rule db_ok_empty)

text \<open>C9: An enrollment token works once. After it has been consumed, no sequence of further
  operations (issuing the same token again included) makes it usable: the second attempt is told
  that it was used, or that the database failed.\<close>
theorem token_single_use:
  assumes "db_ok d" and "fst (ConsumeToken h f n n' tok d) = Inr t"
  shows "fst (ConsumeToken h f2 n2 n2' tok (run cs (snd (ConsumeToken h f n n' tok d)))) =
    Inl (if f2 0 \<or> f2 1 then ErrSQL else ErrTokenConsumed)"
proof -
  let ?d = "snd (ConsumeToken h f n n' tok d)"
  have ok: "db_ok ?d" using exec_ok [OF assms(1), of "CConsumeToken h f n n' tok"] by simp
  from ConsumeToken_Inr [OF assms(2)] obtain x where "x \<in> set (enrollment_tokens ?d)"
    "t_hash x = HashToken h tok" "t_consumed_at x = Some (unix n')" by blast
  with later_token [OF ok this(1,3), of cs] obtain y where
    "find (\<lambda>r. t_hash r = HashToken h tok) (enrollment_tokens (run cs ?d)) = Some y"
    "t_consumed_at y = Some (unix n')" by auto
  then show ?thesis by (rule ConsumeToken_consumed)
qed

definition demo_db :: db where
  "demo_db = run [CPutToken (\<lambda>_. False) \<lparr>k_Hash = [], k_Role = ''device'', k_ID = ''d1'', k_IssuedAt = 0,
     k_ExpiresAt = 3600 * Second, k_ConsumedAt = None\<rparr>] empty_db"

lemma demo_db_row: "enrollment_tokens demo_db = [\<lparr>t_hash = [], t_role = ''device'', t_id = ''d1'',
  t_issued_at = unix 0, t_expires_at = unix (3600 * Second), t_consumed_at = None\<rparr>]"
  by (simp add: demo_db_def PutToken_def empty_db_def nullUnix_def)

theorem token_single_use_witness:
  "fst (ConsumeToken (\<lambda>_. []) (\<lambda>_. False) 1 1 ''tok''
     (snd (ConsumeToken (\<lambda>_. []) (\<lambda>_. False) 0 0 ''tok'' demo_db))) = Inl ErrTokenConsumed"
proof -
  have ok: "db_ok demo_db" by (simp add: demo_db_def del: run_simps)
  have e: "fromUnix (unix (3600 * Second)) = 3600 * Second"
    by (simp add: time_ok_def Truncate_sec_def Second_def)
  have "\<exists>t. fst (ConsumeToken (\<lambda>_. []) (\<lambda>_. False) 0 0 ''tok'' demo_db) = Inr t"
    by (simp add: ConsumeToken_def HashToken_def demo_db_row token_of_def fromNullUnix_def commit_def e Let_def not_less)
  with token_single_use [OF ok, of "\<lambda>_. []" "\<lambda>_. False" 0 0 "''tok''" _ "\<lambda>_. False" 1 1 "[]"]
  show ?thesis by auto
qed

text \<open>C33: Revocation is final and nothing else about a grant ever changes: a later lookup of a grant
  returns the same record, or, if it was not yet revoked, the same record with a revocation. A
  bearer token whose session was revoked stays refused as revoked.\<close>
theorem revocation_permanent:
  assumes "db_ok d" and "LookupGrant False gid d = Inr g"
  shows "(\<exists>g'. LookupGrant False gid (run cs d) = Inr g' \<and>
      (g' = g \<or> \<not> grant_Revoked g \<and> (\<exists>t r. g' = g\<lparr>gr_RevokedAt := Some t, gr_RevokeReason := r\<rparr>))) \<and>
    (LookupSession h False now tok d = Inl ErrSessionRevoked \<longrightarrow>
      LookupSession h False now' tok (run cs d) = Inl ErrSessionRevoked)"
proof
  from assms(2) obtain x where x: "find (\<lambda>x. gt_grant_id x = gid) (grants d) = Some x" "g = grant_of x"
    by (auto simp: LookupGrant_def split: option.splits)
  from later_grant [OF assms(1) x(1), of cs] x(2)
  show "\<exists>g'. LookupGrant False gid (run cs d) = Inr g' \<and>
      (g' = g \<or> \<not> grant_Revoked g \<and> (\<exists>t r. g' = g\<lparr>gr_RevokedAt := Some t, gr_RevokeReason := r\<rparr>))"
    using grant_of_later by (force simp: LookupGrant_def)
  show "LookupSession h False now tok d = Inl ErrSessionRevoked \<longrightarrow>
      LookupSession h False now' tok (run cs d) = Inl ErrSessionRevoked"
  proof
    assume "LookupSession h False now tok d = Inl ErrSessionRevoked"
    then obtain s where s: "find (\<lambda>x. s_token_hash x = HashToken h tok) (operator_sessions d) = Some s"
      "s_revoked_at s \<noteq> None"
      by (auto simp: LookupSession_def Let_def session_of_def fromNullUnix_def split: option.splits if_splits)
    from later_session [OF assms(1) s(1), of cs] s(2)
    show "LookupSession h False now' tok (run cs d) = Inl ErrSessionRevoked"
      by (auto simp: session_later_def LookupSession_def Let_def session_of_def fromNullUnix_def)
  qed
qed

definition demo_record :: grant_record where
  "demo_record = \<lparr>gr_GrantID = ''grn_1'', gr_OrgID = [], gr_UserID = ''u'', gr_DeviceID = ''d'', gr_ResourceID = ''r'',
     gr_PolicyID = ''p'', gr_SessionID = [], gr_IssuedAt = 0, gr_ExpiresAt = 600 * Second, gr_MaxBytes = 7,
     gr_RevokedAt = None, gr_RevokeReason = []\<rparr>"

definition demo_event :: audit_event where
  "demo_event = no_event\<lparr>e_Event := ''grant.created'', e_GrantID := ''grn_1''\<rparr>"

lemma demo_record_ok: "fst (RecordGrant (\<lambda>_. False) 5 demo_record demo_event empty_db) = Inr ()"
  by (simp add: RecordGrant_def demo_record_def demo_event_def no_event_def empty_db_def appendAudit_def
      grant_row_of_def foreign_key_ok_def IsZero_def zero_time_def maxSeq_def commit_def)

text \<open>A grant that was recorded is found under its identifier with every field as it was given,
  the two times to the second and the byte budget without loss in the signed column.\<close>
theorem recorded_grant_found:
  assumes "fst (RecordGrant f n g e d) = Inr ()" and "time_ok (gr_IssuedAt g)" and "time_ok (gr_ExpiresAt g)"
    and "gr_RevokedAt g = None" and "gr_RevokeReason g = []"
  shows "LookupGrant False (gr_GrantID g) (snd (RecordGrant f n g e d)) =
    Inr (g\<lparr>gr_IssuedAt := Truncate_sec (gr_IssuedAt g), gr_ExpiresAt := Truncate_sec (gr_ExpiresAt g)\<rparr>)"
proof -
  have "live (snd (RecordGrant f n g e d)) (gr_GrantID g) = Some (grant_row_of g)"
    by (simp add: live_RecordGrant [OF assms(1)])
  then have "find (\<lambda>x. gt_grant_id x = gr_GrantID g) (grants (snd (RecordGrant f n g e d))) = Some (grant_row_of g)"
    by (auto simp: live_def split: option.splits if_splits)
  with assms(2-) show ?thesis
    by (cases g) (simp add: LookupGrant_def grant_of_def grant_row_of_def fromNullUnix_def)
qed

theorem recorded_grant_found_witness:
  "LookupGrant False ''grn_1'' (snd (RecordGrant (\<lambda>_. False) 5 demo_record demo_event empty_db)) = Inr demo_record"
  using recorded_grant_found [OF demo_record_ok]
  by (simp add: demo_record_def time_ok_def Second_def Truncate_sec_def)

theorem revocation_permanent_witness:
  "\<exists>g'. LookupGrant False ''grn_1'' (run [CRevokeGrant (\<lambda>_. False) 9 ''grn_1'' ''x'' demo_event]
     (snd (RecordGrant (\<lambda>_. False) 5 demo_record demo_event empty_db))) = Inr g' \<and> gr_UserID g' = ''u''"
proof -
  let ?d = "snd (RecordGrant (\<lambda>_. False) 5 demo_record demo_event empty_db)"
  have "db_ok ?d" using exec_ok [OF db_ok_empty, of "CRecordGrant (\<lambda>_. False) 5 demo_record demo_event"] by simp
  moreover have "live ?d ''grn_1'' = Some (grant_row_of demo_record)"
    by (simp add: live_RecordGrant [OF demo_record_ok]) (simp add: demo_record_def)
  then have "LookupGrant False ''grn_1'' ?d = Inr (grant_of (grant_row_of demo_record))"
    by (auto simp: live_def LookupGrant_def split: option.splits if_splits)
  ultimately show ?thesis
    using revocation_permanent [of ?d "''grn_1''" "grant_of (grant_row_of demo_record)"
        "[CRevokeGrant (\<lambda>_. False) 9 ''grn_1'' ''x'' demo_event]" "\<lambda>_. []" 0 "[]" 0]
    by (auto simp: grant_of_def grant_row_of_def demo_record_def)
qed

text \<open>C16: The store implements a registry of live grants. Each call of the store, whatever its
  outcome, changes the set of unrevoked grants exactly as the registry's operation does:
  recording adds the grant, revoking removes it, a cascade removes every unexpired grant in its
  scope, and every other call, and every call that reports an error, leaves the set as it was.\<close>
theorem live_grants_refine:
  "live (exec c d) = (if error c d = None then abstract_call c (live d) else live d)"
proof (cases "error c d")
  case None
  then show ?thesis by (simp add: live_exec)
next
  case (Some e)
  have "live (exec c d) = live d"
  proof (cases "rows_affected_fails c")
    case True
    then show ?thesis
      by (cases c rule: rows_affected_fails.cases) (auto simp: grants_unchanged intro: live_cong)
  qed (simp add: error_rollback [OF Some])
  with Some show ?thesis by simp
qed



text \<open>C35: The audit trail is evidence. No sequence of calls edits a row or inserts one among the
  earlier ones; without a call of \<open>PruneAudit\<close> the trail only grows at its end; and a successful
  \<open>PruneAudit\<close> removes exactly the rows from before its cutoff, reports how many, and leaves a row that
  says so.\<close>
theorem audit_evidence:
  "(\<forall>r\<in>set (audit_events (run cs d)). r \<in> set (audit_events d) \<or> audit_last d < a_seq r) \<and>
   (filter is_prune cs = [] \<longrightarrow> (\<exists>rows. audit_events (run cs d) = audit_events d @ rows)) \<and>
   (fst (PruneAudit dt f n b a d) = Inr k \<longrightarrow>
     (\<exists>row. audit_events (snd (PruneAudit dt f n b a d)) =
         filter (\<lambda>r. a_ts r \<ge> unix b) (audit_events d) @ [row] \<and>
       a_reason row = ''audit_retention'' \<and> a_actor_id row = a) \<and>
     k = length (filter (\<lambda>r. a_ts r < unix b) (audit_events d)))"
proof (intro conjI)
  have "audit_kept d (run cs d)" by (rule kept_audit.lasts_run) simp
  then show "\<forall>r\<in>set (audit_events (run cs d)). r \<in> set (audit_events d) \<or> audit_last d < a_seq r"
    by (simp add: audit_kept_def)
  show "filter is_prune cs = [] \<longrightarrow> (\<exists>rows. audit_events (run cs d) = audit_events d @ rows)"
    using append_only.lasts_run [of cs d] by (auto simp: audit_prefix_def filter_empty_conv)
  show "fst (PruneAudit dt f n b a d) = Inr k \<longrightarrow>
     (\<exists>row. audit_events (snd (PruneAudit dt f n b a d)) =
         filter (\<lambda>r. a_ts r \<ge> unix b) (audit_events d) @ [row] \<and>
       a_reason row = ''audit_retention'' \<and> a_actor_id row = a) \<and>
     k = length (filter (\<lambda>r. a_ts r < unix b) (audit_events d))"
    by (auto simp: PruneAudit_def Let_def commit_def audit_grown_def audit_row_of_def not_less
        dest!: appendAudit_Inr split: if_splits sum.splits)
qed

theorem audit_evidence_witness:
  "\<exists>row. audit_events (snd (PruneAudit (\<lambda>_ _. []) (\<lambda>_. False) 9 1 ''root'' empty_db)) = [row] \<and>
     a_reason row = ''audit_retention''"
proof -
  have "fst (PruneAudit (\<lambda>_ _. []) (\<lambda>_. False) 9 1 ''root'' empty_db) = Inr 0"
    by (simp add: PruneAudit_def IsZero_def zero_time_def empty_db_def appendAudit_def no_event_def maxSeq_def
        commit_def Let_def)
  with audit_evidence [of "[]" empty_db "\<lambda>_ _. []" "\<lambda>_. False" 9 1 "''root''" 0] show ?thesis
    by (auto simp: empty_db_def)
qed

end
