(* ===== verification/Control_Audit.thy ===== *)
theory Control_Audit
  imports Store_Access
begin

text \<open>
  The audit vocabulary and the recorder, \<open>internal/control/audit/audit.go\<close>. A recorder with no store
  does nothing; one with a store appends and swallows the error, so its operations return the
  database alone.
\<close>

definition EventDeviceEnrolled :: string where "EventDeviceEnrolled = ''device.enrolled''"
definition EventDeviceRevoked :: string where "EventDeviceRevoked = ''device.revoked''"
definition EventOperatorEnrolled :: string where "EventOperatorEnrolled = ''operator.enrolled''"
definition EventOperatorRevoked :: string where "EventOperatorRevoked = ''operator.revoked''"
definition EventEnrollDenied :: string where "EventEnrollDenied = ''enroll.denied''"
definition EventDeviceRenewed :: string where "EventDeviceRenewed = ''device.renewed''"
definition EventOperatorRenewed :: string where "EventOperatorRenewed = ''operator.renewed''"
definition EventRenewDenied :: string where "EventRenewDenied = ''renew.denied''"
definition EventDeviceConnected :: string where "EventDeviceConnected = ''device.connected''"
definition EventDeviceDisconnected :: string where "EventDeviceDisconnected = ''device.disconnected''"
definition EventOperatorLogin :: string where "EventOperatorLogin = ''operator.login''"
definition EventOperatorLoginDenied :: string where "EventOperatorLoginDenied = ''operator.login_denied''"
definition EventOperatorLogout :: string where "EventOperatorLogout = ''operator.logout''"
definition EventOperatorSessionEnded :: string where "EventOperatorSessionEnded = ''operator.session_revoked''"
definition EventGrantCreated :: string where "EventGrantCreated = ''grant.created''"
definition EventGrantDenied :: string where "EventGrantDenied = ''grant.denied''"
definition EventGrantRevoked :: string where "EventGrantRevoked = ''grant.revoked''"
definition EventStreamOpened :: string where "EventStreamOpened = ''stream.opened''"
definition EventStreamDenied :: string where "EventStreamDenied = ''stream.denied''"
definition EventStreamClosed :: string where "EventStreamClosed = ''stream.closed''"
definition EventAdminAction :: string where "EventAdminAction = ''admin.action''"

lemmas event_defs = EventDeviceEnrolled_def EventDeviceRevoked_def EventOperatorEnrolled_def
  EventOperatorRevoked_def EventEnrollDenied_def EventDeviceRenewed_def EventOperatorRenewed_def
  EventRenewDenied_def EventDeviceConnected_def EventDeviceDisconnected_def EventOperatorLogin_def
  EventOperatorLoginDenied_def EventOperatorLogout_def EventOperatorSessionEnded_def EventGrantCreated_def
  EventGrantDenied_def EventGrantRevoked_def EventStreamOpened_def EventStreamDenied_def
  EventStreamClosed_def EventAdminAction_def

definition RoleOperatorName :: string where "RoleOperatorName = ''operator''"
definition RoleDevice :: string where "RoleDevice = ''device''"
definition RoleAdmin :: string where "RoleAdmin = ''admin''"
definition RoleSystem :: string where "RoleSystem = ''system''"

text \<open>A recorder and the environment of one call of it: whether it has a store, whether the insert
  fails, and the time.\<close>

record recorder =
  rec_store :: bool
  rec_fails :: faults
  rec_now :: time

definition Record :: "recorder \<Rightarrow> audit_event \<Rightarrow> db \<Rightarrow> db" where
  "Record r e d =
    (if \<not> rec_store r then d
     else let e = (if IsZero (e_At e) then e\<lparr>e_At := rec_now r\<rparr> else e) in
       snd (AppendAudit (rec_fails r) (rec_now r) e d))"

definition StreamOpened :: "recorder \<Rightarrow> string \<Rightarrow> string \<Rightarrow> string \<Rightarrow> string \<Rightarrow> string \<Rightarrow> db \<Rightarrow> db" where
  "StreamOpened r userID deviceID resourceID grantID sessionID =
    Record r (no_event\<lparr>e_Event := EventStreamOpened, e_ActorRole := RoleOperatorName, e_ActorID := userID,
      e_DeviceID := deviceID, e_ResourceID := resourceID, e_GrantID := grantID, e_SessionID := sessionID\<rparr>)"

definition StreamDenied :: "recorder \<Rightarrow> string \<Rightarrow> string \<Rightarrow> string \<Rightarrow> string \<Rightarrow> string \<Rightarrow> string \<Rightarrow> db \<Rightarrow> db" where
  "StreamDenied r userID deviceID resourceID grantID reason detail =
    Record r (no_event\<lparr>e_Event := EventStreamDenied, e_ActorRole := RoleOperatorName, e_ActorID := userID,
      e_DeviceID := deviceID, e_ResourceID := resourceID, e_GrantID := grantID, e_Reason := reason,
      e_Detail := detail\<rparr>)"

text \<open>\<open>Duration.Milliseconds\<close> divides toward zero.\<close>

definition Milliseconds :: "duration \<Rightarrow> int" where
  "Milliseconds d = sgn d * (\<bar>d\<bar> div Millisecond)"

definition StreamClosed ::
  "recorder \<Rightarrow> string \<Rightarrow> string \<Rightarrow> string \<Rightarrow> string \<Rightarrow> u64 \<Rightarrow> u64 \<Rightarrow> duration \<Rightarrow> string \<Rightarrow> db \<Rightarrow> db" where
  "StreamClosed r userID deviceID resourceID grantID bytesIn bytesOut dur reason =
    Record r (no_event\<lparr>e_Event := EventStreamClosed, e_ActorRole := RoleOperatorName, e_ActorID := userID,
      e_DeviceID := deviceID, e_ResourceID := resourceID, e_GrantID := grantID, e_BytesIn := bytesIn,
      e_BytesOut := bytesOut, e_DurationMS := Milliseconds dur, e_Reason := reason\<rparr>)"

definition DeviceConnected :: "recorder \<Rightarrow> string \<Rightarrow> string \<Rightarrow> db \<Rightarrow> db" where
  "DeviceConnected r deviceID detail =
    Record r (no_event\<lparr>e_Event := EventDeviceConnected, e_ActorRole := RoleDevice, e_ActorID := deviceID,
      e_DeviceID := deviceID, e_Detail := detail\<rparr>)"

definition DeviceDisconnected :: "recorder \<Rightarrow> string \<Rightarrow> string \<Rightarrow> db \<Rightarrow> db" where
  "DeviceDisconnected r deviceID reason =
    Record r (no_event\<lparr>e_Event := EventDeviceDisconnected, e_ActorRole := RoleDevice, e_ActorID := deviceID,
      e_DeviceID := deviceID, e_Reason := reason\<rparr>)"

definition Enrolled :: "recorder \<Rightarrow> string \<Rightarrow> string \<Rightarrow> string \<Rightarrow> db \<Rightarrow> db" where
  "Enrolled r role ident detail =
    (let event = (if role = RoleOperatorName then EventOperatorEnrolled else EventDeviceEnrolled);
         e = no_event\<lparr>e_Event := event, e_ActorRole := role, e_ActorID := ident, e_Detail := detail\<rparr>;
         e = (if role = RoleDevice then e\<lparr>e_DeviceID := ident\<rparr> else e)
     in Record r e)"

definition Renewed :: "recorder \<Rightarrow> string \<Rightarrow> string \<Rightarrow> string \<Rightarrow> db \<Rightarrow> db" where
  "Renewed r role ident detail =
    (let event = (if role = RoleOperatorName then EventOperatorRenewed else EventDeviceRenewed);
         e = no_event\<lparr>e_Event := event, e_ActorRole := role, e_ActorID := ident, e_Detail := detail\<rparr>;
         e = (if role = RoleDevice then e\<lparr>e_DeviceID := ident\<rparr> else e)
     in Record r e)"

definition EnrollDenied :: "recorder \<Rightarrow> string \<Rightarrow> string \<Rightarrow> db \<Rightarrow> db" where
  "EnrollDenied r remote reason =
    Record r (no_event\<lparr>e_Event := EventEnrollDenied, e_ActorRole := RoleSystem, e_Reason := reason,
      e_Detail := ''from '' @ remote\<rparr>)"

section \<open>Lemmas\<close>

text \<open>Recording never touches anything but the audit trail.\<close>

lemma Record_tables [simp]:
  "identities (Record r e d) = identities d" "enrollment_tokens (Record r e d) = enrollment_tokens d"
  "operator_sessions (Record r e d) = operator_sessions d" "grants (Record r e d) = grants d"
  by (auto simp: Record_def AppendAudit_def appendAudit_def Let_def)

lemma Record_appends:
  assumes "rec_store r" and "\<not> rec_fails r 0" and "e_Event e \<noteq> []" and "audit_last d < maxSeq"
  shows "audit_events (Record r e d) = audit_events d @
    [audit_row_of (audit_last d + 1) (if IsZero (e_At e) then e\<lparr>e_At := rec_now r\<rparr> else e)]"
  using assms by (auto simp: Record_def AppendAudit_def appendAudit_def Let_def IsZero_def)

end
