(* ===== verification/Issuer.thy ===== *)
theory Issuer
  imports Policy Store Control_Audit
begin

text \<open>
  Issuing grants, \<open>internal/control/grants/grants.go\<close>: policy, signature, record and audit event in one
  function. Ed25519 signing and the random identifier (\<open>crypto/rand\<close>, \<^term>\<open>None\<close> when it fails) are
  arguments.
\<close>

datatype issue_err = ErrDenied | ErrRand | ErrSign grant_err | ErrNotRecorded store_err

record 'sk issuer =
  is_key :: 'sk
  is_keyID :: string
  is_store :: bool

definition PrivateKeySize :: nat where "PrivateKeySize = 64"

definition NewIssuer :: "byte list \<Rightarrow> string \<Rightarrow> string + byte list issuer" where
  "NewIssuer key keyID =
    (if length key \<noteq> PrivateKeySize then Inl ''grants: signing key size''
     else if keyID = '''' then Inl ''grants: key id is required''
     else Inr \<lparr>is_key = key, is_keyID = keyID, is_store = False\<rparr>)"

definition WithStore :: "bool \<Rightarrow> 'sk issuer \<Rightarrow> 'sk issuer" where
  "WithStore store i = i\<lparr>is_store := store\<rparr>"

record request =
  q_OrgID :: string
  q_UserID :: string
  q_DeviceID :: string
  q_ResourceID :: string
  q_RequestedTTL :: duration
  q_MaxBytes :: u64
  q_SessionID :: string

definition newGrantID :: "byte list option \<Rightarrow> issue_err + string" where
  "newGrantID rnd = (case rnd of None \<Rightarrow> Inl ErrRand | Some b \<Rightarrow> Inr (''grn_'' @ hex_encode b))"

definition recordDenial :: "'sk issuer \<Rightarrow> faults \<Rightarrow> time \<Rightarrow> request \<Rightarrow> decision \<Rightarrow> db \<Rightarrow> db" where
  "recordDenial i fails now req dec d =
    (if \<not> is_store i then d
     else snd (AppendAudit fails now (no_event\<lparr>e_Event := EventGrantDenied, e_OrgID := q_OrgID req,
       e_ActorRole := RoleOperatorName, e_ActorID := q_UserID req, e_DeviceID := q_DeviceID req,
       e_ResourceID := q_ResourceID req, e_SessionID := q_SessionID req, e_Reason := d_Reason dec\<rparr>) d))"

text \<open>The lifetime of the issued grant.\<close>

definition issue_ttl :: "request \<Rightarrow> decision \<Rightarrow> duration" where
  "issue_ttl req dec =
    (let ttl = q_RequestedTTL req;
         ttl = (if ttl \<le> 0 \<or> ttl > d_MaxTTL dec then d_MaxTTL dec else ttl);
         ttl = (if ttl > MaxGrantTTL then MaxGrantTTL else ttl) in ttl)"

definition grant_for :: "'sk issuer \<Rightarrow> string \<Rightarrow> time \<Rightarrow> duration \<Rightarrow> request \<Rightarrow> grant" where
  "grant_for i grantID now ttl req =
    \<lparr>g_Version = 0, g_KeyID = is_keyID i, g_GrantID = grantID, g_OrgID = q_OrgID req, g_UserID = q_UserID req,
     g_DeviceID = q_DeviceID req, g_ResourceID = q_ResourceID req, g_IssuedAt = now, g_ExpiresAt = now + ttl,
     g_MaxBytes = q_MaxBytes req\<rparr>"

definition record_for :: "signed_grant \<Rightarrow> decision \<Rightarrow> request \<Rightarrow> grant_record" where
  "record_for s dec req =
    \<lparr>gr_GrantID = g_GrantID s, gr_OrgID = g_OrgID s, gr_UserID = g_UserID s, gr_DeviceID = g_DeviceID s,
     gr_ResourceID = g_ResourceID s, gr_PolicyID = d_PolicyID dec, gr_SessionID = q_SessionID req,
     gr_IssuedAt = g_IssuedAt s, gr_ExpiresAt = g_ExpiresAt s, gr_MaxBytes = g_MaxBytes s,
     gr_RevokedAt = None, gr_RevokeReason = []\<rparr>"

definition event_for :: "signed_grant \<Rightarrow> decision \<Rightarrow> request \<Rightarrow> audit_event" where
  "event_for s dec req =
    no_event\<lparr>e_At := g_IssuedAt s, e_Event := EventGrantCreated, e_OrgID := g_OrgID s,
      e_ActorRole := RoleOperatorName, e_ActorID := g_UserID s, e_DeviceID := g_DeviceID s,
      e_ResourceID := g_ResourceID s, e_GrantID := g_GrantID s, e_SessionID := q_SessionID req,
      e_Detail := ''policy '' @ d_PolicyID dec\<rparr>"

text \<open>\<open>now\<close> is the clock when the grant is made and \<open>now'\<close> the clock of the store.\<close>

definition Issue ::
  "('sk \<Rightarrow> byte list \<Rightarrow> byte list) \<Rightarrow> 'sk issuer \<Rightarrow> faults \<Rightarrow> byte list option \<Rightarrow> time \<Rightarrow> time \<Rightarrow>
     rule list \<Rightarrow> request \<Rightarrow> db \<Rightarrow> (issue_err + signed_grant) \<times> decision \<times> db" where
  "Issue ed_sign i fails rnd now now' rules req d =
    (let dec = Evaluate rules (q_UserID req) (q_DeviceID req) (q_ResourceID req) in
     if \<not> d_Allowed dec then (Inl ErrDenied, dec, recordDenial i fails now' req dec d)
     else
       let ttl = issue_ttl req dec in
       case newGrantID rnd of
         Inl e \<Rightarrow> (Inl e, dec, d)
       | Inr grantID \<Rightarrow>
         (case Sign ed_sign (grant_for i grantID (Truncate_sec now) ttl req) (is_key i) of
            Inl e \<Rightarrow> (Inl (ErrSign e), dec, d)
          | Inr s \<Rightarrow>
              if is_store i then
                (case RecordGrant fails now' (record_for s dec req) (event_for s dec req) d of
                   (Inl e, d') \<Rightarrow> (Inl (ErrNotRecorded e), dec, d')
                 | (Inr _, d') \<Rightarrow> (Inr s, dec, d'))
              else (Inr s, dec, d)))"

record grant_state =
  st_Known :: bool
  st_Revoked :: bool
  st_SessionID :: string
  st_UserID :: string

definition unknown_state :: grant_state where
  "unknown_state = \<lparr>st_Known = False, st_Revoked = False, st_SessionID = [], st_UserID = []\<rparr>"

definition StateOf :: "bool \<Rightarrow> string \<Rightarrow> db \<Rightarrow> store_err + grant_state" where
  "StateOf failed grantID d =
    (case LookupGrant failed grantID d of
       Inl ErrGrantUnknown \<Rightarrow> Inr unknown_state
     | Inl e \<Rightarrow> Inl e
     | Inr r \<Rightarrow> Inr \<lparr>st_Known = True, st_Revoked = grant_Revoked r, st_SessionID = gr_SessionID r,
         st_UserID = gr_UserID r\<rparr>)"

section \<open>Lemmas\<close>

lemma issue_ttl_bounds:
  assumes "d_Allowed (Evaluate rules u v x)"
  shows "0 < issue_ttl req (Evaluate rules u v x)"
    and "issue_ttl req (Evaluate rules u v x) \<le> d_MaxTTL (Evaluate rules u v x)"
    and "issue_ttl req (Evaluate rules u v x) \<le> MaxGrantTTL"
proof -
  have "0 < d_MaxTTL (Evaluate rules u v x) \<and> d_MaxTTL (Evaluate rules u v x) \<le> MaxGrantTTL"
    by (rule Evaluate_ttl [OF assms])
  then show "0 < issue_ttl req (Evaluate rules u v x)"
    "issue_ttl req (Evaluate rules u v x) \<le> d_MaxTTL (Evaluate rules u v x)"
    "issue_ttl req (Evaluate rules u v x) \<le> MaxGrantTTL"
    by (auto simp: issue_ttl_def Let_def)
qed

lemma Issue_Inr:
  assumes "Issue ed_sign i fails rnd now now' rules req d = (Inr s, dec, d')"
  shows "dec = Evaluate rules (q_UserID req) (q_DeviceID req) (q_ResourceID req)" and "d_Allowed dec"
    and "\<exists>b. rnd = Some b \<and>
      Sign ed_sign (grant_for i (''grn_'' @ hex_encode b) (Truncate_sec now) (issue_ttl req dec) req) (is_key i) = Inr s"
    and "is_store i \<Longrightarrow> RecordGrant fails now' (record_for s dec req) (event_for s dec req) d = (Inr (), d')"
  using assms by (auto simp: Issue_def newGrantID_def Let_def split: if_splits sum.splits option.splits prod.splits)

lemma RecordGrant_Inl: "RecordGrant f n g e d = (Inl er, d') \<Longrightarrow> d' = d"
  using RecordGrant_tx.rollback [of f n g e d er] by simp

lemma Sign_grant_for:
  assumes "Sign ed_sign (grant_for i gid now ttl req) key = Inr s"
  shows "g_UserID s = q_UserID req" "g_DeviceID s = q_DeviceID req" "g_ResourceID s = q_ResourceID req"
    "g_GrantID s = gid" "g_OrgID s = q_OrgID req" "g_MaxBytes s = q_MaxBytes req" "g_KeyID s = is_keyID i"
    "g_IssuedAt s = Truncate_sec now" "g_ExpiresAt s = Truncate_sec (now + ttl)"
  using assms by (auto simp: Sign_Inr_iff grant_for_def grant_normal_def grant.defs)

lemma RecordGrant_audit:
  assumes "RecordGrant f n g e d = (Inr (), d')"
  shows "\<exists>row. audit_events d' = audit_events d @ [row] \<and> a_event row = e_Event e \<and> a_grant_id row = e_GrantID e \<and>
    a_actor_id row = e_ActorID e"
proof -
  from assms have "appendAudit (f 2) n e (d\<lparr>grants := grants d @ [grant_row_of g]\<rparr>) = Inr d'"
    by (auto simp: RecordGrant_def commit_def split: if_splits sum.splits)
  from appendAudit_Inr [OF this] show ?thesis
    by (auto simp: audit_grown_def audit_row_of_def)
qed

section \<open>Properties\<close>

lemma Issue_ok:
  assumes "Evaluate rules (q_UserID req) (q_DeviceID req) (q_ResourceID req) = dec" and "d_Allowed dec"
    and "Sign ed_sign (grant_for i (''grn_'' @ hex_encode b) (Truncate_sec now) (issue_ttl req dec) req) (is_key i) = Inr s"
    and "is_store i" and "RecordGrant fails now' (record_for s dec req) (event_for s dec req) d = (Inr (), d')"
  shows "Issue ed_sign i fails (Some b) now now' rules req d = (Inr s, dec, d')"
  using assms by (simp add: Issue_def newGrantID_def Let_def)

lemma Issue_refused:
  assumes "Issue ed_sign i fails rnd now now' rules req d = (Inl e, dec, d')"
  shows "grants d' = grants d" and "live d' = live d"
proof -
  show "grants d' = grants d"
    using assms
    by (auto simp: Issue_def Let_def recordDenial_def grants_unchanged
        dest: RecordGrant_Inl split: if_splits sum.splits prod.splits)
  then show "live d' = live d" using live_cong [of d' d] by simp
qed

lemma Issue_issued:
  assumes "Issue ed_sign i fails rnd now now' rules req d = (Inr s, dec, d')"
  shows "dec = Evaluate rules (q_UserID req) (q_DeviceID req) (q_ResourceID req)" and "d_Allowed dec"
    and "g_UserID s = q_UserID req" and "g_DeviceID s = q_DeviceID req" and "g_ResourceID s = q_ResourceID req"
    and "g_ExpiresAt s - g_IssuedAt s \<le> d_MaxTTL dec" and "g_ExpiresAt s - g_IssuedAt s \<le> MaxGrantTTL"
    and "0 < q_RequestedTTL req \<longrightarrow> g_ExpiresAt s - g_IssuedAt s \<le> q_RequestedTTL req"
    and "g_Version s = GrantVersion" and "sg_Signature s = ed_sign (is_key i) (canonical s)"
    and "is_store i \<Longrightarrow> RecordGrant fails now' (record_for s dec req) (event_for s dec req) d = (Inr (), d')"
    and "is_store i \<Longrightarrow> live d' = (live d)(g_GrantID s \<mapsto> grant_row_of (record_for s dec req))"
proof -
  note i = Issue_Inr [OF assms]
  show "dec = Evaluate rules (q_UserID req) (q_DeviceID req) (q_ResourceID req)" "d_Allowed dec" by (fact i)+
  from i(3) obtain b where s: "Sign ed_sign (grant_for i (''grn_'' @ hex_encode b) (Truncate_sec now) (issue_ttl req dec) req)
      (is_key i) = Inr s" by blast
  note f = Sign_grant_for [OF s]
  show "g_UserID s = q_UserID req" "g_DeviceID s = q_DeviceID req" "g_ResourceID s = q_ResourceID req" by (fact f)+
  note ttl = issue_ttl_bounds [OF i(2) [unfolded i(1)], of req, folded i(1)]
  have life: "g_ExpiresAt s - g_IssuedAt s \<le> issue_ttl req dec"
    unfolding f using Truncate_sec_bounds(1) [of "Truncate_sec now + issue_ttl req dec"] by simp
  moreover have "0 < q_RequestedTTL req \<longrightarrow> issue_ttl req dec \<le> q_RequestedTTL req"
    by (auto simp: issue_ttl_def Let_def)
  ultimately show "g_ExpiresAt s - g_IssuedAt s \<le> d_MaxTTL dec" "g_ExpiresAt s - g_IssuedAt s \<le> MaxGrantTTL"
    "0 < q_RequestedTTL req \<longrightarrow> g_ExpiresAt s - g_IssuedAt s \<le> q_RequestedTTL req"
    using ttl by linarith+
  show "g_Version s = GrantVersion" "sg_Signature s = ed_sign (is_key i) (canonical s)"
    using s by (auto simp: Sign_Inr_iff grant_normal_def)
  show rec: "RecordGrant fails now' (record_for s dec req) (event_for s dec req) d = (Inr (), d')" if "is_store i"
    by (rule i(4) [OF that])
  show "live d' = (live d)(g_GrantID s \<mapsto> grant_row_of (record_for s dec req))" if "is_store i"
    using live_RecordGrant [of fails now' "record_for s dec req" "event_for s dec req" d] rec [OF that]
    by (simp add: record_for_def)
qed

lemma Issue_ordered:
  assumes "Issue ed_sign i fails rnd now now' rules req d = (Inr s, dec, d')"
  shows "g_IssuedAt s \<le> g_ExpiresAt s"
proof -
  note i = Issue_Inr [OF assms]
  from i(3) obtain b where s: "Sign ed_sign (grant_for i (''grn_'' @ hex_encode b) (Truncate_sec now) (issue_ttl req dec) req)
      (is_key i) = Inr s" by blast
  have "0 < issue_ttl req dec" by (rule issue_ttl_bounds(1) [OF i(2) [unfolded i(1)], of req, folded i(1)])
  then have "Truncate_sec (Truncate_sec now) \<le> Truncate_sec (Truncate_sec now + issue_ttl req dec)"
    by (intro Truncate_sec_mono) simp
  then show ?thesis using Sign_grant_for(8,9) [OF s] by simp
qed

text \<open>What the issuer signs fits the wire when the names in it do.\<close>

lemma issued_signed_ok:
  assumes "Issue ed_sign i fails (Some b) now now' rules req d = (Inr s, dec, d')"
    and "length b \<le> 62" and "time_sane now" and "\<And>m. length (ed_sign (is_key i) m) = SignatureSize"
    and "\<forall>x\<in>{is_keyID i, q_OrgID req, q_UserID req, q_DeviceID req, q_ResourceID req}. length x \<le> MaxIdentityLen"
  shows "signed_ok s"
proof -
  note i = Issue_Inr [OF assms(1)] and j = Issue_issued [OF assms(1)]
  from i(3) have s: "Sign ed_sign (grant_for i (''grn_'' @ hex_encode b) (Truncate_sec now) (issue_ttl req dec) req)
      (is_key i) = Inr s" by simp
  note f = Sign_grant_for [OF s]
  have hex: "length (hex_encode b) = 2 * length b" by (induction b) simp_all
  note ttl = issue_ttl_bounds [OF i(2) [unfolded i(1)], of req, folded i(1)]
  have ok: "time_ok t" if "0 \<le> t" "t div Second < 2 ^ 63" for t
    using that pos_imp_zdiv_nonneg_iff [of Second t] by (simp add: time_ok_def)
  have "time_ok (Truncate_sec now)" using assms(3) time_sane_ok by simp
  moreover have "time_ok (Truncate_sec now + issue_ttl req dec)"
  proof (rule ok)
    have "0 \<le> Truncate_sec now" "Truncate_sec now \<le> now"
      using assms(3) by (simp_all add: time_sane_def Truncate_sec_def minus_mod_eq_div_mult pos_imp_zdiv_nonneg_iff)
        (simp add: mult.commute flip: minus_mod_eq_mult_div)
    then show "0 \<le> Truncate_sec now + issue_ttl req dec" using ttl(1) by simp
    have "Truncate_sec now + issue_ttl req dec \<le> now + 1800 * Second"
      using \<open>Truncate_sec now \<le> now\<close> ttl(3) by (simp add: MaxGrantTTL_def Minute_def)
    then have "(Truncate_sec now + issue_ttl req dec) div Second \<le> (now + 1800 * Second) div Second"
      by (rule zdiv_mono1) simp
    also have "\<dots> = now div Second + 1800" by simp
    finally show "(Truncate_sec now + issue_ttl req dec) div Second < 2 ^ 63"
      using assms(3) by (simp add: time_sane_def)
  qed
  ultimately show ?thesis
    using j(9,10) assms(2,4,5) hex f by (simp add: signed_ok_def g_strings_def wire_time_def MaxIdentityLen_def)
qed


definition demo_issuer :: "u8 issuer" where
  "demo_issuer = \<lparr>is_key = 5, is_keyID = ''k'', is_store = True\<rparr>"

definition demo_rule :: rule where
  "demo_rule = \<lparr>r_PolicyID = ''p'', r_Principals = [''u''], r_Devices = [''d''], r_Resources = [''x''],
     r_MaxTTL = 0, r_Effect = ''allow''\<rparr>"

definition demo_request :: request where
  "demo_request = \<lparr>q_OrgID = [], q_UserID = ''u'', q_DeviceID = ''d'', q_ResourceID = ''x'',
     q_RequestedTTL = 60 * Second, q_MaxBytes = 0, q_SessionID = []\<rparr>"

lemma demo_decision: "Evaluate [demo_rule] ''u'' ''d'' ''x'' =
    \<lparr>d_Allowed = True, d_MaxTTL = MaxGrantTTL, d_PolicyID = ''p'', d_Reason = ReasonOK\<rparr>"
  by (simp add: Evaluate_def demo_rule_def EffectAllow_def denied_def Let_def)

lemma demo_Issue: "\<exists>s dec d'. Issue keyed_sign demo_issuer (\<lambda>_. False) (Some [1, 2]) 0 0 [demo_rule] demo_request empty_db
   = (Inr s, dec, d')"
proof -
  define dec where "dec = Evaluate [demo_rule] (q_UserID demo_request) (q_DeviceID demo_request) (q_ResourceID demo_request)"
  have d: "d_Allowed dec" "d_MaxTTL dec = MaxGrantTTL"
    using demo_decision by (simp_all add: dec_def demo_request_def)
  have ttl: "issue_ttl demo_request dec = 60 * Second"
    using d by (simp add: issue_ttl_def demo_request_def MaxGrantTTL_def Minute_def Second_def)
  have "\<exists>s. Sign keyed_sign (grant_for demo_issuer (''grn_'' @ hex_encode [1, 2]) (Truncate_sec 0) (issue_ttl demo_request dec) demo_request)
      (is_key demo_issuer) = Inr s"
    unfolding ttl
    by (simp add: Sign_Inr_iff grant_signable_def grant_for_def demo_request_def MaxGrantTTL_def Minute_def Second_def)
  then obtain s where s: "Sign keyed_sign (grant_for demo_issuer (''grn_'' @ hex_encode [1, 2]) (Truncate_sec 0) (issue_ttl demo_request dec)
      demo_request) (is_key demo_issuer) = Inr s" by blast
  have "fst (RecordGrant (\<lambda>_. False) 0 (record_for s dec demo_request) (event_for s dec demo_request) empty_db) = Inr ()"
    by (simp add: RecordGrant_def record_for_def event_for_def demo_request_def empty_db_def appendAudit_def
        event_defs no_event_def maxSeq_def grant_row_of_def foreign_key_ok_def commit_def Let_def)
  then obtain d' where r: "RecordGrant (\<lambda>_. False) 0 (record_for s dec demo_request) (event_for s dec demo_request) empty_db = (Inr (), d')"
    by (metis prod.collapse)
  have "is_store demo_issuer" by (simp add: demo_issuer_def)
  from Issue_ok [OF dec_def [symmetric] d(1) s this r] show ?thesis by blast
qed


end
