(* ===== verification/Encoding.thy ===== *)
theory Encoding
  imports Store_Identities
begin

text \<open>
  The text encodings the control plane takes from the Go library: \<open>base64.RawURLEncoding\<close> (the URL
  alphabet without padding; carriage returns and line feeds are skipped when decoding) and
  \<open>strings.TrimSpace\<close>, \<open>HasPrefix\<close> and \<open>TrimPrefix\<close>. \<open>TrimSpace\<close> is modelled for ASCII space; a Unicode
  space outside ASCII at either end of the input is not.
\<close>

section \<open>Base64\<close>

definition b64_char :: "nat \<Rightarrow> char" where
  "b64_char n =
    (if n < 26 then char_of (65 + n) else if n < 52 then char_of (71 + n)
     else if n < 62 then char_of (n - 4) else if n = 62 then CHR ''-'' else CHR ''_'')"

definition b64_val :: "char \<Rightarrow> nat option" where
  "b64_val c =
    (let n = (of_char c :: nat) in
     if 65 \<le> n \<and> n \<le> 90 then Some (n - 65) else if 97 \<le> n \<and> n \<le> 122 then Some (n - 71)
     else if 48 \<le> n \<and> n \<le> 57 then Some (n + 4) else if n = 45 then Some 62 else if n = 95 then Some 63 else None)"

fun sextets :: "byte list \<Rightarrow> nat list" where
  "sextets [] = []"
| "sextets [a] = [unat a div 4, (unat a mod 4) * 16]"
| "sextets [a, b] = [unat a div 4, (unat a mod 4) * 16 + unat b div 16, (unat b mod 16) * 4]"
| "sextets (a # b # c # r) =
    unat a div 4 # ((unat a mod 4) * 16 + unat b div 16) # ((unat b mod 16) * 4 + unat c div 64) #
      (unat c mod 64) # sextets r"

fun unsextets :: "nat list \<Rightarrow> byte list option" where
  "unsextets [] = Some []"
| "unsextets [x] = None"
| "unsextets [x, y] = Some [word_of_nat (x * 4 + y div 16)]"
| "unsextets [x, y, z] = Some [word_of_nat (x * 4 + y div 16), word_of_nat ((y mod 16) * 16 + z div 4)]"
| "unsextets (x # y # z # w # r) =
    (case unsextets r of
       None \<Rightarrow> None
     | Some b \<Rightarrow> Some (word_of_nat (x * 4 + y div 16) # word_of_nat ((y mod 16) * 16 + z div 4) #
         word_of_nat ((z mod 4) * 64 + w) # b))"

definition EncodeToString :: "byte list \<Rightarrow> string" where
  "EncodeToString b = map b64_char (sextets b)"

fun all_some :: "'a option list \<Rightarrow> 'a list option" where
  "all_some [] = Some []"
| "all_some (None # r) = None"
| "all_some (Some x # r) = (case all_some r of None \<Rightarrow> None | Some xs \<Rightarrow> Some (x # xs))"

definition DecodeString :: "string \<Rightarrow> byte list option" where
  "DecodeString s =
    (case all_some (map b64_val (filter (\<lambda>c. c \<noteq> CHR 0x0A \<and> c \<noteq> CHR 0x0D) s)) of
       None \<Rightarrow> None
     | Some xs \<Rightarrow> unsextets xs)"

lemma sextets_bound: "n \<in> set (sextets b) \<Longrightarrow> n < 64"
proof (induction b rule: sextets.induct)
  case (4 a b c r)
  have "unat x < 256" for x :: byte using unat_less_pow [of x] by simp
  then have "unat a div 4 < 64" "unat b div 16 < 16" "unat c div 64 < 4" by (simp_all add: less_mult_imp_div_less)
  with 4 show ?case by auto
next
  case (3 a b)
  have "unat x < 256" for x :: byte using unat_less_pow [of x] by simp
  then have "unat a div 4 < 64" "unat b div 16 < 16" by (simp_all add: less_mult_imp_div_less)
  with 3 show ?case by auto
next
  case (2 a)
  have "unat a div 4 < 64" using unat_less_pow [of a] by (simp add: less_mult_imp_div_less)
  with 2 show ?case by auto
qed simp

lemma b64_val_char: "n < 64 \<Longrightarrow> b64_val (b64_char n) = Some n"
  by (auto simp: b64_val_def b64_char_def Let_def)

lemma b64_char_not_newline: "n < 64 \<Longrightarrow> b64_char n \<noteq> CHR 0x0A \<and> b64_char n \<noteq> CHR 0x0D"
  using b64_val_char [of n] by (auto simp: b64_val_def Let_def)

lemma all_some_map_Some: "all_some (map Some xs) = Some xs"
  by (induction xs) auto

lemma word_of_nat_byte: "n = unat (a :: byte) \<Longrightarrow> word_of_nat n = a"
  by simp

lemma unsextets_sextets: "unsextets (sextets b) = Some b"
proof (induction b rule: sextets.induct)
  case (2 a)
  have "unat a div 4 * 4 + (unat a mod 4 * 16) div 16 = unat a" by simp
  then show ?case by (simp add: word_of_nat_byte)
next
  case (3 a b)
  have "unat b div 16 < 16" using unat_less_pow [of b] by (simp add: less_mult_imp_div_less)
  then have "unat a div 4 * 4 + (unat a mod 4 * 16 + unat b div 16) div 16 = unat a"
    "((unat a mod 4 * 16 + unat b div 16) mod 16) * 16 + (unat b mod 16 * 4) div 4 = unat b" by simp_all
  then show ?case by (simp add: word_of_nat_byte)
next
  case (4 a b c r)
  have "unat b div 16 < 16" "unat c div 64 < 4"
    using unat_less_pow [of b] unat_less_pow [of c] by (simp_all add: less_mult_imp_div_less)
  then have "unat a div 4 * 4 + (unat a mod 4 * 16 + unat b div 16) div 16 = unat a"
    "((unat a mod 4 * 16 + unat b div 16) mod 16) * 16 + (unat b mod 16 * 4 + unat c div 64) div 4 = unat b"
    "((unat b mod 16 * 4 + unat c div 64) mod 4) * 64 + unat c mod 64 = unat c" by simp_all
  with 4 show ?case by (simp add: word_of_nat_byte)
qed simp

lemma DecodeString_EncodeToString [simp]: "DecodeString (EncodeToString b) = Some b"
proof -
  have "filter (\<lambda>c. c \<noteq> CHR 0x0A \<and> c \<noteq> CHR 0x0D) (EncodeToString b) = EncodeToString b"
    by (auto simp: EncodeToString_def filter_id_conv dest!: sextets_bound b64_char_not_newline)
  moreover have "map b64_val (EncodeToString b) = map Some (sextets b)"
    by (simp add: EncodeToString_def b64_val_char sextets_bound)
  ultimately show ?thesis by (simp add: DecodeString_def all_some_map_Some unsextets_sextets)
qed

section \<open>Strings\<close>

definition ascii_space :: "char \<Rightarrow> bool" where
  "ascii_space c \<longleftrightarrow> c \<in> {CHR 0x09, CHR 0x0A, CHR 0x0B, CHR 0x0C, CHR 0x0D, CHR 0x20}"

definition TrimSpace :: "string \<Rightarrow> string" where
  "TrimSpace s = rev (dropWhile ascii_space (rev (dropWhile ascii_space s)))"

definition HasPrefix :: "string \<Rightarrow> string \<Rightarrow> bool" where
  "HasPrefix s p \<longleftrightarrow> take (length p) s = p"

definition TrimPrefix :: "string \<Rightarrow> string \<Rightarrow> string" where
  "TrimPrefix s p = (if HasPrefix s p then drop (length p) s else s)"

lemma TrimSpace_id: "s = [] \<or> \<not> ascii_space (hd s) \<and> \<not> ascii_space (last s) \<Longrightarrow> TrimSpace s = s"
  by (auto simp: TrimSpace_def dropWhile_eq_self_iff [THEN iffD2] hd_rev)

lemma TrimSpace_pad:
  assumes "\<forall>x\<in>set before. ascii_space x" and "\<forall>x\<in>set after. ascii_space x"
    and "\<forall>x\<in>set s. \<not> ascii_space x"
  shows "TrimSpace (before @ s @ after) = s"
proof (cases "s = []")
  case True
  with assms show ?thesis by (auto simp: TrimSpace_def dropWhile_append2 dest: set_dropWhileD)
next
  case False
  have "dropWhile ascii_space (before @ s @ after) = dropWhile ascii_space (s @ after)"
    using assms(1) by (intro dropWhile_append2) auto
  also have "\<dots> = s @ after" using False assms(3) by (cases s) auto
  finally have l: "dropWhile ascii_space (before @ s @ after) = s @ after" .
  have "dropWhile ascii_space (rev after @ rev s) = dropWhile ascii_space (rev s)"
    using assms(2) by (intro dropWhile_append2) auto
  also have "\<dots> = rev s" using False assms(3) by (simp add: dropWhile_eq_self_iff hd_rev)
  finally show ?thesis by (simp add: TrimSpace_def l)
qed

lemma b64_char_not_space: "n < 64 \<Longrightarrow> \<not> ascii_space (b64_char n)"
  using b64_val_char [of n] by (auto simp: ascii_space_def b64_val_def Let_def)

lemma EncodeToString_not_space: "c \<in> set (EncodeToString b) \<Longrightarrow> \<not> ascii_space c"
  by (auto simp: EncodeToString_def dest!: sextets_bound b64_char_not_space)

lemma hex_digit_inject: "a < 16 \<Longrightarrow> b < 16 \<Longrightarrow> hex_digit a = hex_digit b \<longleftrightarrow> a = b"
  by (auto simp: hex_digit_def dest: arg_cong [where f = "of_char :: char \<Rightarrow> nat"])

text \<open>Distinct byte strings have distinct hexadecimal encodings.\<close>

lemma hex_encode_inject: "hex_encode b = hex_encode c \<longleftrightarrow> b = c"
proof (induction b arbitrary: c)
  case Nil
  then show ?case by (cases c) auto
next
  case (Cons x b)
  show ?case
  proof (cases c)
    case (Cons y c')
    have lt: "unat x div 16 < 16" "unat y div 16 < 16"
      using unat_less_pow [of x] unat_less_pow [of y] by (simp_all add: less_mult_imp_div_less)
    have "x = y" if "unat x div 16 = unat y div 16" "unat x mod 16 = unat y mod 16"
      using that by (metis div_mult_mod_eq word_unat_eq_iff)
    with lt Cons Cons.IH show ?thesis by (auto simp: hex_digit_inject)
  qed simp
qed

end
