(* ===== verification/Login.thy ===== *)
theory Login
  imports Encoding Store Control_Audit
begin

text \<open>
  Operator sessions, \<open>internal/control/login/login.go\<close>: opening one, resolving its bearer token, and
  ending it together with the grants issued under it. The random bytes of a new token and a new
  identifier are arguments. An operation that makes several calls of the store takes the failures
  and the clock of its \<open>k\<close>-th call as \<open>fl k\<close> and \<open>now k\<close>.
\<close>

section \<open>Operations\<close>

definition DefaultTTL :: duration where "DefaultTTL = 8 * Hour"
definition MaxTTL :: duration where "MaxTTL = 24 * Hour"
definition ReasonLogout :: string where "ReasonLogout = ''logout''"
definition ReasonRevokedByAdmin :: string where "ReasonRevokedByAdmin = ''revoked_by_admin''"
definition ReasonIdentityRevoked :: string where "ReasonIdentityRevoked = ''identity_revoked''"

datatype login_err = NoIdentity | LoginRand | LoginStore store_err

record login_session =
  ln_Token :: string
  ln_Record :: session_record

text \<open>The service is its session lifetime.\<close>

definition login_New :: "duration \<Rightarrow> duration" where
  "login_New ttl =
    (let ttl = (if ttl \<le> 0 then DefaultTTL else ttl);
         ttl = (if ttl > MaxTTL then MaxTTL else ttl) in ttl)"

definition newToken :: "byte list option \<Rightarrow> login_err + string" where
  "newToken rnd = (case rnd of None \<Rightarrow> Inl LoginRand | Some b \<Rightarrow> Inr (''sar_ses_'' @ EncodeToString b))"

definition newSessionID :: "byte list option \<Rightarrow> login_err + string" where
  "newSessionID rnd = (case rnd of None \<Rightarrow> Inl LoginRand | Some b \<Rightarrow> Inr (''ses_'' @ hex_encode b))"

definition Begin ::
  "sha \<Rightarrow> duration \<Rightarrow> faults \<Rightarrow> byte list option \<Rightarrow> byte list option \<Rightarrow> time \<Rightarrow> time \<Rightarrow> string \<Rightarrow> string \<Rightarrow> db \<Rightarrow>
     (login_err + login_session) \<times> db" where
  "Begin sha256 ttl fails rnd rnd' now now' userID remote d =
    (if userID = '''' then (Inl NoIdentity, d)
     else case newToken rnd of
       Inl e \<Rightarrow> (Inl e, d)
     | Inr token \<Rightarrow>
       (case newSessionID rnd' of
          Inl e \<Rightarrow> (Inl e, d)
        | Inr sessionID \<Rightarrow>
            let now = Truncate_sec now;
                r = \<lparr>sr_SessionID = sessionID, sr_TokenHash = HashToken sha256 token, sr_UserID = userID,
                     sr_CreatedAt = now, sr_ExpiresAt = now + ttl, sr_RevokedAt = None, sr_Remote = remote\<rparr> in
            case CreateSession fails now' r (no_event\<lparr>e_At := now, e_Event := EventOperatorLogin,
                   e_ActorRole := RoleOperatorName, e_ActorID := userID, e_SessionID := sessionID,
                   e_Detail := ''from '' @ remote\<rparr>) d of
              (Inl e, d') \<Rightarrow> (Inl (LoginStore e), d')
            | (Inr _, d') \<Rightarrow> (Inr \<lparr>ln_Token = token, ln_Record = r\<rparr>, d')))"

definition Resolve :: "sha \<Rightarrow> bool \<Rightarrow> time \<Rightarrow> string \<Rightarrow> db \<Rightarrow> store_err + session_record" where
  "Resolve sha256 failed now token d =
    (if token = '''' then Inl ErrSessionUnknown else LookupSession sha256 failed now token d)"

definition eventForReason :: "string \<Rightarrow> string" where
  "eventForReason reason = (if reason = ReasonLogout then EventOperatorLogout else EventOperatorSessionEnded)"

definition actorRole :: "string \<Rightarrow> string \<Rightarrow> string" where
  "actorRole actorID ownerID = (if actorID \<noteq> '''' \<and> actorID = ownerID then RoleOperatorName else RoleAdmin)"

definition End_session ::
  "(nat \<Rightarrow> faults) \<Rightarrow> (nat \<Rightarrow> time) \<Rightarrow> string \<Rightarrow> string \<Rightarrow> string \<Rightarrow> db \<Rightarrow> (grant_record list, db) result" where
  "End_session fl now sessionID actorID reason d =
    (case LookupSessionByID (fl 0 0) sessionID d of
       Inl e \<Rightarrow> (Inl e, d)
     | Inr own \<Rightarrow>
       let role = actorRole actorID (sr_UserID own) in
       case RevokeSession (fl 1) (now 1) sessionID reason
              (no_event\<lparr>e_Event := eventForReason reason, e_ActorRole := role, e_ActorID := actorID\<rparr>) d of
         (Inl e, d1) \<Rightarrow> (Inl e, d1)
       | (Inr r, d1) \<Rightarrow>
           RevokeGrantsWhere (fl 2) (now 2) (Some ScopeSession) (sr_SessionID r) reason
             (no_event\<lparr>e_Event := EventGrantRevoked, e_ActorRole := role, e_ActorID := actorID\<rparr>) d1)"

text \<open>The loop of \<open>EndAllForUser\<close>: the \<open>k\<close>-th turn makes the calls from number \<open>3 * k\<close> on.\<close>

fun end_loop ::
  "(nat \<Rightarrow> faults) \<Rightarrow> (nat \<Rightarrow> time) \<Rightarrow> nat \<Rightarrow> string \<Rightarrow> string \<Rightarrow> session_record list \<Rightarrow> db \<Rightarrow> (grant_record list, db) result" where
  "end_loop fl now k actorID reason [] d = (Inr [], d)"
| "end_loop fl now k actorID reason (s # ss) d =
    (case End_session (\<lambda>j. fl (3 * k + j)) (\<lambda>j. now (3 * k + j)) (sr_SessionID s) actorID reason d of
       (Inl e, d1) \<Rightarrow> (Inl e, d1)
     | (Inr gs, d1) \<Rightarrow>
       (case end_loop fl now (k + 1) actorID reason ss d1 of
          (Inl e, d2) \<Rightarrow> (Inl e, d2)
        | (Inr gs', d2) \<Rightarrow> (Inr (gs @ gs'), d2)))"

text \<open>The source returns the grants revoked so far beside an error; the model drops them.\<close>

definition EndAllForUser ::
  "faults \<Rightarrow> time \<Rightarrow> (nat \<Rightarrow> faults) \<Rightarrow> (nat \<Rightarrow> time) \<Rightarrow> faults \<Rightarrow> time \<Rightarrow> string \<Rightarrow> string \<Rightarrow> string \<Rightarrow> db \<Rightarrow>
     (grant_record list, db) result" where
  "EndAllForUser f0 now0 fl now f1 now1 userID actorID reason d =
    (case ActiveSessionsForUser f0 now0 userID d of
       Inl e \<Rightarrow> (Inl e, d)
     | Inr ss \<Rightarrow>
       (case end_loop fl now 0 actorID reason ss d of
          (Inl e, d1) \<Rightarrow> (Inl e, d1)
        | (Inr gs, d1) \<Rightarrow>
          (case RevokeGrantsWhere f1 now1 (Some ScopeUser) userID reason
                  (no_event\<lparr>e_Event := EventGrantRevoked, e_ActorRole := RoleAdmin, e_ActorID := actorID\<rparr>) d1 of
             (Inl e, d2) \<Rightarrow> (Inl e, d2)
           | (Inr gs', d2) \<Rightarrow> (Inr (gs @ gs'), d2))))"

section \<open>Lemmas\<close>

lemma RevokeSession_sessions:
  assumes "RevokeSession f n sid r e d = (Inr s, d')"
  shows "sr_SessionID s = sid" and "\<forall>x\<in>set (operator_sessions d'). s_session_id x = sid \<longrightarrow>
      s_revoked_at x \<noteq> None \<or> \<not> distinct (map s_session_id (operator_sessions d))"
    and "\<forall>x'\<in>set (operator_sessions d'). \<exists>x\<in>set (operator_sessions d). session_later x x'"
proof -
  from assms obtain x where x: "find (\<lambda>x. s_session_id x = sid) (operator_sessions d) = Some x" "sr_SessionID s = s_session_id x"
    by (auto simp: RevokeSession_def Let_def session_of_def commit_def split: if_splits option.splits sum.splits)
  note xs = find_Some_in [OF x(1)]
  show "sr_SessionID s = sid" using x xs by simp
  have d': "operator_sessions d' = (if s_revoked_at x \<noteq> None then operator_sessions d else
      update_where (\<lambda>x. s_session_id x = sid \<and> s_revoked_at x = None) (\<lambda>x. x\<lparr>s_revoked_at := Some (unix n)\<rparr>) (operator_sessions d))"
    using assms x
    by (auto simp: RevokeSession_def Let_def session_of_def commit_def audit_grown_def fromNullUnix_def dest!: appendAudit_Inr
        split: if_splits option.splits sum.splits)
  show "\<forall>x'\<in>set (operator_sessions d'). \<exists>x\<in>set (operator_sessions d). session_later x x'"
  proof
    fix x' assume "x' \<in> set (operator_sessions d')"
    then obtain y where y: "y \<in> set (operator_sessions d)" "x' = y \<or> s_revoked_at y = None \<and> x' = y\<lparr>s_revoked_at := Some (unix n)\<rparr>"
      unfolding d' by (cases "s_revoked_at x = None") (auto dest!: from_update_where split: if_splits)
    then have "session_later y x'" by (auto simp: later_revoked)
    with y(1) show "\<exists>x\<in>set (operator_sessions d). session_later x x'" ..
  qed
  show "\<forall>x\<in>set (operator_sessions d'). s_session_id x = sid \<longrightarrow>
      s_revoked_at x \<noteq> None \<or> \<not> distinct (map s_session_id (operator_sessions d))"
  proof (cases "s_revoked_at x = None")
    case True
    then show ?thesis unfolding d' by (auto dest!: from_update_where split: if_splits)
  next
    case False
    have "y = x" if "distinct (map s_session_id (operator_sessions d))" "y \<in> set (operator_sessions d)" "s_session_id y = sid" for y
      using that xs find_distinct [OF that(1,2)] x(1) by simp
    with False show ?thesis unfolding d' by auto
  qed
qed

lemma RevokeGrantsWhere_sessions [simp]:
  "operator_sessions (snd (RevokeGrantsWhere f n sc v r e d)) = operator_sessions d"
  by (auto simp: RevokeGrantsWhere_def Let_def audit_grown_def dest!: audit_cascade_Inr split: option.split sum.split)

lemma RevokeSession_grants [simp]: "grants (snd (RevokeSession f n sid r e d)) = grants d"
  by (rule grants_unchanged)

text \<open>Ending a session is a revocation of the session followed by the cascade.\<close>

lemma End_session_Inr:
  assumes "End_session fl now sid actor r d = (Inr gs, d')"
  obtains e e' s d1 where "RevokeSession (fl 1) (now 1) sid r e d = (Inr s, d1)"
    and "RevokeGrantsWhere (fl 2) (now 2) (Some ScopeSession) sid r e' d1 = (Inr gs, d')"
    and "d' = run [CRevokeSession (fl 1) (now 1) sid r e, CRevokeGrantsWhere (fl 2) (now 2) (Some ScopeSession) sid r e'] d"
proof -
  from assms obtain e e' s d1 where a: "RevokeSession (fl 1) (now 1) sid r e d = (Inr s, d1)"
    "RevokeGrantsWhere (fl 2) (now 2) (Some ScopeSession) (sr_SessionID s) r e' d1 = (Inr gs, d')"
    by (auto simp: End_session_def Let_def split: sum.splits prod.splits)
  have sid: "sr_SessionID s = sid" by (rule RevokeSession_sessions [OF a(1)])
  show ?thesis by (rule that [of e s d1 e']) (use a sid in simp_all)
qed

text \<open>What the cascade of a logout covers.\<close>

lemma End_session_grants:
  assumes "End_session fl now sid actor reason d = (Inr gs, d')"
  shows "live d gid = Some y \<Longrightarrow> gt_session_id y = Some sid \<Longrightarrow> unix (now 2) < gt_expires_at y \<Longrightarrow> gid \<in> gr_GrantID ` set gs"
    and "live d' gid = Some y \<Longrightarrow> gt_session_id y = Some sid \<Longrightarrow> gt_expires_at y \<le> unix (now 2)"
proof -
  from assms obtain e e' s d1 where a: "RevokeSession (fl 1) (now 1) sid reason e d = (Inr s, d1)"
    "RevokeGrantsWhere (fl 2) (now 2) (Some ScopeSession) sid reason e' d1 = (Inr gs, d')"
    by (rule End_session_Inr)
  have g1: "grants d1 = grants d" using a(1) by (metis RevokeSession_grants snd_conv)
  have fst: "fst (RevokeGrantsWhere (fl 2) (now 2) (Some ScopeSession) sid reason e' d1) = Inr gs" using a(2) by simp
  show "gid \<in> gr_GrantID ` set gs" if "live d gid = Some y" "gt_session_id y = Some sid" "unix (now 2) < gt_expires_at y"
  proof -
    from that(1) have "y \<in> set (grants d)" "gt_grant_id y = gid" "gt_revoked_at y = None"
      by (auto simp: live_def find_Some_iff split: option.splits if_splits)
    then have "gid \<in> set (map gt_grant_id (filter (\<lambda>x. in_scope ScopeSession sid x \<and> gt_revoked_at x = None \<and> unix (now 2) < gt_expires_at x) (grants d1)))"
      using that g1 by force
    then show ?thesis unfolding RevokeGrantsWhere_Inr(2) [OF fst, symmetric] by simp
  qed
  show "gt_expires_at y \<le> unix (now 2)" if "live d' gid = Some y" "gt_session_id y = Some sid"
    using that live_RevokeGrantsWhere [OF fst, of gid] a(2) by (auto split: option.splits if_splits)
qed

lemma End_session_sessions:
  assumes "End_session fl now sid actor r d = (Inr gs, d')" and "db_ok d"
  shows "\<forall>x\<in>set (operator_sessions d'). s_session_id x = sid \<longrightarrow> s_revoked_at x \<noteq> None"
    and "\<forall>x'\<in>set (operator_sessions d'). \<exists>x\<in>set (operator_sessions d). session_later x x'"
    and "db_ok d'"
proof -
  from assms(1) obtain e e' s d1 where a: "RevokeSession (fl 1) (now 1) sid r e d = (Inr s, d1)"
    "RevokeGrantsWhere (fl 2) (now 2) (Some ScopeSession) sid r e' d1 = (Inr gs, d')"
    "d' = run [CRevokeSession (fl 1) (now 1) sid r e, CRevokeGrantsWhere (fl 2) (now 2) (Some ScopeSession) sid r e'] d"
    by (rule End_session_Inr)
  have ss: "operator_sessions d' = operator_sessions d1"
    using RevokeGrantsWhere_sessions [of "fl 2" "now 2" "Some ScopeSession" sid r e' d1] a(2) by simp
  have "distinct (map s_session_id (operator_sessions d))" using assms(2) by (simp add: db_ok_def)
  with RevokeSession_sessions [OF a(1)] ss
  show "\<forall>x\<in>set (operator_sessions d'). s_session_id x = sid \<longrightarrow> s_revoked_at x \<noteq> None"
    "\<forall>x'\<in>set (operator_sessions d'). \<exists>x\<in>set (operator_sessions d). session_later x x'" by auto
  show "db_ok d'" using assms(2) unfolding a(3) by (rule run_ok)
qed

lemma end_loop_sessions:
  "end_loop fl now k actor r ss d = (Inr gs, d') \<Longrightarrow> db_ok d \<Longrightarrow>
    db_ok d' \<and> (\<forall>x'\<in>set (operator_sessions d'). \<exists>x\<in>set (operator_sessions d). session_later x x') \<and>
    (\<forall>x'\<in>set (operator_sessions d'). s_session_id x' \<in> sr_SessionID ` set ss \<longrightarrow> s_revoked_at x' \<noteq> None)"
proof (induction ss arbitrary: k d gs)
  case Nil
  then show ?case by (auto intro!: bexI)
next
  case (Cons s ss)
  from Cons.prems(1) obtain g1 g2 d1 where
    e: "End_session (\<lambda>j. fl (3 * k + j)) (\<lambda>j. now (3 * k + j)) (sr_SessionID s) actor r d = (Inr g1, d1)"
    and l: "end_loop fl now (k + 1) actor r ss d1 = (Inr g2, d')"
    by (auto split: sum.splits prod.splits)
  note E = End_session_sessions [OF e Cons.prems(2)]
  note I = Cons.IH [OF l E(3)]
  have "s_revoked_at x' \<noteq> None" if "x' \<in> set (operator_sessions d')" "s_session_id x' = sr_SessionID s" for x'
  proof -
    from I that(1) obtain x where x: "x \<in> set (operator_sessions d1)" "session_later x x'" by blast
    then have "s_session_id x = sr_SessionID s" using that(2) by (auto simp: session_later_def)
    with E(1) x(1) have "s_revoked_at x \<noteq> None" by blast
    with x(2) show ?thesis by (auto simp: session_later_def)
  qed
  moreover have "\<exists>x\<in>set (operator_sessions d). session_later x x'" if "x' \<in> set (operator_sessions d')" for x'
    using I E(2) that later_trans(2) by meson
  ultimately show ?case using I by auto
qed

lemma ActiveSessions_all:
  assumes "ActiveSessionsForUser f now u d = Inr ss" and "u \<noteq> []"
    and "length (filter (\<lambda>x. s_user_id x = u \<and> s_revoked_at x = None \<and> s_expires_at x > unix now) (operator_sessions d)) \<le> 10000"
    and "x \<in> set (operator_sessions d)" "s_user_id x = u" "s_revoked_at x = None" "s_expires_at x > unix now"
  shows "s_session_id x \<in> sr_SessionID ` set ss"
proof -
  let ?f = "session_match now \<lparr>sf_UserID = u, sf_ActiveOnly = True, sf_Limit = MaxAuditLimit\<rparr>"
  have m: "?f = (\<lambda>x. s_user_id x = u \<and> s_revoked_at x = None \<and> s_expires_at x > unix now)"
    using assms(2) by (auto simp: session_match_def)
  have "ss = map session_of (rev (sort_key (\<lambda>x. (s_created_at x, s_session_id x)) (filter ?f (operator_sessions d))))"
    using assms(1,3) unfolding m [symmetric]
    by (auto simp: ActiveSessionsForUser_def ListSessions_def clamp_limit_def MaxAuditLimit_def DefaultAuditLimit_def
        split: if_splits)
  then have "set ss = session_of ` set (filter ?f (operator_sessions d))" by simp
  moreover have "x \<in> set (filter ?f (operator_sessions d))" using assms(4-7) by (simp add: m)
  moreover have "s_session_id x = sr_SessionID (session_of x)" by (simp add: session_of_def)
  ultimately show ?thesis by blast
qed

section \<open>Properties\<close>

text \<open>Ending every session of a user is complete. When \<open>EndAllForUser\<close> reports success, no session
  of the user that was active when it started is still usable (for up to the ten thousand
  sessions it can list), and no unexpired grant of the user is still live, whether it was issued
  under a session or without one.\<close>
theorem EndAllForUser_complete:
  assumes "db_ok d" and "userID \<noteq> []"
    and "EndAllForUser f0 now0 fl now f1 now1 userID actorID reason d = (Inr gs, d')"
    and "length (filter (\<lambda>x. s_user_id x = userID \<and> s_revoked_at x = None \<and> s_expires_at x > unix now0)
      (operator_sessions d)) \<le> 10000"
  shows "(\<forall>x\<in>set (operator_sessions d'). s_user_id x = userID \<and> s_revoked_at x = None \<longrightarrow> s_expires_at x \<le> unix now0) \<and>
    (\<forall>gid x. live d' gid = Some x \<and> gt_user_id x = userID \<longrightarrow> gt_expires_at x \<le> unix now1)"
proof -
  from assms(3) obtain ss g1 d1 g2 e where ss: "ActiveSessionsForUser f0 now0 userID d = Inr ss"
    and l: "end_loop fl now 0 actorID reason ss d = (Inr g1, d1)"
    and r: "RevokeGrantsWhere f1 now1 (Some ScopeUser) userID reason e d1 = (Inr g2, d')"
    by (auto simp: EndAllForUser_def split: sum.splits prod.splits)
  have ops: "operator_sessions d' = operator_sessions d1"
    using RevokeGrantsWhere_sessions [of f1 now1 "Some ScopeUser" userID reason e d1] r by simp
  have "s_expires_at x' \<le> unix now0"
    if x': "x' \<in> set (operator_sessions d')" "s_user_id x' = userID" "s_revoked_at x' = None" for x'
  proof (rule ccontr)
    assume late: "\<not> s_expires_at x' \<le> unix now0"
    from end_loop_sessions [OF l assms(1)] x'(1) obtain x where
      x: "x \<in> set (operator_sessions d)" "session_later x x'" unfolding ops by blast
    then have "x' = x" using x'(3) by (auto simp: session_later_def)
    with x(1) x' late have "s_session_id x' \<in> sr_SessionID ` set ss"
      by (intro ActiveSessions_all [OF ss assms(2,4)]) auto
    with end_loop_sessions [OF l assms(1)] x'(1,3) show False unfolding ops by blast
  qed
  moreover have "gt_expires_at x \<le> unix now1" if "live d' gid = Some x" "gt_user_id x = userID" for gid x
    using that live_RevokeGrantsWhere [of f1 now1 ScopeUser userID reason e d1 g2 gid] r
    by (auto split: option.splits if_splits)
  ultimately show ?thesis by blast
qed

text \<open>A user with one grant issued without a session.\<close>

theorem EndAllForUser_complete_witness:
  "\<exists>gs d'. EndAllForUser (\<lambda>_. False) (9 * Second) (\<lambda>_ _. False) (\<lambda>_. 9 * Second) (\<lambda>_. False) (9 * Second) ''u'' ''root'' ''x''
      (snd (RecordGrant (\<lambda>_. False) 5 demo_record demo_event empty_db)) = (Inr gs, d') \<and>
    (case live d' ''grn_1'' of None \<Rightarrow> True | Some x \<Rightarrow> if gt_user_id x = ''u'' then gt_expires_at x \<le> unix (9 * Second) else True)"
proof -
  let ?d = "snd (RecordGrant (\<lambda>_. False) 5 demo_record demo_event empty_db)"
  let ?e = "no_event\<lparr>e_Event := EventGrantRevoked, e_ActorRole := RoleAdmin, e_ActorID := ''root''\<rparr>"
  have ok: "db_ok ?d" using exec_ok [OF db_ok_empty, of "CRecordGrant (\<lambda>_. False) 5 demo_record demo_event"] by simp
  have d: "?d = empty_db\<lparr>grants := [grant_row_of demo_record], audit_events := [audit_row_of 1 (demo_event\<lparr>e_At := 5\<rparr>)], audit_last := 1\<rparr>"
    by (simp add: RecordGrant_def demo_record_def demo_event_def no_event_def empty_db_def appendAudit_def
      grant_row_of_def foreign_key_ok_def IsZero_def zero_time_def maxSeq_def commit_def)
  have "error_of (fst (RevokeGrantsWhere (\<lambda>_. False) (9 * Second) (Some ScopeUser) ''u'' ''x'' ?e ?d)) = None"
    unfolding d by (auto simp: RevokeGrantsWhere_def commit_def appendAudit_def no_event_def event_defs maxSeq_def
        empty_db_def Let_def IsZero_def split: sum.split)
  then obtain gs d' where r: "RevokeGrantsWhere (\<lambda>_. False) (9 * Second) (Some ScopeUser) ''u'' ''x'' ?e ?d = (Inr gs, d')"
    by (metis error_of_None prod.collapse)
  have s: "operator_sessions ?d = []" unfolding d by (simp add: empty_db_def)
  then have "ActiveSessionsForUser (\<lambda>_. False) (9 * Second) ''u'' ?d = Inr []"
    by (simp add: ActiveSessionsForUser_def ListSessions_def)
  with r have "EndAllForUser (\<lambda>_. False) (9 * Second) (\<lambda>_ _. False) (\<lambda>_. 9 * Second) (\<lambda>_. False) (9 * Second) ''u'' ''root'' ''x'' ?d = (Inr gs, d')"
    by (simp add: EndAllForUser_def)
  with EndAllForUser_complete [OF ok _ this] s show ?thesis
    by (auto split: option.split)
qed

end
