(* ===== verification/CA.thy ===== *)
theory CA
  imports Encoding
begin

text \<open>
  The certificate authority, \<open>internal/ca/ca.go\<close>. X.509, PEM and IP address parsing are operations of
  the Go library; they are collected in a record that the definitions take as an argument. Keys,
  DER and PEM are opaque types. A certificate is the fields of \<open>x509.Certificate\<close> that the program
  sets or reads.
\<close>

section \<open>Identities\<close>

definition RoleDeviceCert :: string where "RoleDeviceCert = ''device''"
definition RoleOperatorCert :: string where "RoleOperatorCert = ''operator''"
definition identityScheme :: string where "identityScheme = ''sar''"

record url =
  u_Scheme :: string
  u_Host :: string
  u_Path :: string

record identity =
  n_Role :: string
  n_ID :: string

definition Identity_URI :: "identity \<Rightarrow> url" where
  "Identity_URI i = \<lparr>u_Scheme = identityScheme, u_Host = n_Role i, u_Path = ''/'' @ n_ID i\<rparr>"

definition Identity_String :: "identity \<Rightarrow> string" where
  "Identity_String i = n_Role i @ ''/'' @ n_ID i"

text \<open>Key usages by the names of the Go constants.\<close>

datatype key_usage = KeyUsageCertSign | KeyUsageCRLSign | KeyUsageDigitalSignature
datatype ext_key_usage = ExtKeyUsageClientAuth | ExtKeyUsageServerAuth

record 'pk cert =
  c_SerialNumber :: nat
  c_CommonName :: string
  c_URIs :: "url list"
  c_DNSNames :: "string list"
  c_IPAddresses :: "byte list list"
  c_NotBefore :: time
  c_NotAfter :: time
  c_KeyUsage :: "key_usage list"
  c_ExtKeyUsage :: "ext_key_usage list"
  c_IsCA :: bool
  c_MaxPathLenZero :: bool
  c_PublicKey :: "'pk option"  \<comment> \<open>\<^term>\<open>None\<close> in a template\<close>

datatype ca_err = ErrNoIdentity | CSRSignature | NotEd25519 | EmptyIdentity | NoSerial | CannotCreate
  | CannotParse | NotCA | BadKey

text \<open>The loop that collects the identities a certificate asserts.\<close>

fun identities_in :: "url list \<Rightarrow> identity list" where
  "identities_in [] = []"
| "identities_in (u # us) =
    (if u_Scheme u \<noteq> identityScheme then identities_in us
     else if u_Host u \<noteq> RoleDeviceCert \<and> u_Host u \<noteq> RoleOperatorCert then identities_in us
     else let ident = TrimPrefix (u_Path u) ''/'' in
       if ident = '''' then identities_in us
       else \<lparr>n_Role = u_Host u, n_ID = ident\<rparr> # identities_in us)"

definition IdentityOf :: "'pk cert \<Rightarrow> ca_err + identity" where
  "IdentityOf c = (case identities_in (c_URIs c) of [i] \<Rightarrow> Inr i | _ \<Rightarrow> Inl ErrNoIdentity)"

section \<open>The authority\<close>

record 'pk csr =
  csr_signed :: bool  \<comment> \<open>\<open>CheckSignature\<close> succeeds\<close>
  csr_ed25519 :: bool
  csr_PublicKey :: 'pk

record ('pk, 'sk, 'pem, 'der) x509 =
  x_pem_encode :: "string \<Rightarrow> 'der \<Rightarrow> 'pem"
  x_pem_decode :: "'pem \<Rightarrow> (string \<times> 'der) option"
  x_create :: "'pk cert \<Rightarrow> 'pk cert \<Rightarrow> 'pk \<Rightarrow> 'sk \<Rightarrow> 'der option"  \<comment> \<open>template, parent, subject key, signing key\<close>
  x_parse_cert :: "'der \<Rightarrow> 'pk cert option"
  x_parse_csr :: "'der \<Rightarrow> 'pk csr option"
  x_parse_key :: "'der \<Rightarrow> 'sk option option"  \<comment> \<open>\<open>Some None\<close> is a key that is not Ed25519\<close>
  x_parse_ip :: "string \<Rightarrow> byte list option"

record ('pk, 'sk, 'der) authority =
  ca_cert :: "'pk cert"
  ca_key :: 'sk
  ca_der :: 'der

text \<open>\<open>kp\<close> is the outcome of the key generation and \<open>serial\<close> that of \<open>randomSerial\<close>.\<close>

definition ca_template :: "nat \<Rightarrow> string \<Rightarrow> time \<Rightarrow> duration \<Rightarrow> 'pk cert" where
  "ca_template serial commonName now ttl =
    \<lparr>c_SerialNumber = serial, c_CommonName = commonName, c_URIs = [], c_DNSNames = [], c_IPAddresses = [],
     c_NotBefore = now - Minute, c_NotAfter = now + ttl, c_KeyUsage = [KeyUsageCertSign, KeyUsageCRLSign],
     c_ExtKeyUsage = [], c_IsCA = True, c_MaxPathLenZero = True, c_PublicKey = None\<rparr>"

definition ca_Create ::
  "('pk, 'sk, 'pem, 'der) x509 \<Rightarrow> ('pk \<times> 'sk) option \<Rightarrow> nat option \<Rightarrow> time \<Rightarrow> string \<Rightarrow> duration \<Rightarrow>
     ca_err + ('pk, 'sk, 'der) authority" where
  "ca_Create lib kp serial now commonName ttl =
    (case kp of
       None \<Rightarrow> Inl BadKey
     | Some (pub, priv) \<Rightarrow>
       (case serial of
          None \<Rightarrow> Inl NoSerial
        | Some sn \<Rightarrow>
          let tmpl = ca_template sn commonName now ttl in
          (case x_create lib tmpl tmpl pub priv of
             None \<Rightarrow> Inl CannotCreate
           | Some der \<Rightarrow>
             (case x_parse_cert lib der of
                None \<Rightarrow> Inl CannotParse
              | Some c \<Rightarrow> Inr \<lparr>ca_cert = c, ca_key = priv, ca_der = der\<rparr>))))"

definition ca_Load :: "('pk, 'sk, 'pem, 'der) x509 \<Rightarrow> 'pem \<Rightarrow> 'pem \<Rightarrow> ca_err + ('pk, 'sk, 'der) authority" where
  "ca_Load lib certPEM keyPEM =
    (case x_pem_decode lib certPEM of
       None \<Rightarrow> Inl CannotParse
     | Some (ty, der) \<Rightarrow>
       if ty \<noteq> ''CERTIFICATE'' then Inl CannotParse
       else case x_parse_cert lib der of
         None \<Rightarrow> Inl CannotParse
       | Some c \<Rightarrow>
         if \<not> c_IsCA c then Inl NotCA
         else case x_pem_decode lib keyPEM of
           None \<Rightarrow> Inl BadKey
         | Some (kty, kder) \<Rightarrow>
           if kty \<noteq> ''PRIVATE KEY'' then Inl BadKey
           else case x_parse_key lib kder of
             None \<Rightarrow> Inl BadKey
           | Some None \<Rightarrow> Inl NotEd25519
           | Some (Some k) \<Rightarrow> Inr \<lparr>ca_cert = c, ca_key = k, ca_der = der\<rparr>)"

definition CertPEM :: "('pk, 'sk, 'pem, 'der) x509 \<Rightarrow> ('pk, 'sk, 'der) authority \<Rightarrow> 'pem" where
  "CertPEM lib ca = x_pem_encode lib ''CERTIFICATE'' (ca_der ca)"

definition leaf_template :: "nat \<Rightarrow> identity \<Rightarrow> time \<Rightarrow> duration \<Rightarrow> 'pk cert" where
  "leaf_template serial i now ttl =
    \<lparr>c_SerialNumber = serial, c_CommonName = Identity_String i, c_URIs = [Identity_URI i], c_DNSNames = [],
     c_IPAddresses = [], c_NotBefore = now - Minute, c_NotAfter = now + ttl,
     c_KeyUsage = [KeyUsageDigitalSignature], c_ExtKeyUsage = [ExtKeyUsageClientAuth, ExtKeyUsageServerAuth],
     c_IsCA = False, c_MaxPathLenZero = False, c_PublicKey = None\<rparr>"

definition ca_Sign ::
  "('pk, 'sk, 'pem, 'der) x509 \<Rightarrow> ('pk, 'sk, 'der) authority \<Rightarrow> nat option \<Rightarrow> time \<Rightarrow> 'pk csr \<Rightarrow> identity \<Rightarrow>
     duration \<Rightarrow> ca_err + 'pem" where
  "ca_Sign lib ca serial now csr i ttl =
    (if \<not> csr_signed csr then Inl CSRSignature
     else if \<not> csr_ed25519 csr then Inl NotEd25519
     else if n_ID i = '''' then Inl EmptyIdentity
     else case serial of
       None \<Rightarrow> Inl NoSerial
     | Some sn \<Rightarrow>
       (case x_create lib (leaf_template sn i now ttl) (ca_cert ca) (csr_PublicKey csr) (ca_key ca) of
          None \<Rightarrow> Inl CannotCreate
        | Some der \<Rightarrow> Inr (x_pem_encode lib ''CERTIFICATE'' der)))"

definition server_template :: "nat \<Rightarrow> string list \<Rightarrow> byte list list \<Rightarrow> time \<Rightarrow> duration \<Rightarrow> 'pk cert" where
  "server_template serial dnsNames ips now ttl =
    \<lparr>c_SerialNumber = serial, c_CommonName = ''sar-server'', c_URIs = [], c_DNSNames = dnsNames,
     c_IPAddresses = ips, c_NotBefore = now - Minute, c_NotAfter = now + ttl,
     c_KeyUsage = [KeyUsageDigitalSignature], c_ExtKeyUsage = [ExtKeyUsageServerAuth],
     c_IsCA = False, c_MaxPathLenZero = False, c_PublicKey = None\<rparr>"

definition SignServer ::
  "('pk, 'sk, 'pem, 'der) x509 \<Rightarrow> ('pk, 'sk, 'der) authority \<Rightarrow> nat option \<Rightarrow> time \<Rightarrow> 'pk csr \<Rightarrow> string list \<Rightarrow>
     string list \<Rightarrow> duration \<Rightarrow> ca_err + 'pem" where
  "SignServer lib ca serial now csr dnsNames ips ttl =
    (if \<not> csr_signed csr then Inl CSRSignature
     else case serial of
       None \<Rightarrow> Inl NoSerial
     | Some sn \<Rightarrow>
       let parsedIPs = List.map_filter (x_parse_ip lib) ips in
       (case x_create lib (server_template sn dnsNames parsedIPs now ttl) (ca_cert ca) (csr_PublicKey csr) (ca_key ca) of
          None \<Rightarrow> Inl CannotCreate
        | Some der \<Rightarrow> Inr (x_pem_encode lib ''CERTIFICATE'' der)))"

text \<open>The result is the chain, the private key and the parsed leaf of the \<open>tls.Certificate\<close>.\<close>

definition IssueServerCertificate ::
  "('pk, 'sk, 'pem, 'der) x509 \<Rightarrow> ('pk, 'sk, 'der) authority \<Rightarrow> ('pk \<times> 'sk) option \<Rightarrow> nat option \<Rightarrow> time \<Rightarrow>
     string list \<Rightarrow> duration \<Rightarrow> ca_err + ('der list \<times> 'sk \<times> 'pk cert)" where
  "IssueServerCertificate lib ca kp serial now hosts ttl =
    (case kp of
       None \<Rightarrow> Inl BadKey
     | Some (pub, priv) \<Rightarrow>
       (case serial of
          None \<Rightarrow> Inl NoSerial
        | Some sn \<Rightarrow>
          let ips = List.map_filter (x_parse_ip lib) hosts;
              dnsNames = filter (\<lambda>h. x_parse_ip lib h = None) hosts in
          (case x_create lib (server_template sn dnsNames ips now ttl) (ca_cert ca) pub (ca_key ca) of
             None \<Rightarrow> Inl CannotCreate
           | Some der \<Rightarrow>
             (case x_parse_cert lib der of
                None \<Rightarrow> Inl CannotParse
              | Some leaf \<Rightarrow> Inr ([der, ca_der ca], priv, leaf)))))"

section \<open>Serial numbers\<close>

text \<open>\<open>big.Int.Text(16)\<close>.\<close>

fun hex_nat :: "nat \<Rightarrow> string" where
  "hex_nat n = (if n < 16 then [hex_digit n] else hex_nat (n div 16) @ [hex_digit (n mod 16)])"

declare hex_nat.simps [simp del]

lemma hex_nat_nonempty [simp]: "hex_nat n \<noteq> []" "[] \<noteq> hex_nat n"
  by (simp_all add: hex_nat.simps [of n])

lemma hex_nat_inject: "hex_nat m = hex_nat n \<longleftrightarrow> m = n"
proof (induction m arbitrary: n rule: hex_nat.induct)
  case (1 m)
  show ?case
  proof
    assume e: "hex_nat m = hex_nat n"
    show "m = n"
    proof (cases "m < 16")
      case True
      with e have "hex_nat n = [hex_digit m]" by (simp add: hex_nat.simps [of m])
      with True show ?thesis
        by (cases "n < 16") (simp_all add: hex_nat.simps [of n] hex_digit_inject)
    next
      case False
      with e have h: "hex_nat n = hex_nat (m div 16) @ [hex_digit (m mod 16)]" by (simp add: hex_nat.simps [of m])
      then have "\<not> n < 16" by (auto simp: hex_nat.simps [of n])
      with h have "hex_nat (m div 16) = hex_nat (n div 16)" "m mod 16 = n mod 16"
        by (auto simp: hex_nat.simps [of n] hex_digit_inject)
      with 1 [OF False, of "n div 16"] show ?thesis by (metis div_mult_mod_eq)
    qed
  qed simp
qed

section \<open>What a leaf asserts\<close>

text \<open>What is needed of the library: PEM and certificates can be read back, and creating a certificate
  keeps the serial number and the URIs of the template and sets the subject key.\<close>

definition x509_ok :: "('pk, 'sk, 'pem, 'der) x509 \<Rightarrow> bool" where
  "x509_ok lib \<longleftrightarrow> (\<forall>ty der. x_pem_decode lib (x_pem_encode lib ty der) = Some (ty, der)) \<and>
     (\<forall>t p k sk der. x_create lib t p k sk = Some der \<longrightarrow>
        (\<exists>c. x_parse_cert lib der = Some c \<and> c_SerialNumber c = c_SerialNumber t \<and> c_URIs c = c_URIs t \<and>
             c_IsCA c = c_IsCA t \<and> c_PublicKey c = Some k))"

lemma identities_in_URI:
  "n_Role i = RoleDeviceCert \<or> n_Role i = RoleOperatorCert \<Longrightarrow> n_ID i \<noteq> '''' \<Longrightarrow> identities_in [Identity_URI i] = [i]"
  by (cases i) (auto simp: Identity_URI_def TrimPrefix_def HasPrefix_def)

text \<open>A certificate that the authority signs for an identity asserts that identity and no other,
  whatever the request says, and cannot sign further certificates.\<close>

lemma ca_Sign_asserts:
  assumes "x509_ok lib" and "ca_Sign lib ca serial now csr i ttl = Inr pem"
    and "n_Role i = RoleDeviceCert \<or> n_Role i = RoleOperatorCert"
  shows "\<exists>der c sn. x_pem_decode lib pem = Some (''CERTIFICATE'', der) \<and> x_parse_cert lib der = Some c \<and>
    serial = Some sn \<and> c_SerialNumber c = sn \<and> IdentityOf c = Inr i \<and> \<not> c_IsCA c \<and>
    c_PublicKey c = Some (csr_PublicKey csr)"
proof -
  from assms(2) obtain sn der where s: "serial = Some sn" "n_ID i \<noteq> ''''"
    "x_create lib (leaf_template sn i now ttl) (ca_cert ca) (csr_PublicKey csr) (ca_key ca) = Some der"
    "pem = x_pem_encode lib ''CERTIFICATE'' der"
    by (auto simp: ca_Sign_def split: if_splits option.splits)
  with assms(1) obtain c where "x_parse_cert lib der = Some c" "c_SerialNumber c = sn"
    "c_URIs c = [Identity_URI i]" "\<not> c_IsCA c" "c_PublicKey c = Some (csr_PublicKey csr)"
    unfolding x509_ok_def by (fastforce simp: leaf_template_def)
  moreover from this(3) have "IdentityOf c = Inr i"
    using identities_in_URI [OF assms(3) s(2)] by (simp add: IdentityOf_def del: identities_in.simps)
  ultimately show ?thesis using s assms(1) by (simp add: x509_ok_def)
qed

end
