(* ===== verification/Enrollment.thy ===== *)
theory Enrollment
  imports CA Store
begin

text \<open>
  Enrollment, renewal and the check of presented certificates,
  \<open>internal/control/enrollment/enrollment.go\<close>, and the enrollment code, \<open>code.go\<close>. The library is that of
  \<^theory_text>\<open>CA\<close>; JSON encoding is a pair of arguments. The store calls of one operation fail according to
  \<open>fl 0\<close>, \<open>fl 1\<close> and read the clocks \<open>now 0\<close>, \<open>now 1\<close>, ...
\<close>

section \<open>Enrollment\<close>

definition DefaultTokenTTL :: duration where "DefaultTokenTTL = 1 * Hour"
definition DefaultCertTTL :: duration where "DefaultCertTTL = 30 * 24 * Hour"

datatype enroll_err = ErrInvalidCSR | ErrIssuedCert | IdentityRequired | TokenRand
  | EnrollCA ca_err | EnrollStore store_err

record ('pk, 'sk, 'der) service =
  es_ca :: "('pk, 'sk, 'der) authority"
  es_grantPub :: 'pk
  es_tokenTTL :: duration
  es_certTTL :: duration

definition enrollment_New :: "('pk, 'sk, 'der) authority \<Rightarrow> 'pk \<Rightarrow> ('pk, 'sk, 'der) service" where
  "enrollment_New ca grantPub =
    \<lparr>es_ca = ca, es_grantPub = grantPub, es_tokenTTL = DefaultTokenTTL, es_certTTL = DefaultCertTTL\<rparr>"

definition WithCertTTL :: "duration \<Rightarrow> ('pk, 'sk, 'der) service \<Rightarrow> ('pk, 'sk, 'der) service" where
  "WithCertTTL ttl s = (if ttl > 0 then s\<lparr>es_certTTL := ttl\<rparr> else s)"

definition IssueToken ::
  "sha \<Rightarrow> ('pk, 'sk, 'der) service \<Rightarrow> faults \<Rightarrow> byte list option \<Rightarrow> time \<Rightarrow> string \<Rightarrow> string \<Rightarrow> db \<Rightarrow>
     (enroll_err + string) \<times> db" where
  "IssueToken sha256 s fails rnd now role ident d =
    (if ident = '''' then (Inl IdentityRequired, d)
     else case rnd of
       None \<Rightarrow> (Inl TokenRand, d)
     | Some raw \<Rightarrow>
       let token = EncodeToString raw in
       case PutToken fails \<lparr>k_Hash = HashToken sha256 token, k_Role = role, k_ID = ident, k_IssuedAt = now,
              k_ExpiresAt = now + es_tokenTTL s, k_ConsumedAt = None\<rparr> d of
         (Inl e, d') \<Rightarrow> (Inl (EnrollStore e), d')
       | (Inr _, d') \<Rightarrow> (Inr token, d'))"

record ('pk, 'pem) enrolled =
  en_CertificatePEM :: 'pem
  en_CAPEM :: 'pem
  en_Identity :: identity
  en_NotAfter :: time
  en_GrantPublicKey :: 'pk

definition parseCSR :: "('pk, 'sk, 'pem, 'der) x509 \<Rightarrow> 'pem \<Rightarrow> enroll_err + 'pk csr" where
  "parseCSR lib csrPEM =
    (case x_pem_decode lib csrPEM of
       None \<Rightarrow> Inl ErrInvalidCSR
     | Some (ty, der) \<Rightarrow>
       if ty \<noteq> ''CERTIFICATE REQUEST'' then Inl ErrInvalidCSR
       else case x_parse_csr lib der of None \<Rightarrow> Inl ErrInvalidCSR | Some csr \<Rightarrow> Inr csr)"

definition parseCert :: "('pk, 'sk, 'pem, 'der) x509 \<Rightarrow> 'pem \<Rightarrow> enroll_err + 'pk cert" where
  "parseCert lib certPEM =
    (case x_pem_decode lib certPEM of
       None \<Rightarrow> Inl ErrIssuedCert
     | Some (ty, der) \<Rightarrow> (case x_parse_cert lib der of None \<Rightarrow> Inl ErrIssuedCert | Some c \<Rightarrow> Inr c))"

text \<open>The steps \<open>Enroll\<close> and \<open>Renew\<close> share: parse the request, sign, parse the result.\<close>

definition issue_cert ::
  "('pk, 'sk, 'pem, 'der) x509 \<Rightarrow> ('pk, 'sk, 'der) service \<Rightarrow> nat option \<Rightarrow> time \<Rightarrow> 'pem \<Rightarrow> identity \<Rightarrow>
     enroll_err + ('pem \<times> 'pk cert)" where
  "issue_cert lib s serial now csrPEM i =
    (case parseCSR lib csrPEM of
       Inl e \<Rightarrow> Inl e
     | Inr csr \<Rightarrow>
       (case ca_Sign lib (es_ca s) serial now csr i (es_certTTL s) of
          Inl e \<Rightarrow> Inl (EnrollCA e)
        | Inr certPEM \<Rightarrow>
          (case parseCert lib certPEM of Inl e \<Rightarrow> Inl e | Inr c \<Rightarrow> Inr (certPEM, c))))"

definition result_for ::
  "('pk, 'sk, 'pem, 'der) x509 \<Rightarrow> ('pk, 'sk, 'der) service \<Rightarrow> identity \<Rightarrow> 'pem \<times> 'pk cert \<Rightarrow> ('pk, 'pem) enrolled" where
  "result_for lib s i pc =
    \<lparr>en_CertificatePEM = fst pc, en_CAPEM = CertPEM lib (es_ca s), en_Identity = i,
     en_NotAfter = c_NotAfter (snd pc), en_GrantPublicKey = es_grantPub s\<rparr>"

definition Enroll ::
  "sha \<Rightarrow> ('pk, 'sk, 'pem, 'der) x509 \<Rightarrow> ('pk, 'sk, 'der) service \<Rightarrow> (nat \<Rightarrow> faults) \<Rightarrow> (nat \<Rightarrow> time) \<Rightarrow> nat option \<Rightarrow>
     string \<Rightarrow> 'pem \<Rightarrow> db \<Rightarrow> (enroll_err + ('pk, 'pem) enrolled) \<times> db" where
  "Enroll sha256 lib s fl now serial token csrPEM d =
    (case ConsumeToken sha256 (fl 0) (now 0) (now 1) token d of
       (Inl e, d1) \<Rightarrow> (Inl (EnrollStore e), d1)
     | (Inr t, d1) \<Rightarrow>
       let i = \<lparr>n_Role = k_Role t, n_ID = k_ID t\<rparr> in
       case issue_cert lib s serial (now 2) csrPEM i of
         Inl e \<Rightarrow> (Inl e, d1)
       | Inr (pem, c) \<Rightarrow>
         (case PutRecord (fl 1) \<lparr>r_ID = k_ID t, r_Role = k_Role t, r_EnrolledAt = now 3,
                 r_SerialHex = hex_nat (c_SerialNumber c), r_Revoked = False, r_RevokedAt = None,
                 r_PendingSerialHex = [], r_PendingIssuedAt = None\<rparr> d1 of
            (Inl e, d2) \<Rightarrow> (Inl (EnrollStore e), d2)
          | (Inr _, d2) \<Rightarrow> (Inr (result_for lib s i (pem, c)), d2)))"

definition VerifyEnrolled :: "bool \<Rightarrow> faults \<Rightarrow> 'pk cert \<Rightarrow> db \<Rightarrow> (enroll_err + identity) \<times> db" where
  "VerifyEnrolled failed fails c d =
    (case IdentityOf c of
       Inl e \<Rightarrow> (Inl (EnrollCA e), d)
     | Inr i \<Rightarrow>
       (case Lookup failed (n_Role i) (n_ID i) d of
          Inl e \<Rightarrow> (Inl (EnrollStore e), d)
        | Inr r \<Rightarrow>
          let presented = hex_nat (c_SerialNumber c) in
          if r_SerialHex r = presented then (Inr i, d)
          else if r_PendingSerialHex r \<noteq> '''' \<and> r_PendingSerialHex r = presented then
            (case PromoteSerial fails (n_Role i) (n_ID i) presented d of
               (Inl e, d') \<Rightarrow> (Inl (EnrollStore e), d')
             | (Inr _, d') \<Rightarrow> (Inr i, d'))
          else (Inl (EnrollStore ErrNotEnrolled), d)))"

definition Renew ::
  "('pk, 'sk, 'pem, 'der) x509 \<Rightarrow> ('pk, 'sk, 'der) service \<Rightarrow> (nat \<Rightarrow> faults) \<Rightarrow> (nat \<Rightarrow> time) \<Rightarrow> nat option \<Rightarrow>
     'pk cert \<Rightarrow> 'pem \<Rightarrow> db \<Rightarrow> (enroll_err + ('pk, 'pem) enrolled) \<times> db" where
  "Renew lib s fl now serial c csrPEM d =
    (case VerifyEnrolled (fl 0 0) (fl 1) c d of
       (Inl e, d1) \<Rightarrow> (Inl e, d1)
     | (Inr i, d1) \<Rightarrow>
       (case issue_cert lib s serial (now 0) csrPEM i of
          Inl e \<Rightarrow> (Inl e, d1)
        | Inr (pem, issued) \<Rightarrow>
          (case PutPendingSerial (fl 2) (now 1) (n_Role i) (n_ID i) (hex_nat (c_SerialNumber issued)) d1 of
             (Inl e, d2) \<Rightarrow> (Inl (EnrollStore e), d2)
           | (Inr _, d2) \<Rightarrow> (Inr (result_for lib s i (pem, issued)), d2))))"

section \<open>Enrollment codes\<close>

definition codePrefix :: string where "codePrefix = ''sar1.''"

record code =
  cd_Addr :: string
  cd_Token :: string
  cd_CAFingerprint :: string
  cd_ServerName :: string

datatype code_err = EncodeFailed | BadPrefix | BadBase64 | BadJSON | NoAddress | NoToken | NoFingerprint

text \<open>\<open>der c\<close> is the DER encoding of a certificate, \<open>cert.Raw\<close>.\<close>

definition Fingerprint :: "sha \<Rightarrow> ('pk cert \<Rightarrow> byte list) \<Rightarrow> 'pk cert \<Rightarrow> string" where
  "Fingerprint sha256 der c = hex_encode (sha256 (der c))"

definition Code_Encode :: "(code \<Rightarrow> byte list option) \<Rightarrow> code \<Rightarrow> code_err + string" where
  "Code_Encode marshal c =
    (case marshal c of None \<Rightarrow> Inl EncodeFailed | Some b \<Rightarrow> Inr (codePrefix @ EncodeToString b))"

definition DecodeCode :: "(byte list \<Rightarrow> code option) \<Rightarrow> string \<Rightarrow> code_err + code" where
  "DecodeCode unmarshal s =
    (let s = TrimSpace s in
     if \<not> HasPrefix s codePrefix then Inl BadPrefix
     else case DecodeString (TrimPrefix s codePrefix) of
       None \<Rightarrow> Inl BadBase64
     | Some raw \<Rightarrow>
       (case unmarshal raw of
          None \<Rightarrow> Inl BadJSON
        | Some c \<Rightarrow>
          if cd_Addr c = '''' then Inl NoAddress
          else if cd_Token c = '''' then Inl NoToken
          else if cd_CAFingerprint c = '''' then Inl NoFingerprint
          else Inr c))"

text \<open>The comparison loop, with the accumulated difference.\<close>

fun diff_loop :: "string \<Rightarrow> string \<Rightarrow> byte \<Rightarrow> byte" where
  "diff_loop (g # gs) (e # es) diff = diff_loop gs es (diff OR (byte_of g XOR byte_of e))"
| "diff_loop _ _ diff = diff"

definition VerifyFingerprint :: "sha \<Rightarrow> ('pk cert \<Rightarrow> byte list) \<Rightarrow> 'pk cert \<Rightarrow> string \<Rightarrow> bool" where
  "VerifyFingerprint sha256 der c expected =
    (let got = Fingerprint sha256 der c in
     if length got \<noteq> length expected then False else diff_loop got expected 0 = 0)"

section \<open>Lemmas\<close>

definition id_at :: "db \<Rightarrow> identity \<Rightarrow> id_row option" where
  "id_at d i = find (id_is (n_Role i) (n_ID i)) (identities d)"

text \<open>The serial numbers an identity may present.\<close>

definition acceptable :: "id_row \<Rightarrow> string \<Rightarrow> bool" where
  "acceptable row serial \<longleftrightarrow> i_revoked_at row = None \<and> (serial = i_serial_hex row \<or> serial = i_pending_serial_hex row)"

definition accepted :: "db \<Rightarrow> 'pk cert \<Rightarrow> bool" where
  "accepted d c \<longleftrightarrow> (\<exists>i. fst (VerifyEnrolled False (\<lambda>_. False) c d) = Inr i)"

lemma Lookup_id_at:
  "Lookup False (n_Role i) (n_ID i) d =
    (case id_at d i of
       None \<Rightarrow> Inl ErrNotEnrolled
     | Some row \<Rightarrow> if i_revoked_at row = None then Inr (record_of row) else Inl ErrRevoked)"
  by (auto simp: Lookup_def lookupAny_def id_at_def record_of_def split: option.split)

lemma record_of_sel [simp]: "r_SerialHex (record_of row) = i_serial_hex row"
  "r_PendingSerialHex (record_of row) = i_pending_serial_hex row"
  by (simp_all add: record_of_def)

lemma find_update_id:
  assumes "\<And>r. i_role (f r) = i_role r" and "\<And>r. i_id (f r) = i_id r"
    and "identities d' = update_where p f (identities d)"
  shows "id_at d' i = map_option (\<lambda>r. if p r then f r else r) (id_at d i)"
  unfolding id_at_def assms(3) by (rule find_update_where) (simp add: assms)

lemma id_at_Some: "id_at d i = Some row \<Longrightarrow> id_is (n_Role i) (n_ID i) row"
  by (auto simp: id_at_def dest: find_Some_in)

text \<open>A certificate is accepted exactly when its identity has an unrevoked row that lists its serial
  number as current or as pending.\<close>

lemma accepted_iff:
  "accepted d c \<longleftrightarrow> (\<exists>i row. IdentityOf c = Inr i \<and> id_at d i = Some row \<and> acceptable row (hex_nat (c_SerialNumber c)))"
proof (cases "IdentityOf c")
  case (Inr i)
  then show ?thesis
    by (cases "id_at d i")
      (auto simp: accepted_def acceptable_def VerifyEnrolled_def Lookup_id_at PromoteSerial_def Let_def)
qed (simp add: accepted_def VerifyEnrolled_def)

lemma VerifyEnrolled_Inr:
  assumes "VerifyEnrolled b f c d = (Inr i, d')"
  shows "IdentityOf c = Inr i" and "\<exists>row. id_at d i = Some row \<and> acceptable row (hex_nat (c_SerialNumber c))"
    and "\<exists>row. id_at d' i = Some row \<and> i_revoked_at row = None \<and> i_serial_hex row = hex_nat (c_SerialNumber c) \<and>
      (i_serial_hex (the (id_at d i)) \<noteq> hex_nat (c_SerialNumber c) \<longrightarrow> i_pending_serial_hex row = [])"
proof -
  from assms show c: "IdentityOf c = Inr i"
    by (auto simp: VerifyEnrolled_def Let_def split: sum.splits if_splits prod.splits)
  let ?p = "hex_nat (c_SerialNumber c)"
  have b: "\<not> b" using assms by (auto simp: VerifyEnrolled_def Lookup_def lookupAny_def split: sum.splits if_splits)
  with assms c obtain row where row: "id_at d i = Some row" "i_revoked_at row = None"
    and v: "i_serial_hex row = ?p \<and> d' = d \<or>
      i_serial_hex row \<noteq> ?p \<and> i_pending_serial_hex row = ?p \<and> PromoteSerial f (n_Role i) (n_ID i) ?p d = (Inr (), d')"
    by (auto simp: VerifyEnrolled_def Lookup_id_at Let_def split: option.splits if_splits sum.splits prod.splits)
  then show "\<exists>row. id_at d i = Some row \<and> acceptable row ?p" by (auto simp: acceptable_def)
  show "\<exists>row. id_at d' i = Some row \<and> i_revoked_at row = None \<and> i_serial_hex row = ?p \<and>
      (i_serial_hex (the (id_at d i)) \<noteq> ?p \<longrightarrow> i_pending_serial_hex row = [])"
    using v
  proof
    assume p: "i_serial_hex row \<noteq> ?p \<and> i_pending_serial_hex row = ?p \<and> PromoteSerial f (n_Role i) (n_ID i) ?p d = (Inr (), d')"
    then have "identities d' = update_where
        (\<lambda>r. id_is (n_Role i) (n_ID i) r \<and> i_pending_serial_hex r = ?p \<and> i_revoked_at r = None)
        (\<lambda>r. r\<lparr>i_serial_hex := i_pending_serial_hex r, i_pending_serial_hex := [], i_pending_issued_at := None\<rparr>) (identities d)"
      by (auto simp: PromoteSerial_def split: if_splits)
    from find_update_id [OF _ _ this, of i] row p id_at_Some [OF row(1)] show ?thesis by simp
  qed (use row in simp)
qed

lemma PutRecord_id_at:
  assumes "PutRecord f r d = (Inr (), d')" and "n_Role i = r_Role r" and "n_ID i = r_ID r"
  shows "\<exists>row. id_at d' i = Some row \<and> i_serial_hex row = r_SerialHex r \<and> i_pending_serial_hex row = [] \<and>
    i_revoked_at row = nullUnix (r_RevokedAt r)"
proof (cases "id_at d i")
  case None
  then have "\<not> affects (id_is (r_Role r) (r_ID r)) (identities d)"
    using assms(2,3) by (auto simp: id_at_def find_None_iff)
  with assms None show ?thesis
    by (auto simp: PutRecord_def id_at_def find_append simp del: affects_iff split: if_splits)
next
  case (Some row)
  then have "affects (id_is (r_Role r) (r_ID r)) (identities d)"
    using assms(2,3) find_Some_in by (fastforce simp: id_at_def)
  with assms(1) have "identities d' = update_where (id_is (r_Role r) (r_ID r))
      (\<lambda>row. row\<lparr>i_enrolled_at := unix (r_EnrolledAt r), i_serial_hex := r_SerialHex r,
         i_revoked_at := nullUnix (r_RevokedAt r), i_pending_serial_hex := [], i_pending_issued_at := None\<rparr>) (identities d)"
    by (auto simp: PutRecord_def simp del: affects_iff split: if_splits)
  from find_update_id [OF _ _ this, of i] Some id_at_Some [OF Some] assms(2,3) show ?thesis by simp
qed

lemma PutPendingSerial_id_at:
  assumes "PutPendingSerial f n (n_Role i) (n_ID i) sn d = (Inr (), d')" and "id_at d i = Some row"
    and "i_revoked_at row = None"
  shows "id_at d' i = Some (row\<lparr>i_pending_serial_hex := sn, i_pending_issued_at := Some (unix n)\<rparr>)"
proof -
  have "identities d' = update_where (\<lambda>r. id_is (n_Role i) (n_ID i) r \<and> i_revoked_at r = None)
      (\<lambda>r. r\<lparr>i_pending_serial_hex := sn, i_pending_issued_at := Some (unix n)\<rparr>) (identities d)"
    using assms(1) by (auto simp: PutPendingSerial_def Let_def split: if_splits sum.splits)
  from find_update_id [OF _ _ this, of i] assms(2,3) id_at_Some [OF assms(2)] show ?thesis by simp
qed

lemma Revoke_id_at:
  assumes "Revoke f n (n_Role i) (n_ID i) d = (Inr (), d')"
  shows "\<exists>row. id_at d' i = Some row \<and> i_revoked_at row \<noteq> None"
proof -
  have d': "identities d' = update_where (\<lambda>r. id_is (n_Role i) (n_ID i) r \<and> i_revoked_at r = None)
      (\<lambda>r. r\<lparr>i_revoked_at := Some (unix n)\<rparr>) (identities d)"
    using assms by (auto simp: Revoke_def Let_def split: if_splits sum.splits)
  obtain row where row: "id_at d i = Some row"
  proof (cases "id_at d i")
    case None
    from find_update_id [OF _ _ d', of i] None have "id_at d' i = None" by simp
    moreover have "\<not> affects (\<lambda>r. id_is (n_Role i) (n_ID i) r \<and> i_revoked_at r = None) (identities d)"
      using None by (auto simp: id_at_def find_None_iff)
    ultimately have False
      using assms
      by (auto simp: Revoke_def Let_def lookupAny_def id_at_def simp del: affects_iff split: if_splits sum.splits option.splits)
    then show ?thesis ..
  qed
  from find_update_id [OF _ _ d', of i] row id_at_Some [OF row] show ?thesis by auto
qed

lemma VerifyEnrolled_refused:
  assumes "IdentityOf c = Inr i" and "id_at d i = Some row"
    and "i_revoked_at row = None \<Longrightarrow> hex_nat (c_SerialNumber c) \<noteq> i_serial_hex row \<and> hex_nat (c_SerialNumber c) \<noteq> i_pending_serial_hex row"
  shows "fst (VerifyEnrolled False f c d) =
    Inl (EnrollStore (if i_revoked_at row = None then ErrNotEnrolled else ErrRevoked))"
  using assms by (auto simp: VerifyEnrolled_def Lookup_id_at Let_def)

lemma issue_cert_Inr:
  assumes "x509_ok lib" and "issue_cert lib s serial now csrPEM i = Inr (pem, c)"
    and "n_Role i = RoleDeviceCert \<or> n_Role i = RoleOperatorCert"
  shows "parseCert lib pem = Inr c" and "IdentityOf c = Inr i" and "serial = Some (c_SerialNumber c)"
proof -
  from assms(2) obtain csr where s: "ca_Sign lib (es_ca s) serial now csr i (es_certTTL s) = Inr pem" "parseCert lib pem = Inr c"
    by (auto simp: issue_cert_def split: sum.splits)
  from ca_Sign_asserts [OF assms(1) s(1) assms(3)] s(2)
  show "parseCert lib pem = Inr c" "IdentityOf c = Inr i" "serial = Some (c_SerialNumber c)"
    by (auto simp: parseCert_def)
qed

lemma identities_in_role: "i \<in> set (identities_in us) \<Longrightarrow> n_Role i = RoleDeviceCert \<or> n_Role i = RoleOperatorCert"
  by (induction us) (auto simp: Let_def split: if_splits)

lemma IdentityOf_role: "IdentityOf c = Inr i \<Longrightarrow> n_Role i = RoleDeviceCert \<or> n_Role i = RoleOperatorCert"
  using identities_in_role [of i "c_URIs c"] by (auto simp: IdentityOf_def split: list.splits)

lemma byte_xor_zero: "(a :: byte) XOR b = 0 \<longleftrightarrow> a = b"
  by (metis xor.assoc xor.left_neutral xor_self_eq)

lemma diff_loop_zero:
  "length g = length e \<Longrightarrow> diff_loop g e diff = 0 \<longleftrightarrow> diff = 0 \<and> g = e"
proof (induction g e diff rule: diff_loop.induct)
  case (1 g gs e es diff)
  have "diff OR (byte_of g XOR byte_of e) = 0 \<longleftrightarrow> diff = 0 \<and> g = e"
    by (auto simp: or_eq_0_iff byte_xor_zero dest: arg_cong [where f = char_at])
  with 1 show ?case by auto
qed auto

section \<open>Properties\<close>

text \<open>C14: Renewal cannot lock an endpoint out, and leaves one usable certificate once it is complete.
  After a renewal succeeds, the certificate that asked for it and the certificate it issued (which
  asserts the same identity) are both accepted; once the new one has been presented, it is still
  accepted and the old one is not.\<close>
theorem renewal_cannot_brick:
  assumes "x509_ok lib" and "Renew lib s fl now (Some sn) c csrPEM d = (Inr r, d')"
    and "sn \<noteq> c_SerialNumber c"
  shows "accepted d' c \<and> (\<exists>c'. parseCert lib (en_CertificatePEM r) = Inr c' \<and>
    IdentityOf c' = IdentityOf c \<and> c_SerialNumber c' = sn \<and> accepted d' c' \<and>
    accepted (snd (VerifyEnrolled False (\<lambda>_. False) c' d')) c' \<and>
    \<not> accepted (snd (VerifyEnrolled False (\<lambda>_. False) c' d')) c)"
proof -
  from assms(2) obtain i d1 pem c' where
    v: "VerifyEnrolled (fl 0 0) (fl 1) c d = (Inr i, d1)"
    and ic: "issue_cert lib s (Some sn) (now 0) csrPEM i = Inr (pem, c')"
    and pp: "PutPendingSerial (fl 2) (now 1) (n_Role i) (n_ID i) (hex_nat (c_SerialNumber c')) d1 = (Inr (), d')"
    and r: "en_CertificatePEM r = pem"
    by (auto simp: Renew_def result_for_def split: sum.splits prod.splits)
  note V = VerifyEnrolled_Inr [OF v]
  note I = issue_cert_Inr [OF assms(1) ic IdentityOf_role [OF V(1)]]
  from V(3) obtain row where row: "id_at d1 i = Some row" "i_revoked_at row = None"
    "i_serial_hex row = hex_nat (c_SerialNumber c)" by blast
  from PutPendingSerial_id_at [OF pp row(1,2)] obtain t where
    d': "id_at d' i = Some (row\<lparr>i_pending_serial_hex := hex_nat sn, i_pending_issued_at := t\<rparr>)"
    using I(3) by auto
  have ne: "hex_nat sn \<noteq> hex_nat (c_SerialNumber c)" using assms(3) by (simp add: hex_nat_inject)
  have acc: "accepted d' c" "accepted d' c'"
    using d' V(1) I row by (auto simp: accepted_iff acceptable_def)
  obtain d2 where d2: "VerifyEnrolled False (\<lambda>_. False) c' d' = (Inr i, d2)"
    using acc(2) V(1) I(2) by (metis accepted_def VerifyEnrolled_Inr(1) prod.collapse sum.inject(2))
  from VerifyEnrolled_Inr(3) [OF d2] d' row ne I(3) obtain row2 where
    "id_at d2 i = Some row2" "i_revoked_at row2 = None" "i_serial_hex row2 = hex_nat sn" "i_pending_serial_hex row2 = []"
    by auto
  then have "accepted d2 c'" "\<not> accepted d2 c"
    using V(1) I ne by (auto simp: accepted_iff acceptable_def)
  with acc I V(1) d2 r show ?thesis by auto
qed

text \<open>C36: Enrollment gives exactly the identity the token was issued for, whatever the request says,
  and replaces what was there: the new certificate is accepted, every other certificate of that
  identity is refused from then on, and after a revocation all of them are.\<close>
theorem enrollment_supersedes:
  fixes lib :: "('pk, 'sk, 'pem, 'der) x509"
  assumes "x509_ok lib" and "Enroll sha lib s fl now (Some sn) token csrPEM d = (Inr r, d')"
    and "n_Role (en_Identity r) = RoleDeviceCert \<or> n_Role (en_Identity r) = RoleOperatorCert"
  shows "(\<exists>row\<in>set (enrollment_tokens d). t_hash row = HashToken sha token \<and> t_consumed_at row = None \<and>
      en_Identity r = \<lparr>n_Role = t_role row, n_ID = t_id row\<rparr>) \<and>
    (\<exists>c. parseCert lib (en_CertificatePEM r) = Inr c \<and> IdentityOf c = Inr (en_Identity r) \<and> accepted d' c) \<and>
    (\<forall>c :: 'pk cert. IdentityOf c = Inr (en_Identity r) \<and> c_SerialNumber c \<noteq> sn \<longrightarrow>
      fst (VerifyEnrolled False f c d') = Inl (EnrollStore ErrNotEnrolled)) \<and>
    (\<forall>(c :: 'pk cert) g n d''. Revoke g n (n_Role (en_Identity r)) (n_ID (en_Identity r)) d' = (Inr (), d'') \<and>
        IdentityOf c = Inr (en_Identity r) \<longrightarrow>
      fst (VerifyEnrolled False f c d'') = Inl (EnrollStore ErrRevoked))"
proof -
  from assms(2) obtain t d1 pem c rec where
    t: "ConsumeToken sha (fl 0) (now 0) (now 1) token d = (Inr t, d1)"
    and ic: "issue_cert lib s (Some sn) (now 2) csrPEM (en_Identity r) = Inr (pem, c)"
    and i: "en_Identity r = \<lparr>n_Role = k_Role t, n_ID = k_ID t\<rparr>"
    and pr: "PutRecord (fl 1) \<lparr>r_ID = k_ID t, r_Role = k_Role t, r_EnrolledAt = now 3, r_SerialHex = hex_nat (c_SerialNumber c),
      r_Revoked = False, r_RevokedAt = None, r_PendingSerialHex = [], r_PendingIssuedAt = None\<rparr> d1 = (Inr (), d')"
    and r: "en_CertificatePEM r = pem"
    by (auto simp: Enroll_def result_for_def Let_def split: sum.splits prod.splits)
  note I = issue_cert_Inr [OF assms(1) ic assms(3)]
  from t have "\<exists>row\<in>set (enrollment_tokens d). t_hash row = HashToken sha token \<and> t_consumed_at row = None \<and>
      en_Identity r = \<lparr>n_Role = t_role row, n_ID = t_id row\<rparr>"
    by (auto simp: ConsumeToken_def Let_def token_of_def commit_def i dest!: find_Some_in split: if_splits option.splits)
  moreover obtain row where row: "id_at d' (en_Identity r) = Some row" "i_revoked_at row = None"
    "i_serial_hex row = hex_nat sn" "i_pending_serial_hex row = []"
    using PutRecord_id_at [OF pr, of "en_Identity r"] I(3) i by (auto simp: nullUnix_def)
  moreover have "accepted d' c" using row I by (auto simp: accepted_iff acceptable_def)
  moreover have "fst (VerifyEnrolled False f c2 d') = Inl (EnrollStore ErrNotEnrolled)"
    if "IdentityOf c2 = Inr (en_Identity r)" "c_SerialNumber c2 \<noteq> sn" for c2 :: "'pk cert"
    using VerifyEnrolled_refused [OF that(1) row(1), of f] row that(2) by (simp add: hex_nat_inject)
  moreover have "fst (VerifyEnrolled False f c2 d'') = Inl (EnrollStore ErrRevoked)"
    if "Revoke g n (n_Role (en_Identity r)) (n_ID (en_Identity r)) d' = (Inr (), d'')" "IdentityOf c2 = Inr (en_Identity r)"
    for c2 :: "'pk cert" and g n d''
  proof -
    from Revoke_id_at [OF that(1)] obtain row2 where "id_at d'' (en_Identity r) = Some row2" "i_revoked_at row2 \<noteq> None" by blast
    with VerifyEnrolled_refused [OF that(2), of d'' row2 f] show ?thesis by simp
  qed
  ultimately show ?thesis using I r by blast
qed

text \<open>C37: An enrollment code that was encoded is decoded to the same code, also when it was copied
  with surrounding white space, provided it has the three required fields (and JSON reads back
  what it wrote); and the constant-time comparison of fingerprints is equality.\<close>
theorem enrollment_code_roundtrip:
  assumes "Code_Encode marshal c = Inr s" and "\<And>b. marshal c = Some b \<Longrightarrow> unmarshal b = Some c"
    and "cd_Addr c \<noteq> []" and "cd_Token c \<noteq> []" and "cd_CAFingerprint c \<noteq> []"
    and "\<forall>x\<in>set (before @ after). ascii_space x"
  shows "DecodeCode unmarshal (before @ s @ after) = Inr c \<and>
    (VerifyFingerprint sha der cert expected \<longleftrightarrow> expected = Fingerprint sha der cert)"
proof
  from assms(1) obtain b where b: "marshal c = Some b" "s = codePrefix @ EncodeToString b"
    by (auto simp: Code_Encode_def split: option.splits)
  have ne: "\<not> ascii_space x" if "x \<in> set s" for x
    using that EncodeToString_not_space by (auto simp: b codePrefix_def ascii_space_def)
  then have t: "TrimSpace (before @ s @ after) = s" using assms(6) by (intro TrimSpace_pad) auto
  have "HasPrefix s codePrefix" "TrimPrefix s codePrefix = EncodeToString b"
    by (simp_all add: b(2) HasPrefix_def TrimPrefix_def)
  with assms(2) [OF b(1)] assms(3-5) show "DecodeCode unmarshal (before @ s @ after) = Inr c"
    by (simp add: DecodeCode_def t)
  show "VerifyFingerprint sha der cert expected \<longleftrightarrow> expected = Fingerprint sha der cert"
    using diff_loop_zero [of "Fingerprint sha der cert" expected 0] by (auto simp: VerifyFingerprint_def Let_def)
qed

definition demo_code :: code where
  "demo_code = \<lparr>cd_Addr = ''h:1'', cd_Token = ''t'', cd_CAFingerprint = ''f'', cd_ServerName = ''s''\<rparr>"

theorem enrollment_code_roundtrip_witness:
  "DecodeCode (\<lambda>b. if b = [1, 2, 3] then Some demo_code else None) ('' '' @ ''sar1.AQID'' @ [CHR 0x0A]) = Inr demo_code"
proof -
  have "Code_Encode (\<lambda>c. Some [1, 2, 3]) demo_code = Inr ''sar1.AQID''"
    by (simp add: Code_Encode_def codePrefix_def EncodeToString_def b64_char_def char_of_def bit_0)
  from enrollment_code_roundtrip [OF this, of "\<lambda>b. if b = [1, 2, 3] then Some demo_code else None" "'' ''" "[CHR 0x0A]"
      "\<lambda>_. []" "\<lambda>_. []" undefined "[]"] show ?thesis
    by (auto simp: demo_code_def ascii_space_def)
qed

text \<open>A library in which a certificate is its own encoding, for the witnesses.\<close>

definition demo_lib :: "(nat, nat, string \<times> nat cert, nat cert) x509" where
  "demo_lib = \<lparr>x_pem_encode = (\<lambda>ty der. (ty, der)), x_pem_decode = Some,
     x_create = (\<lambda>t p k sk. Some (t\<lparr>c_PublicKey := Some k\<rparr>)), x_parse_cert = Some,
     x_parse_csr = (\<lambda>_. Some \<lparr>csr_signed = True, csr_ed25519 = True, csr_PublicKey = 7\<rparr>),
     x_parse_key = (\<lambda>_. None), x_parse_ip = (\<lambda>_. None)\<rparr>"

lemma demo_lib_ok: "x509_ok demo_lib"
  by (simp add: x509_ok_def demo_lib_def)

definition demo_cert :: "nat \<Rightarrow> nat cert" where
  "demo_cert sn = leaf_template sn \<lparr>n_Role = ''device'', n_ID = ''d1''\<rparr> 0 0"

definition demo_service :: "(nat, nat, nat cert) service" where
  "demo_service = enrollment_New \<lparr>ca_cert = demo_cert 0, ca_key = 0, ca_der = demo_cert 0\<rparr> 9"

lemma demo_serial [simp]: "c_SerialNumber (demo_cert sn) = sn"
  by (simp add: demo_cert_def leaf_template_def)

lemma hex_nat_1: "hex_nat (Suc 0) = ''1''"
  by (simp add: hex_nat.simps [of "Suc 0"] hex_digit_def char_of_def bit_0)

lemma demo_identity: "IdentityOf (demo_cert sn) = Inr \<lparr>n_Role = ''device'', n_ID = ''d1''\<rparr>"
  by (simp add: IdentityOf_def demo_cert_def leaf_template_def Identity_URI_def TrimPrefix_def HasPrefix_def
      RoleDeviceCert_def identityScheme_def)

theorem renewal_cannot_brick_witness:
  "\<exists>r d'. Renew demo_lib demo_service (\<lambda>_ _. False) (\<lambda>_. 5) (Some 2) (demo_cert 1) (''CERTIFICATE REQUEST'', demo_cert 3)
     (empty_db\<lparr>identities := [\<lparr>i_role = ''device'', i_id = ''d1'', i_enrolled_at = 0, i_serial_hex = ''1'', i_revoked_at = None,
        i_pending_serial_hex = [], i_pending_issued_at = None\<rparr>]\<rparr>) = (Inr r, d') \<and> accepted d' (demo_cert 1)"
proof -
  let ?d = "empty_db\<lparr>identities := [\<lparr>i_role = ''device'', i_id = ''d1'', i_enrolled_at = 0, i_serial_hex = ''1'',
    i_revoked_at = None, i_pending_serial_hex = [], i_pending_issued_at = None\<rparr>]\<rparr>"
  let ?i = "\<lparr>n_Role = ''device'', n_ID = ''d1''\<rparr>"
  have v: "VerifyEnrolled False (\<lambda>_. False) (demo_cert 1) ?d = (Inr ?i, ?d)"
    by (simp add: VerifyEnrolled_def demo_identity Lookup_def lookupAny_def record_of_def hex_nat_1 Let_def)
  have "\<exists>pem c. issue_cert demo_lib demo_service (Some 2) 5 (''CERTIFICATE REQUEST'', demo_cert 3) ?i = Inr (pem, c)"
    by (simp add: issue_cert_def parseCSR_def demo_lib_def ca_Sign_def parseCert_def)
  then obtain pem c where ic: "issue_cert demo_lib demo_service (Some 2) 5 (''CERTIFICATE REQUEST'', demo_cert 3) ?i = Inr (pem, c)"
    by blast
  have "\<exists>d'. PutPendingSerial (\<lambda>_. False) 5 ''device'' ''d1'' (hex_nat (c_SerialNumber c)) ?d = (Inr (), d')"
    by (simp add: PutPendingSerial_def)
  then have "\<exists>r d'. Renew demo_lib demo_service (\<lambda>_ _. False) (\<lambda>_. 5) (Some 2) (demo_cert 1) (''CERTIFICATE REQUEST'', demo_cert 3) ?d = (Inr r, d')"
    unfolding Renew_def v prod.case sum.case ic by auto
  then obtain r d' where R: "Renew demo_lib demo_service (\<lambda>_ _. False) (\<lambda>_. 5) (Some 2) (demo_cert 1) (''CERTIFICATE REQUEST'', demo_cert 3) ?d = (Inr r, d')"
    by blast
  have "(2 :: nat) \<noteq> c_SerialNumber (demo_cert 1)" by simp
  from renewal_cannot_brick [OF demo_lib_ok R this] R show ?thesis by blast
qed

theorem enrollment_supersedes_witness:
  "\<exists>r d'. Enroll (\<lambda>_. []) demo_lib demo_service (\<lambda>_ _. False) (\<lambda>_. 0) (Some 2) ''tok'' (''CERTIFICATE REQUEST'', demo_cert 3) demo_db
      = (Inr r, d') \<and> en_Identity r = \<lparr>n_Role = ''device'', n_ID = ''d1''\<rparr> \<and>
    fst (VerifyEnrolled False (\<lambda>_. False) (demo_cert 1) d') = Inl (EnrollStore ErrNotEnrolled)"
proof -
  let ?i = "\<lparr>n_Role = ''device'', n_ID = ''d1''\<rparr>"
  have e: "fromUnix (unix (3600 * Second)) = 3600 * Second"
    by (simp add: time_ok_def Truncate_sec_def Second_def)
  have "\<exists>t d1. ConsumeToken (\<lambda>_. []) (\<lambda>_. False) 0 0 ''tok'' demo_db = (Inr t, d1) \<and> k_Role t = ''device'' \<and> k_ID t = ''d1''"
    by (simp add: ConsumeToken_def HashToken_def demo_db_row token_of_def fromNullUnix_def commit_def e Let_def not_less)
  then obtain t d1 where t: "ConsumeToken (\<lambda>_. []) (\<lambda>_. False) 0 0 ''tok'' demo_db = (Inr t, d1)"
    "k_Role t = ''device''" "k_ID t = ''d1''" by blast
  have "\<exists>pem c. issue_cert demo_lib demo_service (Some 2) 0 (''CERTIFICATE REQUEST'', demo_cert 3) ?i = Inr (pem, c)"
    by (simp add: issue_cert_def parseCSR_def demo_lib_def ca_Sign_def parseCert_def)
  then obtain pem c where ic: "issue_cert demo_lib demo_service (Some 2) 0 (''CERTIFICATE REQUEST'', demo_cert 3) ?i = Inr (pem, c)"
    by blast
  let ?x = "\<lparr>r_ID = ''d1'', r_Role = ''device'', r_EnrolledAt = 0, r_SerialHex = hex_nat (c_SerialNumber c), r_Revoked = False,
    r_RevokedAt = None, r_PendingSerialHex = [], r_PendingIssuedAt = None\<rparr>"
  have "\<exists>d2. PutRecord (\<lambda>_. False) x d1 = (Inr (), d2)" for x by (simp add: PutRecord_def)
  then obtain d' where d': "PutRecord (\<lambda>_. False) ?x d1 = (Inr (), d')" by meson
  define r where "r = result_for demo_lib demo_service ?i (pem, c)"
  have R: "Enroll (\<lambda>_. []) demo_lib demo_service (\<lambda>_ _. False) (\<lambda>_. 0) (Some 2) ''tok''
      (''CERTIFICATE REQUEST'', demo_cert 3) demo_db = (Inr r, d')" "en_Identity r = ?i"
    unfolding Enroll_def t(1) prod.case sum.case t(2,3) Let_def ic by (simp_all add: d' r_def result_for_def)
  have "n_Role (en_Identity r) = RoleDeviceCert \<or> n_Role (en_Identity r) = RoleOperatorCert"
    by (simp add: R(2) RoleDeviceCert_def)
  from enrollment_supersedes [OF demo_lib_ok R(1) this] R demo_identity [of 1] show ?thesis by auto
qed

end
