(* ===== verification/Relay_Registers.thy ===== *)
theory Relay_Registers
  imports Mux_Session
begin

text \<open>
  What the relay remembers: which agent is connected for which device,
  \<open>internal/relay/sessions/registry.go\<close>, and which running streams each grant authorized,
  \<open>internal/relay/authorization/authorization.go\<close>. A session is known here by its address and a
  stream by any name that allows it to be reset; every operation is one critical section of the
  register's mutex.
\<close>

section \<open>Connected agents\<close>

type_synonym registry = "(string \<times> nat) list"

definition NewRegistry :: registry where "NewRegistry = []"

definition registry_Add :: "string \<Rightarrow> nat \<Rightarrow> registry \<Rightarrow> nat option \<times> registry" where
  "registry_Add deviceID s r = (map_of r deviceID, AList.update deviceID s r)"

definition registry_Remove :: "string \<Rightarrow> nat \<Rightarrow> registry \<Rightarrow> registry" where
  "registry_Remove deviceID s r =
    (case map_of r deviceID of
       Some cur \<Rightarrow> if cur = s then AList.delete deviceID r else r
     | None \<Rightarrow> r)"

text \<open>\<open>Get\<close>, where \<open>done\<close> says whether the session at an address has ended; \<^const>\<open>None\<close> is
  \<open>ErrNoAgent\<close>.\<close>

definition registry_Get :: "(nat \<Rightarrow> bool) \<Rightarrow> string \<Rightarrow> registry \<Rightarrow> nat option \<times> registry" where
  "registry_Get ended deviceID r =
    (case map_of r deviceID of
       None \<Rightarrow> (None, r)
     | Some s \<Rightarrow> if ended s then (None, AList.delete deviceID r) else (Some s, r))"

definition registry_Count :: "registry \<Rightarrow> nat" where "registry_Count r = length r"

definition registry_Devices :: "registry \<Rightarrow> string list" where "registry_Devices r = map fst r"

text \<open>The locked part of \<open>CloseAll\<close>: the sessions to close, and the register afterwards.\<close>

definition registry_CloseAll :: "registry \<Rightarrow> nat list \<times> registry" where
  "registry_CloseAll r = (map snd r, [])"

section \<open>Live streams by grant\<close>

record 'c pair =
  pr_operator :: 'c
  pr_agent :: 'c

record 'c live_streams =
  ls_byGrant :: "(string \<times> (u64 \<times> 'c pair) list) list"
  ls_nextID :: u64

definition NewLiveStreams :: "'c live_streams" where
  "NewLiveStreams = \<lparr>ls_byGrant = [], ls_nextID = 0\<rparr>"

text \<open>The map held for a grant; a missing entry reads as the empty map.\<close>

definition streams_of :: "string \<Rightarrow> 'c live_streams \<Rightarrow> (u64 \<times> 'c pair) list" where
  "streams_of grantID l = (case map_of (ls_byGrant l) grantID of None \<Rightarrow> [] | Some m \<Rightarrow> m)"

text \<open>\<open>Add\<close> returns the closure that deregisters the stream, which is its grant and identifier, or
  \<^const>\<open>None\<close> for the closure that does nothing.\<close>

definition live_Add ::
  "string \<Rightarrow> 'c \<Rightarrow> 'c \<Rightarrow> 'c live_streams \<Rightarrow> (string \<times> u64) option \<times> 'c live_streams" where
  "live_Add grantID operator agent l =
    (if grantID = '''' then (None, l)
     else
       let i = ls_nextID l + 1;
           m = AList.update i \<lparr>pr_operator = operator, pr_agent = agent\<rparr> (streams_of grantID l)
       in (Some (grantID, i), l\<lparr>ls_byGrant := AList.update grantID m (ls_byGrant l), ls_nextID := i\<rparr>))"

fun live_release :: "(string \<times> u64) option \<Rightarrow> 'c live_streams \<Rightarrow> 'c live_streams" where
  "live_release None l = l"
| "live_release (Some (grantID, i)) l =
    (case map_of (ls_byGrant l) grantID of
       None \<Rightarrow> l
     | Some m \<Rightarrow>
        let m = AList.delete i m in
        l\<lparr>ls_byGrant := (if m = [] then AList.delete grantID (ls_byGrant l)
                          else AList.update grantID m (ls_byGrant l))\<rparr>)"

text \<open>The locked part of \<open>Terminate\<close>: the pairs to reset, and the register without the grants.\<close>

fun live_collect :: "string list \<Rightarrow> 'c live_streams \<Rightarrow> 'c pair list \<times> 'c live_streams" where
  "live_collect [] l = ([], l)"
| "live_collect (g # gs) l =
    (case live_collect gs (l\<lparr>ls_byGrant := AList.delete g (ls_byGrant l)\<rparr>) of
       (doomed, l') \<Rightarrow> (map snd (streams_of g l) @ doomed, l'))"

definition CountFor :: "string \<Rightarrow> 'c live_streams \<Rightarrow> nat" where
  "CountFor grantID l = length (streams_of grantID l)"

definition live_Count :: "'c live_streams \<Rightarrow> nat" where
  "live_Count l = sum_list (map (\<lambda>(_, m). length m) (ls_byGrant l))"

section \<open>What the register of agents promises\<close>

text \<open>The device map as a function is what the operations are specified by.\<close>

lemma registry_map [simp]:
  "map_of (snd (registry_Add d s r)) = (map_of r)(d \<mapsto> s)"
  "map_of (snd (registry_CloseAll r)) = Map.empty"
  "map_of (registry_Remove d s r) = (if map_of r d = Some s then (map_of r)(d := None) else map_of r)"
  by (auto simp: registry_Add_def registry_CloseAll_def registry_Remove_def AList.update_conv
        AList.delete_conv split: option.split)

lemma registry_Get_Some:
  "registry_Get ended d r = (Some s, r') \<longleftrightarrow> map_of r d = Some s \<and> \<not> ended s \<and> r' = r"
  by (auto simp: registry_Get_def split: option.splits)

text \<open>A late cleanup of a replaced session leaves its successor alone.\<close>

lemma late_Remove_keeps: "s \<noteq> s' \<Longrightarrow> map_of (registry_Remove d s (snd (registry_Add d s' r))) d = Some s'"
  by simp

section \<open>What the register of streams promises\<close>

lemma streams_of_byGrant: "streams_of h (l\<lparr>ls_byGrant := b\<rparr>) = (case map_of b h of None \<Rightarrow> [] | Some m \<Rightarrow> m)"
  by (simp add: streams_of_def)

lemma streams_of_delete [simp]:
  "streams_of h (l\<lparr>ls_byGrant := AList.delete g (ls_byGrant l)\<rparr>) = (if h = g then [] else streams_of h l)"
  by (simp add: streams_of_def AList.delete_conv')

lemma streams_of_Add:
  assumes "live_Add g op ag l = (rel, l')" and "g \<noteq> ''''"
  shows "rel = Some (g, ls_nextID l + 1)" and "ls_nextID l' = ls_nextID l + 1"
    and "streams_of h l' =
      (if h = g then AList.update (ls_nextID l + 1) \<lparr>pr_operator = op, pr_agent = ag\<rparr> (streams_of g l)
       else streams_of h l)"
  using assms by (auto simp: live_Add_def Let_def streams_of_def AList.update_conv')

lemma streams_of_release:
  "streams_of h (live_release (Some (g, i)) l) = (if h = g then AList.delete i (streams_of g l) else streams_of h l)"
  by (auto simp: streams_of_def Let_def AList.update_conv' AList.delete_conv' split: option.split)

lemma nextID_release [simp]: "ls_nextID (live_release rel l) = ls_nextID l"
  by (cases rel) (auto simp: Let_def split: option.split)

lemma streams_of_collect:
  assumes "live_collect gs l = (doomed, l')"
  shows "streams_of h l' = (if h \<in> set gs then [] else streams_of h l)" and "ls_nextID l' = ls_nextID l"
    and "set doomed = (\<Union>g\<in>set gs. snd ` set (streams_of g l))"
  using assms
proof (induction gs arbitrary: l doomed l')
  case (Cons g gs)
  case 1
  with Cons show ?case by (auto split: prod.splits)
next
  case (Cons g gs)
  case 2
  with Cons show ?case by (auto split: prod.splits)
next
  case (Cons g gs)
  case 3
  obtain ds l2 where c: "live_collect gs (l\<lparr>ls_byGrant := AList.delete g (ls_byGrant l)\<rparr>) = (ds, l2)"
    by fastforce
  have "set ds = (\<Union>h\<in>set gs. snd ` set (streams_of h (l\<lparr>ls_byGrant := AList.delete g (ls_byGrant l)\<rparr>)))"
    using Cons(3) [OF c] .
  moreover define A where "A h = snd ` set (streams_of h l)" for h
  moreover have "snd ` set (streams_of h (l\<lparr>ls_byGrant := AList.delete g (ls_byGrant l)\<rparr>)) =
      (if h = g then {} else A h)" for h
    by (simp add: A_def)
  ultimately have "set ds = (\<Union>h\<in>set gs. if h = g then {} else A h)" by simp
  moreover have "doomed = map snd (streams_of g l) @ ds" using 3 c by simp
  ultimately have "set doomed = (\<Union>h\<in>set (g # gs). A h)" by (auto simp: A_def split: if_splits)
  then show ?case by (simp only: A_def)
qed auto

end
