(* ===== verification/Relay.thy ===== *)
theory Relay
  imports Relay_Registers Bridge Issuer Enrollment
begin

text \<open>
  The relay, \<open>internal/relay/relay.go\<close>: admitting agents and operators, and joining an operator's
  stream to its agent. Multiplexed sessions live in a list of the relay's state and are known by
  their position; a stream is a session's address with the stream's address in it. The certificate
  verifier and the grant checker are arguments, as they are interfaces in the code. A handler that
  waits is split at its waits; \<open>errText\<close> renders an error, and what the network and the clock
  return comes from the environment.
\<close>

section \<open>Configuration and state\<close>

record 'pk relay_config =
  rc_TLS :: bool
  rc_Verify :: bool
  rc_GrantKey :: "'pk option"
  rc_Grants :: bool
  rc_Audit :: bool
  rc_MaxStreams :: u32
  rc_KeepAlive :: duration
  rc_IdleTimeout :: duration

type_synonym stream_ref = "nat \<times> nat"

record 'pk relay =
  rl_cfg :: "'pk relay_config"
  rl_registry :: registry
  rl_live :: "stream_ref live_streams"
  rl_nextSession :: u64
  rl_ln :: bool  \<comment> \<open>the listener is open\<close>
  rl_closed :: bool
  rl_sessions :: "session list"

datatype relay_err = NoTLS | NoVerifier | NoGrantKey

definition relay_New :: "'pk relay_config \<Rightarrow> relay_err + 'pk relay" where
  "relay_New cfg =
    (if \<not> rc_TLS cfg then Inl NoTLS
     else if \<not> rc_Verify cfg then Inl NoVerifier
     else if rc_GrantKey cfg = None then Inl NoGrantKey
     else
       let cfg = (if rc_MaxStreams cfg = 0 then cfg\<lparr>rc_MaxStreams := MaxStreamsPerConnection\<rparr> else cfg);
           cfg = (if rc_IdleTimeout cfg = 0 then cfg\<lparr>rc_IdleTimeout := IdleTimeout\<rparr> else cfg);
           cfg = (if rc_KeepAlive cfg = 0
                  then cfg\<lparr>rc_KeepAlive := sgn (rc_IdleTimeout cfg) * (\<bar>rc_IdleTimeout cfg\<bar> div 3)\<rparr> else cfg)
       in Inr \<lparr>rl_cfg = cfg, rl_registry = NewRegistry, rl_live = NewLiveStreams, rl_nextSession = 0,
            rl_ln = False, rl_closed = False, rl_sessions = []\<rparr>)"

definition upd_session :: "nat \<Rightarrow> (session \<Rightarrow> session) \<Rightarrow> 'pk relay \<Rightarrow> 'pk relay" where
  "upd_session a f r = r\<lparr>rl_sessions := (rl_sessions r)[a := f (rl_sessions r ! a)]\<rparr>"

definition ref_Reset :: "reason \<Rightarrow> stream_ref \<Rightarrow> 'pk relay \<Rightarrow> 'pk relay" where
  "ref_Reset reason x = upd_session (fst x) (\<lambda>s. snd (stream_Reset (snd x) reason s))"

text \<open>The reset of one collected pair, both ends.\<close>

definition reset_pair :: "reason \<Rightarrow> stream_ref pair \<Rightarrow> 'pk relay \<Rightarrow> 'pk relay" where
  "reset_pair reason p r = ref_Reset reason (pr_agent p) (ref_Reset reason (pr_operator p) r)"

definition collect_grants :: "string list \<Rightarrow> 'pk relay \<Rightarrow> stream_ref pair list \<times> 'pk relay" where
  "collect_grants ids r = (case live_collect ids (rl_live r) of (doomed, l) \<Rightarrow> (doomed, r\<lparr>rl_live := l\<rparr>))"

definition TerminateGrants :: "string list \<Rightarrow> 'pk relay \<Rightarrow> 'pk relay" where
  "TerminateGrants ids r = (case collect_grants ids r of (doomed, r) \<Rightarrow> fold (reset_pair ReasonGrantRevoked) doomed r)"

definition LiveStreamCount :: "'pk relay \<Rightarrow> nat" where "LiveStreamCount r = live_Count (rl_live r)"

definition AgentCount :: "'pk relay \<Rightarrow> nat" where "AgentCount r = registry_Count (rl_registry r)"

definition relay_Shutdown :: "'pk relay \<Rightarrow> 'pk relay" where
  "relay_Shutdown r =
    (if rl_closed r then r
     else
       let r = r\<lparr>rl_closed := True, rl_ln := False\<rparr> in
       case registry_CloseAll (rl_registry r) of
         (sessions, reg) \<Rightarrow> fold (\<lambda>a. upd_session a (session_Close ReasonShutdown)) sessions (r\<lparr>rl_registry := reg\<rparr>))"

definition relay_newSessionID :: "string \<Rightarrow> 'pk relay \<Rightarrow> string \<times> 'pk relay" where
  "relay_newSessionID prefix r =
    (let n = rl_nextSession r + 1 in (prefix @ ''_'' @ show_nat (unat n), r\<lparr>rl_nextSession := n\<rparr>))"

definition reasonOf :: "(mux_err \<Rightarrow> string) \<Rightarrow> session \<Rightarrow> string" where
  "reasonOf errText s = (case Err s of Some e \<Rightarrow> errText e | None \<Rightarrow> ReasonOK)"

section \<open>Admitting a connection\<close>

definition roleMatches :: "string \<Rightarrow> u8 \<Rightarrow> bool" where
  "roleMatches certRole helloRole =
    (if certRole = RoleDeviceCert then helloRole = RoleAgent
     else if certRole = RoleOperatorCert then helloRole = RoleOperator
     else False)"

text \<open>\<open>serve\<close> up to its dispatch: \<open>Inl\<close> is the connection as it is left when the peer is not let in.\<close>

definition serve_auth ::
  "('c \<Rightarrow> db \<Rightarrow> ('e + identity) \<times> db) \<Rightarrow> 'pk relay_config \<Rightarrow> time \<Rightarrow> bool \<Rightarrow> 'c option \<Rightarrow> conn \<Rightarrow> db \<Rightarrow>
     (conn + identity \<times> handshake) \<times> db" where
  "serve_auth verify cfg now tls peer c d =
    (if \<not> tls then (Inl (conn_Close c), d)
     else case peer of
       None \<Rightarrow> (Inl (conn_Close c), d)
     | Some cert \<Rightarrow>
       (case verify cert d of
          (Inl e, d) \<Rightarrow> (Inl (conn_Close c), d)
        | (Inr i, d) \<Rightarrow>
          (case mux_Accept now c \<lparr>cf_Role = 0, cf_MaxFramePayload = MaxFramePayload, cf_InitialWindow = InitialWindow,
                 cf_MaxStreams = rc_MaxStreams cfg, cf_KeepAlive = rc_KeepAlive cfg,
                 cf_IdleTimeout = rc_IdleTimeout cfg\<rparr> of
             (Inl e, c) \<Rightarrow> (Inl (conn_Close c), d)
           | (Inr h, c) \<Rightarrow>
             if \<not> roleMatches (n_Role i) (h_Role (hs_Hello h)) then (Inl (snd (Refuse now ReasonAuthFailed h)), d)
             else (Inr (i, h), d))))"

text \<open>\<open>serveAgent\<close> up to the wait for the session's end, and what it defers.\<close>

definition serveAgent ::
  "recorder \<Rightarrow> time \<Rightarrow> handshake \<Rightarrow> identity \<Rightarrow> 'pk relay \<Rightarrow> db \<Rightarrow> (conn + nat) \<times> 'pk relay \<times> db" where
  "serveAgent aud now h i r d =
    (let claimed = a_DeviceID (hs_Auth h) in
     if claimed \<noteq> '''' \<and> claimed \<noteq> n_ID i then (Inl (snd (Refuse now ReasonAuthFailed h)), r, d)
     else
       let deviceID = n_ID i in
       case relay_newSessionID ''age'' r of
         (sessionID, r) \<Rightarrow>
           (case Admit now sessionID h of
              (Inl e, c) \<Rightarrow> (Inl c, r, d)
            | (Inr sess, c) \<Rightarrow>
              let a = length (rl_sessions r);
                  r = r\<lparr>rl_sessions := rl_sessions r @ [sess]\<rparr> in
              (case registry_Add deviceID a (rl_registry r) of
                 (replaced, reg) \<Rightarrow>
                   let r = r\<lparr>rl_registry := reg\<rparr>;
                       r = (case replaced of None \<Rightarrow> r | Some old \<Rightarrow> upd_session old (session_Close ReasonSessionReplaced) r);
                       d = (if rc_Audit (rl_cfg r) then DeviceConnected aud deviceID (''session '' @ sessionID) d else d)
                   in (Inr a, r, d))))"

definition serveAgent_end ::
  "(mux_err \<Rightarrow> string) \<Rightarrow> recorder \<Rightarrow> string \<Rightarrow> nat \<Rightarrow> 'pk relay \<Rightarrow> db \<Rightarrow> 'pk relay \<times> db" where
  "serveAgent_end errText aud deviceID a r d =
    (let r = r\<lparr>rl_registry := registry_Remove deviceID a (rl_registry r)\<rparr>;
         r = upd_session a (session_Close ReasonShutdown) r;
         reason = reasonOf errText (rl_sessions r ! a)
     in (r, if rc_Audit (rl_cfg r) then DeviceDisconnected aud deviceID reason d else d))"

text \<open>\<open>serveOperator\<close> up to its accept loop: the operator's session and the agent's.\<close>

definition serveOperator :: "time \<Rightarrow> handshake \<Rightarrow> 'pk relay \<Rightarrow> (conn + nat \<times> nat) \<times> 'pk relay" where
  "serveOperator now h r =
    (let deviceID = a_DeviceID (hs_Auth h) in
     if deviceID = '''' then (Inl (snd (Refuse now ReasonAuthFailed h)), r)
     else
       case registry_Get (\<lambda>a. s_done (rl_sessions r ! a)) deviceID (rl_registry r) of
         (None, reg) \<Rightarrow> (Inl (snd (Refuse now ReasonNoAgent h)), r\<lparr>rl_registry := reg\<rparr>)
       | (Some agentSess, reg) \<Rightarrow>
         (case relay_newSessionID ''opr'' (r\<lparr>rl_registry := reg\<rparr>) of
            (sessionID, r) \<Rightarrow>
              (case Admit now sessionID h of
                 (Inl e, c) \<Rightarrow> (Inl c, r)
               | (Inr sess, c) \<Rightarrow>
                  (Inr (length (rl_sessions r), agentSess), r\<lparr>rl_sessions := rl_sessions r @ [sess]\<rparr>))))"

section \<open>Joining a stream\<close>

record auth_state =
  az_Known :: bool
  az_Revoked :: bool
  az_SessionID :: string
  az_UserID :: string

text \<open>The checker \<open>cmd/sar-server/main.go\<close> gives the relay.\<close>

definition CheckGrant :: "bool \<Rightarrow> string \<Rightarrow> db \<Rightarrow> store_err + auth_state" where
  "CheckGrant failed grantID d =
    (case StateOf failed grantID d of
       Inl e \<Rightarrow> Inl e
     | Inr st \<Rightarrow> Inr \<lparr>az_Known = st_Known st, az_Revoked = st_Revoked st, az_SessionID = st_SessionID st,
         az_UserID = st_UserID st\<rparr>)"

definition auditDenied :: "recorder \<Rightarrow> 'pk relay_config \<Rightarrow> signed_grant \<Rightarrow> reason \<Rightarrow> string \<Rightarrow> db \<Rightarrow> db" where
  "auditDenied aud cfg g reason detail d =
    (if \<not> rc_Audit cfg then d
     else StreamDenied aud (g_UserID g) (g_DeviceID g) (g_ResourceID g) (g_GrantID g) reason detail d)"

text \<open>\<open>joinStream\<close> up to the opening of the agent's stream: the reason of a refusal, or the grant and
  the operator session it was issued under.\<close>

definition join_check ::
  "('pk \<Rightarrow> byte list \<Rightarrow> byte list \<Rightarrow> bool) \<Rightarrow> (string \<Rightarrow> db \<Rightarrow> 'e + auth_state) \<Rightarrow> recorder \<Rightarrow> 'pk relay_config \<Rightarrow>
     time \<Rightarrow> string \<Rightarrow> string \<Rightarrow> byte list \<Rightarrow> db \<Rightarrow> (reason + signed_grant \<times> string) \<times> db" where
  "join_check ed_verify check aud cfg now deviceID userID payload d =
    (if length payload = 0 then (Inl ReasonPolicyDenied, d)
     else case DecodeGrant payload of
       Inl e \<Rightarrow> (Inl (ReasonForGrant (Some e)), d)
     | Inr g \<Rightarrow>
       (case Verify ed_verify g (the (rc_GrantKey cfg)) now (g_DeviceID g) of
          Some e \<Rightarrow> (Inl (ReasonForGrant (Some e)), d)
        | None \<Rightarrow>
          if g_UserID g \<noteq> userID then (Inl ReasonPolicyDenied, d)
          else if g_DeviceID g \<noteq> deviceID then (Inl ReasonGrantDeviceMismatch, d)
          else if rc_Grants cfg then
            (case check (g_GrantID g) d of
               Inl e \<Rightarrow> (Inr (g, ''''), d)
             | Inr st \<Rightarrow>
               if \<not> az_Known st then (Inr (g, ''''), d)
               else if az_Revoked st then
                 (Inl ReasonGrantRevoked, auditDenied aud cfg g ReasonGrantRevoked ''grant revoked before expiry'' d)
               else (Inr (g, az_SessionID st), d))
          else (Inr (g, ''''), d)))"

definition open_reason :: "mux_err \<Rightarrow> reason" where
  "open_reason e =
    (case e of ErrTooManyStreams \<Rightarrow> ReasonLimitStreamsExceeded
     | ErrStreamRefused r \<Rightarrow> ReasonLimitStreamsExceeded
     | _ \<Rightarrow> ReasonNoAgent)"

text \<open>Where the goroutine of one operator stream stands. The bridge runs in the phase \<open>JJoined\<close>, on
  the two streams; its reads and writes are steps of their sessions.\<close>

datatype join_phase =
    JStart
  | JChecked signed_grant string
  | JOpening signed_grant string "u32 \<times> nat \<times> nat"
  | JOpened signed_grant string nat
  | JJoined signed_grant nat "(string \<times> u64) option" time
  | JDone

record joiner =
  jn_op :: stream_ref
  jn_agent :: nat
  jn_device :: string
  jn_user :: string
  jn_phase :: join_phase

text \<open>What the environment decides in one turn: the clock, the recorder, whether the lookup fails, the
  branch of the wait, and what the bridge returned.\<close>

record join_env =
  je_now :: time
  je_aud :: recorder
  je_fails :: bool
  je_branch :: wait_branch
  je_ctx :: bool
  je_stats :: "nat \<times> nat"
  je_failed :: bool

definition join_refuse :: "(mux_err \<Rightarrow> string) \<Rightarrow> join_env \<Rightarrow> signed_grant \<Rightarrow> mux_err \<Rightarrow> joiner \<Rightarrow> 'pk relay \<Rightarrow> db \<Rightarrow>
     joiner \<times> 'pk relay \<times> db" where
  "join_refuse errText env g e j r d =
    (j\<lparr>jn_phase := JDone\<rparr>, ref_Reset (open_reason e) (jn_op j) r,
     auditDenied (je_aud env) (rl_cfg r) g (open_reason e) (errText e) d)"

definition join_turn ::
  "('pk \<Rightarrow> byte list \<Rightarrow> byte list \<Rightarrow> bool) \<Rightarrow> (mux_err \<Rightarrow> string) \<Rightarrow> (bool \<Rightarrow> string \<Rightarrow> db \<Rightarrow> 'e + auth_state) \<Rightarrow>
     join_env \<Rightarrow> joiner \<Rightarrow> 'pk relay \<Rightarrow> db \<Rightarrow> (joiner \<times> 'pk relay \<times> db) option" where
  "join_turn ed_verify errText check env j r d =
    (let payload = st_openPayload (s_objs (rl_sessions r ! fst (jn_op j)) ! snd (jn_op j)) in
     case jn_phase j of
       JStart \<Rightarrow>
        (case join_check ed_verify (check (je_fails env)) (je_aud env) (rl_cfg r) (je_now env) (jn_device j) (jn_user j)
                payload d of
           (Inl reason, d) \<Rightarrow> Some (j\<lparr>jn_phase := JDone\<rparr>, ref_Reset reason (jn_op j) r, d)
         | (Inr (g, sid), d) \<Rightarrow> Some (j\<lparr>jn_phase := JChecked g sid\<rparr>, r, d))
     | JChecked g sid \<Rightarrow>
        (case Open_send payload (rl_sessions r ! jn_agent j) of
           (res, s) \<Rightarrow>
             let r = upd_session (jn_agent j) (\<lambda>_. s) r in
             (case res of
                Inl e \<Rightarrow> Some (join_refuse errText env g e j r d)
              | Inr w \<Rightarrow> Some (j\<lparr>jn_phase := JOpening g sid w\<rparr>, r, d)))
     | JOpening g sid w \<Rightarrow>
        (case Open_wait (je_branch env) (je_ctx env) w (rl_sessions r ! jn_agent j) of
           None \<Rightarrow> None
         | Some (res, s) \<Rightarrow>
             let r = upd_session (jn_agent j) (\<lambda>_. s) r in
             (case res of
                Inl e \<Rightarrow> Some (join_refuse errText env g e j r d)
              | Inr a \<Rightarrow> Some (j\<lparr>jn_phase := JOpened g sid a\<rparr>, r, d)))
     | JOpened g sid a \<Rightarrow>
        (case live_Add (g_GrantID g) (jn_op j) (jn_agent j, a) (rl_live r) of
           (release, l) \<Rightarrow>
             Some (j\<lparr>jn_phase := JJoined g a release (je_now env)\<rparr>, r\<lparr>rl_live := l\<rparr>,
               if rc_Audit (rl_cfg r)
               then StreamOpened (je_aud env) (g_UserID g) (g_DeviceID g) (g_ResourceID g) (g_GrantID g) sid d else d))
     | JJoined g a release start \<Rightarrow>
         let reason = (if je_failed env then ReasonShutdown else ReasonOK);
             elapsed = time_Sub (je_now env) start in
         Some (j\<lparr>jn_phase := JDone\<rparr>, r\<lparr>rl_live := live_release release (rl_live r)\<rparr>,
           if rc_Audit (rl_cfg r)
           then StreamClosed (je_aud env) (g_UserID g) (g_DeviceID g) (g_ResourceID g) (g_GrantID g)
             (word_of_nat (fst (je_stats env))) (word_of_nat (snd (je_stats env))) elapsed reason d else d)
     | JDone \<Rightarrow> None)"

section \<open>What the relay asks of the grant checker\<close>

locale grant_checker =
  fixes check :: "bool \<Rightarrow> string \<Rightarrow> db \<Rightarrow> 'e + auth_state"
  assumes revoked: "LookupGrant False gid d = Inr x \<Longrightarrow> grant_Revoked x \<Longrightarrow>
      \<exists>st. check False gid d = Inr st \<and> az_Known st \<and> az_Revoked st"
    and unrevoked: "LookupGrant False gid d = Inr x \<Longrightarrow> \<not> grant_Revoked x \<Longrightarrow>
      \<exists>st. check False gid d = Inr st \<and> az_Known st \<and> \<not> az_Revoked st \<and> az_SessionID st = gr_SessionID x"
begin

lemma check_refuses_revoked:
  assumes "rc_Grants cfg" and "LookupGrant False (g_GrantID g) d = Inr x" and "grant_Revoked x"
  shows "fst (join_check ed_verify (check False) aud cfg now dev user payload d) \<noteq> Inr (g, sid)"
  using revoked [OF assms(2,3)] assms(1)
  by (auto simp: join_check_def Let_def split: sum.splits option.splits)

lemma check_Inr:
  assumes "fst (join_check ed_verify (check fails) aud cfg now dev user payload d) = Inr (g, sid)"
  shows "DecodeGrant payload = Inr g" and "Verify ed_verify g (the (rc_GrantKey cfg)) now dev = None"
    and "g_UserID g = user" and "g_DeviceID g = dev"
  using assms by (auto simp: join_check_def Let_def split: sum.splits option.splits if_splits)

end

interpretation checker: grant_checker CheckGrant
  by unfold_locales (auto simp: CheckGrant_def StateOf_def)

end
