(* ===== verification/Relay_System.thy ===== *)
theory Relay_System
  imports Relay
begin

text \<open>
  The relay at work: any number of operator streams being joined, peers sending what they like,
  the control plane changing its database, and revocations, interleaved in any order. A step is one
  critical section or one turn of one goroutine; \<open>TerminateGrants\<close> collects its pairs in one step
  and resets them one by one in later ones, as the code does outside the lock.
\<close>

section \<open>The step relation\<close>

record 'pk system =
  sy_relay :: "'pk relay"
  sy_db :: db
  sy_joins :: "joiner list"
  sy_doomed :: "stream_ref pair list"  \<comment> \<open>collected, not yet reset\<close>

definition ref_ok :: "'pk relay \<Rightarrow> stream_ref \<Rightarrow> bool" where
  "ref_ok r x \<longleftrightarrow> fst x < length (rl_sessions r) \<and> snd x < length (s_objs (rl_sessions r ! fst x))"

definition is_reset :: "'pk relay \<Rightarrow> stream_ref \<Rightarrow> bool" where
  "is_reset r x \<longleftrightarrow> ref_ok r x \<and> st_reset (s_objs (rl_sessions r ! fst x) ! snd x)"

text \<open>The counter of the register has 64 bits; a step of a goroutine is taken while it has not run
  out.\<close>

inductive sys_step ::
  "('pk \<Rightarrow> byte list \<Rightarrow> byte list \<Rightarrow> bool) \<Rightarrow> (mux_err \<Rightarrow> string) \<Rightarrow> bool \<Rightarrow> 'pk system \<Rightarrow> 'pk system \<Rightarrow> bool"
  for edv :: "'pk \<Rightarrow> byte list \<Rightarrow> byte list \<Rightarrow> bool" and errText :: "mux_err \<Rightarrow> string" and reliable :: bool where
  sy_stream: "ref_ok (sy_relay S) x \<Longrightarrow> a < length (rl_sessions (sy_relay S)) \<Longrightarrow>
    sys_step edv errText reliable S (S\<lparr>sy_joins := sy_joins S @
      [\<lparr>jn_op = x, jn_agent = a, jn_device = dev, jn_user = user, jn_phase = JStart\<rparr>]\<rparr>)"
| sy_join: "k < length (sy_joins S) \<Longrightarrow> (reliable \<Longrightarrow> \<not> je_fails env) \<Longrightarrow>
    unat (ls_nextID (rl_live (sy_relay S))) + 1 < 2 ^ 64 \<Longrightarrow>
    join_turn edv errText CheckGrant env (sy_joins S ! k) (sy_relay S) (sy_db S) = Some (j, r, d) \<Longrightarrow>
    sys_step edv errText reliable S (S\<lparr>sy_joins := (sy_joins S)[k := j], sy_relay := r, sy_db := d\<rparr>)"
| sy_session: "a < length (rl_sessions (sy_relay S)) \<Longrightarrow> sess_step (rl_sessions (sy_relay S) ! a) s \<Longrightarrow>
    sys_step edv errText reliable S (S\<lparr>sy_relay := upd_session a (\<lambda>_. s) (sy_relay S)\<rparr>)"
| sy_agent: "serveAgent aud now h i (sy_relay S) (sy_db S) = (x, r, d) \<Longrightarrow>
    sys_step edv errText reliable S (S\<lparr>sy_relay := r, sy_db := d\<rparr>)"
| sy_agent_end: "serveAgent_end errText aud dev a (sy_relay S) (sy_db S) = (r, d) \<Longrightarrow>
    sys_step edv errText reliable S (S\<lparr>sy_relay := r, sy_db := d\<rparr>)"
| sy_operator: "serveOperator now h (sy_relay S) = (x, r) \<Longrightarrow>
    sys_step edv errText reliable S (S\<lparr>sy_relay := r\<rparr>)"
| sy_shutdown: "sys_step edv errText reliable S (S\<lparr>sy_relay := relay_Shutdown (sy_relay S)\<rparr>)"
| sy_store: "sys_step edv errText reliable S (S\<lparr>sy_db := exec c (sy_db S)\<rparr>)"
| sy_collect: "collect_grants ids (sy_relay S) = (doomed, r) \<Longrightarrow>
    sys_step edv errText reliable S (S\<lparr>sy_relay := r, sy_doomed := sy_doomed S @ doomed\<rparr>)"
| sy_reset: "sy_doomed S = ps @ p # qs \<Longrightarrow>
    sys_step edv errText reliable S
      (S\<lparr>sy_relay := reset_pair ReasonGrantRevoked p (sy_relay S), sy_doomed := ps @ qs\<rparr>)"

definition sys_init :: "'pk relay \<Rightarrow> db \<Rightarrow> 'pk system" where
  "sys_init r d = \<lparr>sy_relay = r, sy_db = d, sy_joins = [], sy_doomed = []\<rparr>"

section \<open>A reset stream stays reset\<close>

lemma nth_update_if: "j < length xs \<Longrightarrow> xs[i := x] ! j = (if i = j then x else xs ! j)"
  by simp

definition rk :: "session \<Rightarrow> session \<Rightarrow> bool" where
  "rk s s' \<longleftrightarrow> length (s_objs s) \<le> length (s_objs s') \<and>
     (\<forall>a<length (s_objs s). st_reset (s_objs s ! a) \<longrightarrow> st_reset (s_objs s' ! a))"

lemma rk_refl [simp, intro]: "rk s s" by (simp add: rk_def)

lemma rk_trans: "rk s s' \<Longrightarrow> rk s' s'' \<Longrightarrow> rk s s''" by (auto simp: rk_def)

lemma rk_same: "s_objs s' = s_objs s \<Longrightarrow> rk s s'" by (simp add: rk_def)

lemma rk_upd:
  "rk s (upd_stream a f s')" if "s_objs s' = s_objs s" and "st_reset (s_objs s ! a) \<Longrightarrow> st_reset (f (s_objs s ! a))"
  using that by (auto simp: rk_def upd_stream_def nth_update_if)

lemma objs_helpers [simp]:
  "s_objs (setErr e s) = s_objs s" "s_objs (retire i s) = s_objs s" "s_objs (completeOpen i r s) = s_objs s"
  "s_objs (snd (writeFrame t i p s)) = s_objs s" "s_objs (retireIfDone a s) = s_objs s"
  by (auto simp: setErr_def retire_def completeOpen_def writeFrame_def retireIfDone_def split: option.split prod.split)

lemma reset_kept [simp]:
  "st_reset s \<Longrightarrow> st_reset (kill r s)" "st_reset s \<Longrightarrow> st_reset (remoteClose r s)"
  "st_reset s \<Longrightarrow> deliver b s = Inr s" "st_reset (kill r s)"
  by (auto simp: kill_def remoteClose_def deliver_def)

lemma rk_kill_fold:
  "a < length objs \<Longrightarrow> st_reset (objs ! a) \<Longrightarrow>
    st_reset (fold (\<lambda>(_, a) objs. objs[a := kill r (objs ! a)]) xs objs ! a) \<and>
    length (fold (\<lambda>(_, a) objs. objs[a := kill r (objs ! a)]) xs objs) = length objs"
  by (induction xs arbitrary: objs) (auto simp: nth_update_if)

lemma length_kill [simp]: "length (fold (\<lambda>(_, a) objs. objs[a := kill r (objs ! a)]) xs objs) = length objs"
  by (induction xs arbitrary: objs) auto

lemma rk_kill_all: "rk s (kill_all r s)"
  by (auto simp: rk_def kill_all_def rk_kill_fold)

lemma rk_ends: "rk s (session_Close r s)" "rk s (shutdown r s)"
proof -
  have k: "rk s' (kill_all r s'\<lparr>s_done := True, s_conn := c\<rparr>)" for s' c
    using rk_kill_all [of s' r] by (simp add: rk_def)
  show "rk s (shutdown r s)" by (simp add: shutdown_def Let_def k)
  have "rk s (setErr e s\<lparr>s_conn := c\<rparr>)" for e c by (rule rk_same) simp
  then show "rk s (session_Close r s)"
    by (auto simp: session_Close_def Let_def intro: rk_trans [OF _ k])
qed

lemma rk_setErr: "rk s s' \<Longrightarrow> rk s (setErr e s')"
  by (simp add: rk_def)

lemma rk_handleOpen: "rk s (snd (handleOpen i p s))"
proof -
  have app: "rk s (s'\<lparr>s_objs := s_objs s @ [st]\<rparr>)" for s' st
    by (auto simp: rk_def nth_append)
  have wr: "s_objs s2 = s_objs s1" if "writeFrame t i p s1 = (e, s2)" for t i p s1 e s2
    using objs_helpers(4) [of t i p s1] that by simp
  show ?thesis
    by (auto simp: handleOpen_def Let_def rk_def nth_append dest!: wr split: prod.split option.split)
qed

lemma rk_dispatch: "rk s (snd (dispatch f s))"
proof -
  have d: "rk s (upd_stream a (\<lambda>_. st) s)" if "deliver b (s_objs s ! a) = Inr st" for a b st
    by (rule rk_upd) (use that in auto)
  have c: "rk s (upd_stream a (grantCredit n) s)" for a n by (rule rk_upd) auto
  have cl: "rk s (retireIfDone a (upd_stream a (remoteClose r) (completeOpen i q s)))" for a r i q
    using rk_upd [of "completeOpen i q s" s a "remoteClose r"] by (simp add: rk_def)
  have co: "rk s (completeOpen i q s)" for i q by (rule rk_same) simp
  have sh: "rk s (shutdown r (setErr e s))" for r e
    by (rule rk_trans [OF _ rk_ends(2)]) (rule rk_same, simp)
  have wr: "rk s (snd (writeFrame t i p s))" for t i p by (rule rk_same) simp
  have ifI: "(b \<Longrightarrow> rk s (snd x)) \<Longrightarrow> (\<not> b \<Longrightarrow> rk s (snd y)) \<Longrightarrow> rk s (snd (if b then x else y))" for b x y
    by simp
  show ?thesis
    unfolding dispatch_def Let_def
    by (intro ifI) (simp_all add: co sh cl c d wr rk_handleOpen case_prod_beta split: option.split sum.split)
qed

lemma rk_read_turn: "rk s (snd (read_turn now s))"
proof -
  have sh: "rk s (shutdown r (setErr e s'))" if "rk s s'" for r e s'
    by (rule rk_trans [OF rk_setErr [OF that] rk_ends(2)])
  have c: "rk s (s\<lparr>s_conn := c\<rparr>)" "rk s (s\<lparr>s_conn := c, s_lastRecv := now\<rparr>)" for c by (auto simp: rk_def)
  have dsp: "rk s s2" if "dispatch f (s\<lparr>s_conn := c, s_lastRecv := now\<rparr>) = (e, s2)" for f c e s2
    using rk_trans [OF c(2) rk_dispatch [of "s\<lparr>s_conn := c, s_lastRecv := now\<rparr>" f]] that by simp
  show ?thesis
    by (auto simp: read_turn_def Let_def intro!: sh c intro: dsp split: prod.split sum.split option.split dispatch_err.split)
qed

lemma rk_keepAlive: "rk s (snd (keepAlive_tick now idle s))"
proof -
  have wr: "rk s s2" if "writeFrame t i p s = (e, s2)" for t i p e s2
    using objs_helpers(4) [of t i p s] that by (simp add: rk_same)
  show ?thesis
    by (auto simp: keepAlive_tick_def intro: wr rk_trans [OF rk_setErr rk_ends(1)] rk_trans [OF rk_setErr rk_ends(2)]
        split: prod.split option.split)
qed

lemma rk_Open_send: "rk s (snd (Open_send p s))"
proof -
  have wr: "s_objs s2 = s_objs s1" if "writeFrame t i p s1 = (e, s2)" for t i p s1 e s2
    using objs_helpers(4) [of t i p s1] that by simp
  show ?thesis
    by (auto simp: Open_send_def Let_def rk_def nth_append dest!: wr split: prod.split option.split)
qed

lemma rk_waits:
  "Open_wait b ctx w s = Some (r, s') \<Longrightarrow> rk s s'" "AcceptStream b ctx s = Some (r, s') \<Longrightarrow> rk s s'"
  by (cases b; auto simp: Open_wait_def AcceptStream_def Let_def intro!: rk_same
      split: prod.splits option.splits if_splits list.splits)+

lemma objs_sends [simp]:
  "s_objs (snd (sendData i b s)) = s_objs s" "s_objs (snd (sendClose i r s)) = s_objs s"
  "s_objs (snd (sendWindowUpdate i c s)) = s_objs s"
  by (auto simp: sendData_def sendClose_def sendWindowUpdate_def case_prod_beta)

lemma rk_Read: "rk s (snd (stream_Read a n s))"
proof -
  obtain res c st where l: "Read_locked (s_creditThreshold s) n (s_objs s ! a) = (res, c, st)"
    by (metis prod_cases3)
  then have "st_reset st = st_reset (s_objs s ! a)" by (auto simp: Read_locked_def Let_def split: if_splits)
  then have "rk s (upd_stream a (\<lambda>_. st) s)" by (intro rk_upd) auto
  then show ?thesis by (simp add: stream_Read_def l Let_def) (simp add: rk_def)
qed

lemma rk_write_loop: "rk s (snd (write_loop fuel a p w s))"
proof (induction fuel arbitrary: p w s)
  case (Suc fuel)
  obtain res st where l: "Write_locked (s_maxFrame s) (length p) (s_objs s ! a) = (res, st)" by force
  then have "st_reset st = st_reset (s_objs s ! a)" by (auto simp: Write_locked_def Let_def split: if_splits)
  then have u: "rk s (upd_stream a (\<lambda>_. st) s)" by (intro rk_upd) auto
  have "rk s (snd (write_loop fuel a p' w' s2))"
    if "sendData i b (upd_stream a (\<lambda>_. st) s) = (e, s2)" for i b e s2 p' w'
  proof (rule rk_trans [OF u])
    have "s_objs s2 = s_objs (upd_stream a (\<lambda>_. st) s)"
      using objs_sends(1) [of i b "upd_stream a (\<lambda>_. st) s"] that by simp
    then show "rk (upd_stream a (\<lambda>_. st) s) (snd (write_loop fuel a p' w' s2))"
      by (rule rk_trans [OF rk_same Suc.IH])
  qed
  moreover have "rk s s2" if "sendData i b (upd_stream a (\<lambda>_. st) s) = (e, s2)" for i b e s2
    using objs_sends(1) [of i b "upd_stream a (\<lambda>_. st) s"] that u by (simp add: rk_def)
  ultimately show ?case by (auto simp: l split: write_res.split prod.split option.split)
qed simp

lemma rk_closeWith: "rk s (snd (closeWith a r s))"
proof -
  obtain b st where l: "closeWith_locked (s_objs s ! a) = (b, st)" by force
  then have "st_reset st = st_reset (s_objs s ! a)" by (auto simp: closeWith_locked_def split: if_splits)
  then have "rk s (upd_stream a (\<lambda>_. st) s)" by (intro rk_upd) auto
  then show ?thesis by (cases b) (simp_all add: closeWith_def l case_prod_beta, simp add: rk_def)
qed

lemma rk_Reset: "rk s (snd (stream_Reset a r s))"
  and Reset_resets: "a < length (s_objs s) \<Longrightarrow> st_reset (s_objs (snd (stream_Reset a r s)) ! a)"
proof -
  obtain b st where l: "Reset_locked r (s_objs s ! a) = (b, st)" by force
  then have st: "st_reset st" "\<not> b \<Longrightarrow> st = s_objs s ! a" by (auto simp: Reset_locked_def split: if_splits)
  then have "rk s (upd_stream a (\<lambda>_. st) s)" by (intro rk_upd) auto
  then show "rk s (snd (stream_Reset a r s))"
    by (cases b) (simp_all add: stream_Reset_def l case_prod_beta, simp add: rk_def)
  show "st_reset (s_objs (snd (stream_Reset a r s)) ! a)" if "a < length (s_objs s)"
    using that st by (cases b) (auto simp: stream_Reset_def l case_prod_beta upd_stream_def)
qed

lemma sess_step_rk: "sess_step s s' \<Longrightarrow> rk s s'"
proof (induction rule: sess_step.induct)
  case (ss_arrive s b e)
  show ?case by (rule rk_same) (simp add: arrive_def)
next
  case (ss_write s a p)
  show ?case unfolding stream_Write_def by (rule rk_write_loop)
qed (simp_all add: rk_read_turn rk_keepAlive rk_Open_send rk_waits rk_Read rk_closeWith rk_Reset rk_ends)

lemma sess_steps_rk: "sess_step\<^sup>*\<^sup>* s s' \<Longrightarrow> rk s s'"
  by (induction rule: rtranclp_induct) (auto dest: sess_step_rk intro: rk_trans)

section \<open>The relay's operations are steps of its sessions\<close>

definition kept :: "'pk relay \<Rightarrow> 'pk relay \<Rightarrow> bool" where
  "kept r r' \<longleftrightarrow> length (rl_sessions r) \<le> length (rl_sessions r') \<and>
     (\<forall>a<length (rl_sessions r). sess_step\<^sup>*\<^sup>* (rl_sessions r ! a) (rl_sessions r' ! a))"

lemma kept_same [intro]: "rl_sessions r' = rl_sessions r \<Longrightarrow> kept r r'" by (simp add: kept_def)

lemma kept_trans: "kept r r' \<Longrightarrow> kept r' r'' \<Longrightarrow> kept r r''"
  unfolding kept_def by (meson less_le_trans order_trans rtranclp_trans)

lemma kept_upd: "(\<And>s. sess_step s (f s)) \<Longrightarrow> kept r (upd_session a f r)"
  by (auto simp: kept_def upd_session_def nth_update_if)

lemma kept_upd_at: "sess_step (rl_sessions r ! a) s \<Longrightarrow> kept r (upd_session a (\<lambda>_. s) r)"
  by (auto simp: kept_def upd_session_def nth_update_if)

lemma kept_append: "kept r (r\<lparr>rl_sessions := rl_sessions r @ [s]\<rparr>)"
  by (auto simp: kept_def nth_append)

lemma kept_fold: "(\<And>x r. kept r (f x r)) \<Longrightarrow> kept r (fold f xs r)"
  by (induction xs arbitrary: r) (auto intro: kept_trans)

lemma kept_ref: "kept r r' \<Longrightarrow> ref_ok r x \<Longrightarrow> ref_ok r' x"
  and kept_reset: "kept r r' \<Longrightarrow> is_reset r x \<Longrightarrow> is_reset r' x"
proof -
  have k: "rk (rl_sessions r ! fst x) (rl_sessions r' ! fst x)" "fst x < length (rl_sessions r')"
    if "kept r r'" "ref_ok r x"
    using that sess_steps_rk by (auto simp: kept_def ref_ok_def)
  show "kept r r' \<Longrightarrow> ref_ok r x \<Longrightarrow> ref_ok r' x"
    using k by (auto simp: ref_ok_def rk_def)
  show "kept r r' \<Longrightarrow> is_reset r x \<Longrightarrow> is_reset r' x"
    using k by (auto simp: is_reset_def ref_ok_def rk_def)
qed

lemma kept_ref_Reset: "kept r (ref_Reset reason x r)"
  unfolding ref_Reset_def by (rule kept_upd) (rule ss_reset)

lemma ref_Reset_resets: "ref_ok r x \<Longrightarrow> is_reset (ref_Reset reason x r) x"
  using Reset_resets [of "snd x" "rl_sessions r ! fst x" reason] rk_Reset [of "rl_sessions r ! fst x" "snd x" reason]
  by (auto simp: is_reset_def ref_ok_def ref_Reset_def upd_session_def rk_def)

lemma kept_reset_pair: "kept r (reset_pair reason p r)"
  unfolding reset_pair_def by (rule kept_trans [OF kept_ref_Reset kept_ref_Reset])

lemma reset_pair_resets:
  assumes "ref_ok r (pr_operator p)" and "ref_ok r (pr_agent p)"
  shows "is_reset (reset_pair reason p r) (pr_operator p)" and "is_reset (reset_pair reason p r) (pr_agent p)"
  unfolding reset_pair_def
  using assms kept_reset [OF kept_ref_Reset ref_Reset_resets] ref_Reset_resets [OF kept_ref [OF kept_ref_Reset]]
  by blast+

lemma live_upd_session [simp]: "rl_live (upd_session a f r) = rl_live r" "rl_cfg (upd_session a f r) = rl_cfg r"
  by (simp_all add: upd_session_def)

lemma live_ref_Reset [simp]: "rl_live (ref_Reset reason x r) = rl_live r" "rl_cfg (ref_Reset reason x r) = rl_cfg r"
  by (simp_all add: ref_Reset_def)

lemma live_reset_pair [simp]: "rl_live (reset_pair reason p r) = rl_live r" "rl_cfg (reset_pair reason p r) = rl_cfg r"
  by (simp_all add: reset_pair_def)

lemma relay_Shutdown_keeps: "kept r (relay_Shutdown r)" "rl_live (relay_Shutdown r) = rl_live r"
  "rl_cfg (relay_Shutdown r) = rl_cfg r"
proof -
  have f: "rl_live (fold (\<lambda>a. upd_session a f) xs r) = rl_live r \<and> rl_cfg (fold (\<lambda>a. upd_session a f) xs r) = rl_cfg r"
    for f xs and r :: "'a relay"
    by (induction xs arbitrary: r) simp_all
  have c: "kept r (upd_session a (session_Close ReasonShutdown) r)" for a and r :: "'a relay"
    by (rule kept_upd) (rule ss_end)
  have "kept r (fold (\<lambda>a. upd_session a (session_Close ReasonShutdown)) xs
      (r\<lparr>rl_closed := True, rl_ln := False, rl_registry := reg\<rparr>))" for xs reg
    by (rule kept_trans [OF kept_same kept_fold]) (simp, rule c)
  then show "kept r (relay_Shutdown r)"
    by (auto simp: relay_Shutdown_def Let_def split: prod.split)
  show "rl_live (relay_Shutdown r) = rl_live r" "rl_cfg (relay_Shutdown r) = rl_cfg r"
    by (simp_all add: relay_Shutdown_def Let_def f split: prod.split)
qed

section \<open>The relay writes only audit events\<close>

lemma Record_run: "\<exists>cs. Record a e d = run cs d"
proof (cases "rec_store a")
  case True
  let ?e = "if IsZero (e_At e) then e\<lparr>e_At := rec_now a\<rparr> else e"
  have "Record a e d = run [CAppendAudit (rec_fails a) (rec_now a) ?e] d"
    using True by (simp add: Record_def Let_def)
  then show ?thesis by blast
qed (auto simp: Record_def intro: exI [of _ "[]"])

lemma auditDenied_run: "\<exists>cs. auditDenied a cfg g reason detail d = run cs d"
  using Record_run by (auto simp: auditDenied_def StreamDenied_def intro: exI [of _ "[]"])

lemma join_check_run: "\<exists>cs. snd (join_check edv check aud cfg now dev user payload d) = run cs d"
proof -
  have "\<exists>cs. d = run cs d" by (rule exI [of _ "[]"]) simp
  then show ?thesis
    using auditDenied_run by (auto simp: join_check_def split: sum.split option.split)
qed

section \<open>One turn of a joining goroutine\<close>

lemma join_turn_keeps:
  assumes "join_turn edv errText check env j r d = Some (j', r', d')"
  shows "kept r r'" and "rl_cfg r' = rl_cfg r" and "\<exists>cs. d' = run cs d"
    and "jn_op j' = jn_op j" and "jn_agent j' = jn_agent j"
proof -
  have nil: "\<exists>cs. d = run cs d" for d by (rule exI [of _ "[]"]) simp
  have os: "sess_step s s'" if "Open_send p s = (res, s')" for p s s' res
    using ss_open [of s p] that by simp
  have ck: "\<exists>cs. d2 = run cs d" if "join_check edv c aud cfg now dev user p d = (res, d2)" for c aud cfg now dev user p res d2
    using join_check_run [of edv c aud cfg now dev user p d] that by simp
  have "kept r r' \<and> rl_cfg r' = rl_cfg r \<and> (\<exists>cs. d' = run cs d) \<and> jn_op j' = jn_op j \<and> jn_agent j' = jn_agent j"
  proof (cases "jn_phase j")
    case JStart
    with assms show ?thesis
      by (auto simp: join_turn_def Let_def kept_ref_Reset dest: ck split: prod.splits sum.splits)
  next
    case (JChecked g sid)
    with assms show ?thesis
      by (auto simp: join_turn_def Let_def join_refuse_def auditDenied_run nil intro!: kept_upd_at
          intro: kept_trans [OF kept_upd_at kept_ref_Reset] dest: os split: prod.splits sum.splits)
  next
    case (JOpening g sid w)
    with assms show ?thesis
      by (auto simp: join_turn_def Let_def join_refuse_def auditDenied_run nil intro!: kept_upd_at
          intro: kept_trans [OF kept_upd_at kept_ref_Reset] ss_opened split: prod.splits sum.splits option.splits)
  next
    case (JOpened g sid a)
    with assms show ?thesis
      using Record_run nil
      by (auto simp: join_turn_def Let_def StreamOpened_def split: prod.splits)
  next
    case (JJoined g a rel t)
    with assms show ?thesis
      using Record_run nil
      by (auto simp: join_turn_def Let_def StreamClosed_def split: prod.splits)
  qed (use assms in \<open>simp add: join_turn_def\<close>)
  then show "kept r r'" "rl_cfg r' = rl_cfg r" "\<exists>cs. d' = run cs d" "jn_op j' = jn_op j" "jn_agent j' = jn_agent j"
    by auto
qed

lemma serveAgent_keeps:
  assumes "serveAgent aud now h i r d = (x, r', d')"
  shows "kept r r'" and "rl_live r' = rl_live r" and "rl_cfg r' = rl_cfg r" and "\<exists>cs. d' = run cs d"
proof -
  have nil: "\<exists>cs. d = run cs d" by (rule exI [of _ "[]"]) simp
  have cl: "kept r1 (upd_session a (session_Close ReasonSessionReplaced) r1)" for a and r1 :: "'a relay"
    by (rule kept_upd) (rule ss_end)
  have ap: "kept r (r\<lparr>rl_nextSession := n, rl_sessions := rl_sessions r @ [s], rl_registry := reg\<rparr>)" for n s reg
    by (auto simp: kept_def nth_append)
  show "kept r r'" using assms
    by (auto simp: serveAgent_def relay_newSessionID_def Let_def ap intro!: kept_trans [OF ap cl]
        split: prod.splits sum.splits if_splits option.splits)
  show "rl_live r' = rl_live r" "rl_cfg r' = rl_cfg r" using assms
    by (auto simp: serveAgent_def relay_newSessionID_def Let_def split: prod.splits sum.splits if_splits option.splits)
  show "\<exists>cs. d' = run cs d" using assms nil Record_run
    by (auto simp: serveAgent_def relay_newSessionID_def Let_def DeviceConnected_def
        split: prod.splits sum.splits if_splits option.splits)
qed

lemma serveAgent_end_keeps:
  assumes "serveAgent_end errText aud dev a r d = (r', d')"
  shows "kept r r'" and "rl_live r' = rl_live r" and "rl_cfg r' = rl_cfg r" and "\<exists>cs. d' = run cs d"
proof -
  have nil: "\<exists>cs. d = run cs d" by (rule exI [of _ "[]"]) simp
  have "kept r (upd_session a (session_Close ReasonShutdown) (r\<lparr>rl_registry := reg\<rparr>))" for reg
    by (rule kept_trans [OF kept_same kept_upd]) (simp, rule ss_end)
  with assms show "kept r r'" by (auto simp: serveAgent_end_def Let_def)
  show "rl_live r' = rl_live r" "rl_cfg r' = rl_cfg r" "\<exists>cs. d' = run cs d"
    using assms nil Record_run by (auto simp: serveAgent_end_def Let_def DeviceDisconnected_def)
qed

lemma serveOperator_keeps:
  assumes "serveOperator now h r = (x, r')"
  shows "kept r r'" and "rl_live r' = rl_live r" and "rl_cfg r' = rl_cfg r"
proof -
  have ap: "kept r (r\<lparr>rl_registry := reg, rl_nextSession := n, rl_sessions := rl_sessions r @ [s]\<rparr>)" for n s reg
    by (auto simp: kept_def nth_append)
  show "kept r r'" "rl_live r' = rl_live r" "rl_cfg r' = rl_cfg r" using assms
    by (auto simp: serveOperator_def relay_newSessionID_def Let_def ap
        split: prod.splits sum.splits if_splits option.splits)
qed

lemma collect_grants_keeps:
  assumes "collect_grants ids r = (doomed, r')"
  shows "kept r r'" and "rl_cfg r' = rl_cfg r" and "ls_nextID (rl_live r') = ls_nextID (rl_live r)"
    and "streams_of h (rl_live r') = (if h \<in> set ids then [] else streams_of h (rl_live r))"
    and "h \<in> set ids \<Longrightarrow> map_of (streams_of h (rl_live r)) i = Some p \<Longrightarrow> p \<in> set doomed"
proof -
  obtain l where c: "live_collect ids (rl_live r) = (doomed, l)" "r' = r\<lparr>rl_live := l\<rparr>"
    using assms by (auto simp: collect_grants_def split: prod.splits)
  then show "kept r r'" "rl_cfg r' = rl_cfg r" "ls_nextID (rl_live r') = ls_nextID (rl_live r)"
    "streams_of h (rl_live r') = (if h \<in> set ids then [] else streams_of h (rl_live r))"
    using streams_of_collect(1,2) [OF c(1)] by auto
  assume h: "h \<in> set ids" and "map_of (streams_of h (rl_live r)) i = Some p"
  then have "p \<in> snd ` set (streams_of h (rl_live r))" by (force dest: map_of_SomeD)
  with h show "p \<in> set doomed" unfolding streams_of_collect(3) [OF c(1)] by blast
qed

section \<open>The register covers every joined stream\<close>

definition gone :: "'pk system \<Rightarrow> stream_ref pair \<Rightarrow> bool" where
  "gone S p \<longleftrightarrow> p \<in> set (sy_doomed S) \<or>
     is_reset (sy_relay S) (pr_operator p) \<and> is_reset (sy_relay S) (pr_agent p)"

definition ends :: "joiner \<Rightarrow> nat \<Rightarrow> stream_ref pair" where
  "ends j a = \<lparr>pr_operator = jn_op j, pr_agent = (jn_agent j, a)\<rparr>"

lemma ends_sel [simp]: "pr_operator (ends j a) = jn_op j" "pr_agent (ends j a) = (jn_agent j, a)"
  by (simp_all add: ends_def)

definition joiner_ok :: "'pk system \<Rightarrow> joiner \<Rightarrow> bool" where
  "joiner_ok S j \<longleftrightarrow> ref_ok (sy_relay S) (jn_op j) \<and> jn_agent j < length (rl_sessions (sy_relay S)) \<and>
    (case jn_phase j of
       JOpening g sid w \<Rightarrow> ref_ok (sy_relay S) (jn_agent j, fst (snd w))
     | JOpened g sid a \<Rightarrow> ref_ok (sy_relay S) (jn_agent j, a)
     | JJoined g a rel t \<Rightarrow> ref_ok (sy_relay S) (jn_agent j, a) \<and>
         (g_GrantID g = '''' \<and> rel = None \<or>
          (\<exists>i. rel = Some (g_GrantID g, i) \<and> unat i \<le> unat (ls_nextID (rl_live (sy_relay S))) \<and>
            (map_of (streams_of (g_GrantID g) (rl_live (sy_relay S))) i = Some (ends j a) \<or> gone S (ends j a))))
     | _ \<Rightarrow> True)"

fun phase_id :: "join_phase \<Rightarrow> u64 option" where
  "phase_id (JJoined g a (Some (h, i)) t) = Some i"
| "phase_id _ = None"

definition sys_inv :: "'pk system \<Rightarrow> bool" where
  "sys_inv S \<longleftrightarrow> (\<forall>j\<in>set (sy_joins S). joiner_ok S j) \<and>
     (\<forall>k k' i. k < length (sy_joins S) \<longrightarrow> k' < length (sy_joins S) \<longrightarrow>
        phase_id (jn_phase (sy_joins S ! k)) = Some i \<longrightarrow> phase_id (jn_phase (sy_joins S ! k')) = Some i \<longrightarrow> k = k')"

lemma joiner_ok_mono:
  assumes ok: "joiner_ok S j" and k: "kept (sy_relay S) (sy_relay S')"
    and n: "unat (ls_nextID (rl_live (sy_relay S))) \<le> unat (ls_nextID (rl_live (sy_relay S')))"
    and m: "\<And>h i p. phase_id (jn_phase j) = Some i \<Longrightarrow>
      map_of (streams_of h (rl_live (sy_relay S))) i = Some p \<Longrightarrow>
      map_of (streams_of h (rl_live (sy_relay S'))) i = Some p \<or> gone S' p"
    and g: "\<And>p. gone S p \<Longrightarrow> ref_ok (sy_relay S) (pr_operator p) \<Longrightarrow> ref_ok (sy_relay S) (pr_agent p) \<Longrightarrow> gone S' p"
  shows "joiner_ok S' j"
proof -
  have r: "ref_ok (sy_relay S') x" if "ref_ok (sy_relay S) x" for x using kept_ref [OF k that] .
  have l: "jn_agent j < length (rl_sessions (sy_relay S'))"
    using ok k by (auto simp: joiner_ok_def kept_def)
  show ?thesis
  proof (cases "jn_phase j")
    case (JJoined gr a rel t)
    show ?thesis
    proof (cases rel)
      case None
      with JJoined ok r l show ?thesis by (auto simp: joiner_ok_def)
    next
      case (Some hi)
      from Some JJoined ok obtain i where i: "rel = Some (g_GrantID gr, i)"
        "unat i \<le> unat (ls_nextID (rl_live (sy_relay S)))"
        "map_of (streams_of (g_GrantID gr) (rl_live (sy_relay S))) i = Some (ends j a) \<or> gone S (ends j a)"
        "ref_ok (sy_relay S) (jn_op j)" "ref_ok (sy_relay S) (jn_agent j, a)"
        by (auto simp: joiner_ok_def)
      have "map_of (streams_of (g_GrantID gr) (rl_live (sy_relay S'))) i = Some (ends j a) \<or> gone S' (ends j a)"
        using i(3)
      proof
        assume "map_of (streams_of (g_GrantID gr) (rl_live (sy_relay S))) i = Some (ends j a)"
        then show ?thesis using m [of i "g_GrantID gr" "ends j a"] i(1) JJoined by simp
      next
        assume "gone S (ends j a)"
        then show ?thesis using g [of "ends j a"] i(4,5) by simp
      qed
      with JJoined i n r l show ?thesis by (auto simp: joiner_ok_def)
    qed
  qed (use ok r l in \<open>auto simp: joiner_ok_def\<close>)
qed

lemma gone_kept:
  "kept (sy_relay S) (sy_relay S') \<Longrightarrow> set (sy_doomed S) \<subseteq> set (sy_doomed S') \<Longrightarrow> gone S p \<Longrightarrow> gone S' p"
  by (auto simp: gone_def intro: kept_reset)

text \<open>A step that leaves the register, the collected pairs and the goroutines alone.\<close>

lemma sys_inv_still:
  assumes "sys_inv S" and "kept (sy_relay S) r" and "rl_live r = rl_live (sy_relay S)"
  shows "sys_inv (S\<lparr>sy_relay := r, sy_db := d\<rparr>)"
proof -
  have "joiner_ok (S\<lparr>sy_relay := r, sy_db := d\<rparr>) j" if "joiner_ok S j" for j
    by (rule joiner_ok_mono [OF that]) (use assms gone_kept [of S "S\<lparr>sy_relay := r, sy_db := d\<rparr>"] in auto)
  with assms show ?thesis by (auto simp: sys_inv_def)
qed

lemma sys_inv_collect:
  assumes inv: "sys_inv S" and c: "collect_grants ids (sy_relay S) = (doomed, r)"
  shows "sys_inv (S\<lparr>sy_relay := r, sy_doomed := sy_doomed S @ doomed\<rparr>)"
proof -
  let ?S = "S\<lparr>sy_relay := r, sy_doomed := sy_doomed S @ doomed\<rparr>"
  have "joiner_ok ?S j" if "joiner_ok S j" for j
  proof (rule joiner_ok_mono [OF that])
    fix h i p
    assume "map_of (streams_of h (rl_live (sy_relay S))) i = Some p"
    then show "map_of (streams_of h (rl_live (sy_relay ?S))) i = Some p \<or> gone ?S p"
      using collect_grants_keeps(4,5) [OF c] by (auto simp: gone_def)
  qed (use collect_grants_keeps [OF c] gone_kept [of S ?S] in auto)
  with inv show ?thesis by (auto simp: sys_inv_def)
qed

lemma sys_inv_reset:
  assumes inv: "sys_inv S" and c: "sy_doomed S = ps @ p # qs"
  shows "sys_inv (S\<lparr>sy_relay := reset_pair R p (sy_relay S), sy_doomed := ps @ qs\<rparr>)"
proof -
  let ?S = "S\<lparr>sy_relay := reset_pair R p (sy_relay S), sy_doomed := ps @ qs\<rparr>"
  have "joiner_ok ?S j" if "joiner_ok S j" for j
  proof (rule joiner_ok_mono [OF that])
    fix q
    assume "gone S q" "ref_ok (sy_relay S) (pr_operator q)" "ref_ok (sy_relay S) (pr_agent q)"
    then show "gone ?S q"
      using c reset_pair_resets [of "sy_relay S" q R]
      by (cases "q = p") (auto simp: gone_def intro: kept_reset [OF kept_reset_pair])
  qed (use kept_reset_pair in auto)
  with inv show ?thesis by (auto simp: sys_inv_def)
qed

text \<open>The turns of a goroutine, by phase.\<close>

lemma join_turn_live:
  assumes "join_turn edv errText check env j r d = Some (j', r', d')"
  shows "(rl_live r' = rl_live r \<and> phase_id (jn_phase j) = None \<and> phase_id (jn_phase j') = None \<and>
     (\<forall>g sid a. jn_phase j \<noteq> JOpened g sid a)) \<or>
    (\<exists>g sid a rel t. jn_phase j = JOpened g sid a \<and> jn_phase j' = JJoined g a rel t \<and>
       live_Add (g_GrantID g) (jn_op j) (jn_agent j, a) (rl_live r) = (rel, rl_live r') \<and> rl_sessions r' = rl_sessions r) \<or>
    (\<exists>g a rel t. jn_phase j = JJoined g a rel t \<and> jn_phase j' = JDone \<and> rl_live r' = live_release rel (rl_live r))"
  using assms
  by (auto simp: join_turn_def Let_def join_refuse_def
      split: join_phase.splits prod.splits sum.splits option.splits)

lemma Open_send_new: "Open_send p s = (Inr (i, a, ch), s') \<Longrightarrow> a < length (s_objs s')"
proof -
  assume o: "Open_send p s = (Inr (i, a, ch), s')"
  have wr: "s_objs s2 = s_objs s1" if "writeFrame t i p s1 = (e, s2)" for t i p s1 e s2
    using objs_helpers(4) [of t i p s1] that by simp
  from o show ?thesis
    by (auto simp: Open_send_def Let_def dest!: wr split: if_splits prod.splits option.splits)
qed

lemma Open_wait_same: "Open_wait b ctx (i, a, ch) s = Some (Inr a', s') \<Longrightarrow> a' = a"
  by (cases b) (auto simp: Open_wait_def Let_def split: option.splits if_splits)

lemma joiner_ok_turn:
  assumes ok: "joiner_ok S j" and t: "join_turn edv errText check env j (sy_relay S) d0 = Some (j', r, d)"
    and n: "unat (ls_nextID (rl_live (sy_relay S))) + 1 < 2 ^ 64"
  shows "joiner_ok (S\<lparr>sy_joins := js, sy_relay := r, sy_db := d\<rparr>) j'"
proof -
  note k = join_turn_keeps [OF t]
  have l: "jn_agent j < length (rl_sessions r)" "jn_agent j < length (rl_sessions (sy_relay S))"
    using ok k(1) by (auto simp: joiner_ok_def kept_def)
  have b: "ref_ok r (jn_op j)" using ok kept_ref [OF k(1)] by (auto simp: joiner_ok_def)
  show ?thesis
  proof (cases "jn_phase j")
    case (JChecked g sid)
    with t b l k show ?thesis
      by (auto simp: join_turn_def Let_def join_refuse_def joiner_ok_def ref_ok_def upd_session_def
          dest: Open_send_new split: prod.splits sum.splits)
  next
    case (JOpening g sid w)
    obtain i a ch where w: "w = (i, a, ch)" by (metis prod_cases3)
    have "ref_ok r (jn_agent j, a)" using ok JOpening w kept_ref [OF k(1)] by (auto simp: joiner_ok_def)
    with JOpening w t b l k show ?thesis
      by (auto simp: join_turn_def Let_def join_refuse_def joiner_ok_def
          dest: Open_wait_same split: prod.splits sum.splits option.splits)
  next
    case (JOpened g sid a)
    have o: "ref_ok r (jn_agent j, a)" using ok JOpened kept_ref [OF k(1)] by (auto simp: joiner_ok_def)
    obtain rel t0 where p: "jn_phase j' = JJoined g a rel t0"
      and add: "live_Add (g_GrantID g) (jn_op j) (jn_agent j, a) (rl_live (sy_relay S)) = (rel, rl_live r)"
      using join_turn_live [OF t] JOpened by auto
    have e: "ends j' a = \<lparr>pr_operator = jn_op j, pr_agent = (jn_agent j, a)\<rparr>" using k by (simp add: ends_def)
    show ?thesis
    proof (cases "g_GrantID g = ''''")
      case True
      with add have "rel = None" by (simp add: live_Add_def)
      with True p b l o k show ?thesis by (simp add: joiner_ok_def)
    next
      case False
      from streams_of_Add [OF add False]
      have "rel = Some (g_GrantID g, ls_nextID (rl_live r))"
        "map_of (streams_of (g_GrantID g) (rl_live r)) (ls_nextID (rl_live r)) = Some (ends j' a)"
        by (auto simp: AList.update_conv' e)
      with p b l o k show ?thesis by (simp add: joiner_ok_def)
    qed
  next
    case (JJoined g a rel t0)
    with t b l k show ?thesis by (auto simp: join_turn_def Let_def joiner_ok_def)
  next
    case JStart
    with t b l k show ?thesis
      by (auto simp: join_turn_def Let_def joiner_ok_def split: prod.splits sum.splits)
  next
    case JDone
    with t show ?thesis by (simp add: join_turn_def)
  qed
qed

text \<open>What a goroutine's turn does to the others: their entries stay.\<close>

lemma entry_stays:
  assumes t: "join_turn edv errText check env j r d = Some (j', r', d')"
    and e: "map_of (streams_of h (rl_live r)) i = Some p" and i: "unat i \<le> unat (ls_nextID (rl_live r))"
    and n: "unat (ls_nextID (rl_live r)) + 1 < 2 ^ 64" and o: "phase_id (jn_phase j) \<noteq> Some i"
  shows "map_of (streams_of h (rl_live r')) i = Some p"
  using join_turn_live [OF t]
proof (elim disjE exE conjE)
  fix g sid a rel t0
  assume add: "live_Add (g_GrantID g) (jn_op j) (jn_agent j, a) (rl_live r) = (rel, rl_live r')"
  have ne: "i \<noteq> ls_nextID (rl_live r) + 1"
    using i n by (auto simp: unat_word_ariths)
  show ?thesis
  proof (cases "g_GrantID g = ''''")
    case True
    with add e show ?thesis by (simp add: live_Add_def)
  next
    case False
    then show ?thesis using streams_of_Add(3) [OF add False, of h] e ne
      by (auto simp: AList.update_conv')
  qed
next
  fix g a rel t0
  assume r: "rl_live r' = live_release rel (rl_live r)" and p: "jn_phase j = JJoined g a rel t0"
  show ?thesis
  proof (cases rel)
    case None
    with r e show ?thesis by simp
  next
    case (Some hi)
    obtain h0 i0 where hi: "hi = (h0, i0)" by force
    with Some o p have "i0 \<noteq> i" by simp
    with r Some hi e streams_of_release [of h h0 i0 "rl_live r"] show ?thesis
      by (auto simp: AList.delete_conv' simp del: live_release.simps)
  qed
qed (use e in simp)

lemma phase_id_turn:
  assumes t: "join_turn edv errText check env j r d = Some (j', r', d')" and p: "phase_id (jn_phase j') = Some i"
  shows "i = ls_nextID (rl_live r) + 1"
  using join_turn_live [OF t]
proof (elim disjE exE conjE)
  fix g sid a rel t0
  assume j': "jn_phase j' = JJoined g a rel t0"
    and add: "live_Add (g_GrantID g) (jn_op j) (jn_agent j, a) (rl_live r) = (rel, rl_live r')"
  with p have "g_GrantID g \<noteq> ''''" by (auto simp: live_Add_def)
  from streams_of_Add(1) [OF add this] p j' show ?thesis by simp
qed (use p in auto)

lemma nextID_turn:
  assumes "join_turn edv errText check env j r d = Some (j', r', d')"
    and "unat (ls_nextID (rl_live r)) + 1 < 2 ^ 64"
  shows "unat (ls_nextID (rl_live r)) \<le> unat (ls_nextID (rl_live r'))"
  using join_turn_live [OF assms(1)]
proof (elim disjE exE conjE)
  fix g sid a rel t0
  assume add: "live_Add (g_GrantID g) (jn_op j) (jn_agent j, a) (rl_live r) = (rel, rl_live r')"
  show ?thesis
  proof (cases "g_GrantID g = ''''")
    case True
    with add show ?thesis by (simp add: live_Add_def)
  next
    case False
    from streams_of_Add(2) [OF add False] assms(2) show ?thesis by (simp add: unat_word_ariths)
  qed
qed auto

lemma phase_id_le:
  "joiner_ok S j \<Longrightarrow> phase_id (jn_phase j) = Some i \<Longrightarrow> unat i \<le> unat (ls_nextID (rl_live (sy_relay S)))"
  by (cases "jn_phase j" rule: phase_id.cases) (auto simp: joiner_ok_def)

lemma sys_inv_join:
  assumes inv: "sys_inv S" and k: "k < length (sy_joins S)"
    and n: "unat (ls_nextID (rl_live (sy_relay S))) + 1 < 2 ^ 64"
    and t: "join_turn edv errText check env (sy_joins S ! k) (sy_relay S) (sy_db S) = Some (j, r, d)"
  shows "sys_inv (S\<lparr>sy_joins := (sy_joins S)[k := j], sy_relay := r, sy_db := d\<rparr>)" (is "sys_inv ?S")
proof -
  have ok: "joiner_ok S (sy_joins S ! m)" if "m < length (sy_joins S)" for m
    using inv that by (simp add: sys_inv_def)
  have uniq: "m = m'" if "m < length (sy_joins S)" "m' < length (sy_joins S)"
    "phase_id (jn_phase (sy_joins S ! m)) = Some i" "phase_id (jn_phase (sy_joins S ! m')) = Some i" for m m' i
    using inv that unfolding sys_inv_def by blast
  have "joiner_ok ?S j" by (rule joiner_ok_turn [OF ok [OF k] t n])
  moreover have "joiner_ok ?S (sy_joins S ! m)" if m: "m < length (sy_joins S)" "m \<noteq> k" for m
  proof (rule joiner_ok_mono [OF ok [OF m(1)]])
    fix h i p
    assume i: "phase_id (jn_phase (sy_joins S ! m)) = Some i"
      and e: "map_of (streams_of h (rl_live (sy_relay S))) i = Some p"
    have "phase_id (jn_phase (sy_joins S ! k)) \<noteq> Some i" using uniq [OF m(1) k i] m(2) by blast
    from entry_stays [OF t e phase_id_le [OF ok [OF m(1)] i] n this]
    show "map_of (streams_of h (rl_live (sy_relay ?S))) i = Some p \<or> gone ?S p" by simp
  next
    show "gone ?S p" if "gone S p" for p
      using gone_kept [of S ?S p] join_turn_keeps(1) [OF t] that by simp
  qed (use join_turn_keeps(1) [OF t] nextID_turn [OF t n] in simp_all)
  ultimately have "joiner_ok ?S ((sy_joins S)[k := j] ! m)" if "m < length (sy_joins S)" for m
    using that by (cases "m = k") auto
  then have "\<forall>x\<in>set (sy_joins ?S). joiner_ok ?S x" by (auto simp: in_set_conv_nth)
  moreover have "m = m'" if "m < length (sy_joins S)" "m' < length (sy_joins S)"
    "phase_id (jn_phase ((sy_joins S)[k := j] ! m)) = Some i"
    "phase_id (jn_phase ((sy_joins S)[k := j] ! m')) = Some i" for m m' i
  proof -
    have new: "x = k" if "x < length (sy_joins S)" "phase_id (jn_phase ((sy_joins S)[k := j] ! x)) = Some i"
      "phase_id (jn_phase j) = Some i" for x
    proof (rule ccontr)
      assume "x \<noteq> k"
      then have "unat i \<le> unat (ls_nextID (rl_live (sy_relay S)))"
        using phase_id_le [OF ok [OF that(1)]] that(2) by simp
      with phase_id_turn [OF t that(3)] n show False by (simp add: unat_word_ariths)
    qed
    show ?thesis
      using that new [of m] new [of m'] uniq [of m m' i]
      by (cases "m = k"; cases "m' = k") (auto simp: k)
  qed
  ultimately show ?thesis by (simp add: sys_inv_def)
qed

section \<open>Every run\<close>

fun phase_grant :: "join_phase \<Rightarrow> signed_grant option" where
  "phase_grant JStart = None"
| "phase_grant (JChecked g sid) = Some g"
| "phase_grant (JOpening g sid w) = Some g"
| "phase_grant (JOpened g sid a) = Some g"
| "phase_grant (JJoined g a rel t) = Some g"
| "phase_grant JDone = None"

text \<open>The goroutine has passed its check with that grant and has not ended.\<close>

definition under :: "string \<Rightarrow> joiner \<Rightarrow> bool" where
  "under gid j \<longleftrightarrow> (\<exists>g. phase_grant (jn_phase j) = Some g \<and> g_GrantID g = gid)"

definition revoked_in :: "db \<Rightarrow> string \<Rightarrow> bool" where
  "revoked_in d gid \<longleftrightarrow> (\<exists>x. LookupGrant False gid d = Inr x \<and> grant_Revoked x)"

lemma revoked_run: "db_ok d \<Longrightarrow> revoked_in d gid \<Longrightarrow> revoked_in (run cs d) gid"
proof -
  assume ok: "db_ok d" and "revoked_in d gid"
  then obtain x where x: "find (\<lambda>x. gt_grant_id x = gid) (grants d) = Some x" "grant_Revoked (grant_of x)"
    by (auto simp: revoked_in_def LookupGrant_def split: option.splits)
  from later_grant [OF ok x(1), of cs] x(2) show ?thesis
    by (auto simp: revoked_in_def LookupGrant_def grant_later_def grant_Revoked_of)
qed

lemma run_nil [simp]: "\<exists>cs. d = run cs d"
  by (rule exI [of _ "[]"]) simp

lemma sys_step_keeps:
  assumes "sys_step edv errText reliable S S'"
  shows "kept (sy_relay S) (sy_relay S') \<and> rl_cfg (sy_relay S') = rl_cfg (sy_relay S) \<and>
    (\<exists>cs. sy_db S' = run cs (sy_db S))"
  using assms
proof (cases rule: sys_step.cases)
  case (sy_join k env j r d)
  then show ?thesis using join_turn_keeps [OF sy_join(5)] by simp
next
  case (sy_session a s)
  then show ?thesis using kept_upd_at [OF sy_session(3)] by simp
next
  case (sy_agent aud now h i x r d)
  then show ?thesis using serveAgent_keeps [OF sy_agent(2)] by simp
next
  case (sy_agent_end aud dev a r d)
  then show ?thesis using serveAgent_end_keeps [OF sy_agent_end(2)] by simp
next
  case (sy_operator now h x r)
  then show ?thesis using serveOperator_keeps [OF sy_operator(2)] by simp
next
  case (sy_store c)
  have "exec c (sy_db S) = run [c] (sy_db S)" by simp
  then have "\<exists>cs. exec c (sy_db S) = run cs (sy_db S)" by blast
  with sy_store show ?thesis using kept_same [of "sy_relay S" "sy_relay S"] by simp
next
  case (sy_collect ids doomed r)
  then show ?thesis using collect_grants_keeps(1,2) [OF sy_collect(2)] by simp
next
  case sy_shutdown
  then show ?thesis using relay_Shutdown_keeps [of "sy_relay S"] by simp
next
  case (sy_reset ps p qs)
  then show ?thesis using kept_reset_pair [of "sy_relay S" ReasonGrantRevoked p] by simp
next
  case (sy_stream x a dev user)
  then show ?thesis using kept_same [of "sy_relay S" "sy_relay S"] by simp
qed

lemma sys_step_inv:
  assumes "sys_step edv errText reliable S S'" and "sys_inv S"
  shows "sys_inv S'"
  using assms(1)
proof (cases rule: sys_step.cases)
  case (sy_stream x a dev user)
  let ?j = "\<lparr>jn_op = x, jn_agent = a, jn_device = dev, jn_user = user, jn_phase = JStart\<rparr>"
  have "joiner_ok S' j \<longleftrightarrow> joiner_ok S j" for j
    by (simp add: sy_stream(1) joiner_ok_def gone_def cong: join_phase.case_cong)
  moreover have "joiner_ok S ?j" using sy_stream by (simp add: joiner_ok_def)
  ultimately show ?thesis using assms(2) sy_stream(1) by (auto simp: sys_inv_def nth_append)
next
  case (sy_join k env j r d)
  then show ?thesis using sys_inv_join [OF assms(2) sy_join(2,4,5)] by simp
next
  case (sy_session a s)
  then show ?thesis
    using sys_inv_still [OF assms(2) kept_upd_at [OF sy_session(3)], of "sy_db S"] by simp
next
  case (sy_agent aud now h i x r d)
  then show ?thesis using sys_inv_still [OF assms(2) serveAgent_keeps(1,2) [OF sy_agent(2)]] by simp
next
  case (sy_agent_end aud dev a r d)
  then show ?thesis using sys_inv_still [OF assms(2) serveAgent_end_keeps(1,2) [OF sy_agent_end(2)]] by simp
next
  case (sy_operator now h x r)
  then show ?thesis
    using sys_inv_still [OF assms(2) serveOperator_keeps(1,2) [OF sy_operator(2)], of "sy_db S"] by simp
next
  case sy_shutdown
  then show ?thesis
    using sys_inv_still [OF assms(2) relay_Shutdown_keeps(1,2), of "sy_db S"] by simp
next
  case (sy_store c)
  then show ?thesis
    using sys_inv_still [OF assms(2) kept_same refl, of "exec c (sy_db S)"] by simp
next
  case (sy_collect ids doomed r)
  then show ?thesis using sys_inv_collect [OF assms(2) sy_collect(2)] by simp
next
  case (sy_reset ps p qs)
  then show ?thesis using sys_inv_reset [OF assms(2) sy_reset(2)] by simp
qed

lemma sys_init_inv: "sys_inv (sys_init r d)"
  by (simp add: sys_inv_def sys_init_def)

lemma join_turn_under:
  assumes "join_turn edv errText CheckGrant env j r d = Some (j', r', d')" and "\<not> je_fails env"
    and "rc_Grants (rl_cfg r)" and "revoked_in d gid" and "under gid j'"
  shows "under gid j"
proof (cases "jn_phase j")
  case JStart
  let ?c = "join_check edv (CheckGrant False) (je_aud env) (rl_cfg r) (je_now env) (jn_device j) (jn_user j)
    (st_openPayload (s_objs (rl_sessions r ! fst (jn_op j)) ! snd (jn_op j))) d"
  obtain g sid where "fst ?c = Inr (g, sid)" "g_GrantID g = gid"
    using assms(1,2,5) JStart by (auto simp: join_turn_def Let_def under_def split: prod.splits sum.splits)
  moreover obtain x where "LookupGrant False gid d = Inr x" "grant_Revoked x"
    using assms(4) by (auto simp: revoked_in_def)
  ultimately show ?thesis using checker.check_refuses_revoked [OF assms(3), of g] by blast
next
  case (JChecked g sid)
  with assms show ?thesis
    by (auto simp: join_turn_def Let_def join_refuse_def under_def split: prod.splits sum.splits)
next
  case (JOpening g sid w)
  with assms show ?thesis
    by (auto simp: join_turn_def Let_def join_refuse_def under_def split: prod.splits sum.splits option.splits)
qed (use assms in \<open>auto simp: join_turn_def Let_def under_def split: prod.splits\<close>)

lemma sys_step_under:
  assumes "sys_step edv errText True S S'" and "rc_Grants (rl_cfg (sy_relay S))" and "revoked_in (sy_db S) gid"
    and "k < length (sy_joins S')" and "under gid (sy_joins S' ! k)"
  shows "k < length (sy_joins S) \<and> under gid (sy_joins S ! k)"
  using assms(1)
proof (cases rule: sys_step.cases)
  case (sy_stream x a dev user)
  then show ?thesis using assms(4,5) by (auto simp: under_def nth_append split: if_splits)
next
  case (sy_join m env j r d)
  show ?thesis
  proof (cases "k = m")
    case True
    then have "under gid j" using assms(5) sy_join(1,2) by simp
    with join_turn_under [OF sy_join(5) _ assms(2,3)] sy_join(2,3) True show ?thesis by simp
  next
    case False
    then show ?thesis using assms(4,5) sy_join by simp
  qed
qed (use assms(4,5) in auto)

lemma sys_step_gone:
  assumes "sys_step edv errText reliable S S'" and "gone S p"
    and "ref_ok (sy_relay S) (pr_operator p)" and "ref_ok (sy_relay S) (pr_agent p)"
  shows "gone S' p"
  using assms(1)
proof (cases rule: sys_step.cases)
  case (sy_reset ps q qs)
  then show ?thesis
    using assms(2-) reset_pair_resets [of "sy_relay S" p ReasonGrantRevoked]
    by (cases "p = q") (auto simp: gone_def intro: kept_reset [OF kept_reset_pair])
qed (use gone_kept [of S S' p] sys_step_keeps [OF assms(1)] assms(2) in auto)

text \<open>What holds of every later state, once the register was swept for a revoked grant.\<close>

lemma after_sweep:
  assumes "(sys_step edv errText True)\<^sup>*\<^sup>* S S'" and "db_ok (sy_db S)" and "revoked_in (sy_db S) gid"
    and "rc_Grants (rl_cfg (sy_relay S))"
  shows "kept (sy_relay S) (sy_relay S') \<and> db_ok (sy_db S') \<and> revoked_in (sy_db S') gid \<and>
    rc_Grants (rl_cfg (sy_relay S')) \<and>
    (\<forall>k<length (sy_joins S'). under gid (sy_joins S' ! k) \<longrightarrow> k < length (sy_joins S) \<and> under gid (sy_joins S ! k)) \<and>
    (\<forall>p. gone S p \<longrightarrow> ref_ok (sy_relay S) (pr_operator p) \<longrightarrow> ref_ok (sy_relay S) (pr_agent p) \<longrightarrow> gone S' p)"
  using assms(1)
proof (induction rule: rtranclp_induct)
  case base
  then show ?case using assms by auto
next
  case (step S1 S2)
  note ih = step.IH and k = sys_step_keeps [OF step.hyps(2)]
  obtain cs where cs: "sy_db S2 = run cs (sy_db S1)" using k by blast
  have "db_ok (sy_db S2)" "revoked_in (sy_db S2) gid" using cs ih run_ok revoked_run by auto
  moreover have "\<forall>k<length (sy_joins S2). under gid (sy_joins S2 ! k) \<longrightarrow> k < length (sy_joins S) \<and> under gid (sy_joins S ! k)"
    using sys_step_under [OF step.hyps(2)] ih by blast
  moreover have "gone S2 p" if "gone S p" "ref_ok (sy_relay S) (pr_operator p)" "ref_ok (sy_relay S) (pr_agent p)" for p
    using sys_step_gone [OF step.hyps(2)] ih that kept_ref by blast
  ultimately show ?case using k ih kept_trans by metis
qed

lemma sys_reach:
  assumes "(sys_step edv errText reliable)\<^sup>*\<^sup>* (sys_init r0 d0) S" and "db_ok d0"
  shows "sys_inv S \<and> db_ok (sy_db S) \<and> rl_cfg (sy_relay S) = rl_cfg r0"
  using assms(1)
proof (induction rule: rtranclp_induct)
  case base
  show ?case using sys_init_inv [of r0 d0] assms(2) by (simp add: sys_init_def)
next
  case (step S1 S2)
  then show ?case using sys_step_inv [OF step.hyps(2)] sys_step_keeps [OF step.hyps(2)] run_ok by auto
qed

lemma join_turn_starts: "jn_phase j = JStart \<Longrightarrow> \<exists>j' r' d'. join_turn edv errText check env j r d = Some (j', r', d')"
  by (cases "join_check edv (check (je_fails env)) (je_aud env) (rl_cfg r) (je_now env) (jn_device j) (jn_user j)
      (st_openPayload (s_objs (rl_sessions r ! fst (jn_op j)) ! snd (jn_op j))) d")
    (auto simp: join_turn_def Let_def split: sum.split)

lemma TerminateGrants_steps:
  assumes "sy_doomed S = []"
  shows "(sys_step edv errText reliable)\<^sup>*\<^sup>* S (S\<lparr>sy_relay := TerminateGrants ids (sy_relay S)\<rparr>)"
proof -
  obtain doomed r where c: "collect_grants ids (sy_relay S) = (doomed, r)" by force
  have resets: "(sys_step edv errText reliable)\<^sup>*\<^sup>* (S\<lparr>sy_relay := r, sy_doomed := ps\<rparr>)
      (S\<lparr>sy_relay := fold (reset_pair ReasonGrantRevoked) ps r, sy_doomed := []\<rparr>)" for ps r
  proof (induction ps arbitrary: r)
    case (Cons p ps)
    have "sys_step edv errText reliable (S\<lparr>sy_relay := r, sy_doomed := p # ps\<rparr>)
        (S\<lparr>sy_relay := reset_pair ReasonGrantRevoked p r, sy_doomed := ps\<rparr>)"
      using sy_reset [of "S\<lparr>sy_relay := r, sy_doomed := p # ps\<rparr>" "[]" p ps edv errText reliable] by simp
    with Cons show ?case by (simp add: converse_rtranclp_into_rtranclp)
  qed simp
  have "sys_step edv errText reliable S (S\<lparr>sy_relay := r, sy_doomed := doomed\<rparr>)"
    using sy_collect [OF c] assms by simp
  moreover have "S\<lparr>sy_relay := x, sy_doomed := []\<rparr> = S\<lparr>sy_relay := x\<rparr>" for x
    using assms by simp
  ultimately show ?thesis
    using resets [of doomed r] by (simp add: TerminateGrants_def c converse_rtranclp_into_rtranclp)
qed

lemma run_steps: "(sys_step edv errText reliable)\<^sup>*\<^sup>* S (S\<lparr>sy_db := run cs (sy_db S)\<rparr>)"
proof (induction cs arbitrary: S)
  case (Cons c cs)
  have "sys_step edv errText reliable S (S\<lparr>sy_db := exec c (sy_db S)\<rparr>)" by (rule sy_store)
  with Cons [of "S\<lparr>sy_db := exec c (sy_db S)\<rparr>"] show ?case by (simp add: converse_rtranclp_into_rtranclp)
qed simp

lemma TerminateGrants_sweeps: "gid \<in> set ids \<Longrightarrow> streams_of gid (rl_live (TerminateGrants ids r)) = []"
proof -
  assume gid: "gid \<in> set ids"
  obtain ps r1 where c: "collect_grants ids r = (ps, r1)" by force
  have "rl_live (fold (reset_pair reason) ps r1) = rl_live r1" for reason
    by (induction ps arbitrary: r1) simp_all
  with collect_grants_keeps(4) [OF c, of gid] gid c show ?thesis by (simp add: TerminateGrants_def)
qed

lemma TerminateGrants_Nil: "TerminateGrants [] r = r"
  by (simp add: TerminateGrants_def collect_grants_def)

text \<open>The gap is real: a goroutine that has opened its agent's stream but not yet entered it in the
  register goes on after the grant was revoked and the register swept, and its streams run.\<close>

lemma revocation_window:
  assumes k: "k < length (sy_joins S)" and p: "jn_phase (sy_joins S ! k) = JOpened g sid a"
    and db: "db_ok (sy_db S)" "revoked_in (sy_db S) (g_GrantID g)"
    and e: "streams_of (g_GrantID g) (rl_live (sy_relay S)) = []" "sy_doomed S = []"
    and n: "unat (ls_nextID (rl_live (sy_relay S))) + 1 < 2 ^ 64"
    and u: "\<not> is_reset (sy_relay S) (jn_op (sy_joins S ! k))"
  shows "\<exists>r S' rel t. collect_grants [g_GrantID g] (sy_relay S) = ([], r) \<and>
    sys_step edv errText True (S\<lparr>sy_relay := r\<rparr>) S' \<and> revoked_in (sy_db S') (g_GrantID g) \<and>
    jn_phase (sy_joins S' ! k) = JJoined g a rel t \<and> sy_doomed S' = [] \<and>
    \<not> is_reset (sy_relay S') (jn_op (sy_joins S' ! k))"
proof -
  obtain r where c: "collect_grants [g_GrantID g] (sy_relay S) = ([], r)"
    using e(1) by (simp add: collect_grants_def)
  have same: "rl_sessions r = rl_sessions (sy_relay S)" "ls_nextID (rl_live r) = ls_nextID (rl_live (sy_relay S))"
    using c by (auto simp: collect_grants_def split: prod.splits)
  let ?env = "\<lparr>je_now = 0, je_aud = \<lparr>rec_store = False, rec_fails = \<lambda>_. False, rec_now = 0\<rparr>, je_fails = False,
    je_branch = OnValue, je_ctx = False, je_stats = (0, 0), je_failed = False\<rparr>"
  obtain rel l where add: "live_Add (g_GrantID g) (jn_op (sy_joins S ! k)) (jn_agent (sy_joins S ! k), a) (rl_live r) = (rel, l)"
    by force
  let ?j = "(sy_joins S ! k)\<lparr>jn_phase := JJoined g a rel 0\<rparr>"
  have t: "join_turn edv errText CheckGrant ?env (sy_joins S ! k) r (sy_db S) = Some (?j, r\<lparr>rl_live := l\<rparr>, sy_db S)"
    by (simp add: join_turn_def p add StreamOpened_def Record_def)
  let ?S = "S\<lparr>sy_joins := (sy_joins S)[k := ?j], sy_relay := r\<lparr>rl_live := l\<rparr>, sy_db := sy_db S\<rparr>"
  have "sys_step edv errText True (S\<lparr>sy_relay := r\<rparr>) ?S"
    using sy_join [of k "S\<lparr>sy_relay := r\<rparr>" True ?env edv errText ?j "r\<lparr>rl_live := l\<rparr>" "sy_db S"] k t n same by simp
  moreover have "\<not> is_reset (sy_relay ?S) (jn_op ?j)" using u same by (simp add: is_reset_def ref_ok_def)
  ultimately show ?thesis using c k db e(2) by (intro exI [of _ r] exI [of _ ?S] exI [of _ rel] exI [of _ 0]) simp
qed

section \<open>Properties\<close>



definition demo_op_session :: session where
  "demo_op_session = (newSession 0 demo_conn False demo_ack)
     \<lparr>s_objs := [(newStream 1 8)\<lparr>st_openPayload := SignedGrant_Encode demo_signed\<rparr>], s_streams := [(1, 0)]\<rparr>"

definition demo_relay :: "u8 relay" where
  "demo_relay = \<lparr>rl_cfg = \<lparr>rc_TLS = True, rc_Verify = True, rc_GrantKey = Some 5, rc_Grants = True, rc_Audit = True,
       rc_MaxStreams = 16, rc_KeepAlive = 0, rc_IdleTimeout = 0\<rparr>,
     rl_registry = [(''d'', 1)], rl_live = NewLiveStreams, rl_nextSession = 2, rl_ln = True, rl_closed = False,
     rl_sessions = [demo_op_session, newSession 0 demo_conn False demo_ack]\<rparr>"

definition demo_revoked :: db where
  "demo_revoked = run [CRecordGrant (\<lambda>_. False) 5 (demo_record\<lparr>gr_GrantID := ''g''\<rparr>) demo_event,
     CRevokeGrant (\<lambda>_. False) 9 ''g'' ''leaked'' demo_event] empty_db"

lemma demo_revoked_ok: "db_ok demo_revoked" "revoked_in demo_revoked ''g''"
proof -
  show "db_ok demo_revoked" unfolding demo_revoked_def by (rule run_ok [OF db_ok_empty])
  have "revoked_in (exec (CRevokeGrant (\<lambda>_. False) 9 ''g'' ''leaked'' demo_event)
      (exec (CRecordGrant (\<lambda>_. False) 5 (demo_record\<lparr>gr_GrantID := ''g''\<rparr>) demo_event) empty_db)) ''g''"
    by (simp add: RecordGrant_def RevokeGrant_def demo_record_def demo_event_def no_event_def empty_db_def appendAudit_def
        grant_row_of_def grant_of_def foreign_key_ok_def IsZero_def zero_time_def maxSeq_def commit_def revoked_in_def
        LookupGrant_def grant_Revoked_def update_where_def fromNullUnix_def fromUnix_def nullUnix_def Let_def)
  then show "revoked_in demo_revoked ''g''" by (simp add: demo_revoked_def)
qed


end
