(* ===== verification/Net_Addr.thy ===== *)
theory Net_Addr
  imports Sar_Prelude
begin

text \<open>
  What the agent and the operator take from Go's \<open>net\<close> package to judge an address:
  \<open>SplitHostPort\<close>, \<open>ParseIP\<close> (which accepts literal addresses only, in the forms of
  \<open>netip.ParseAddr\<close>, and no zone) and \<open>IP.IsLoopback\<close>. An address is its sixteen bytes.
\<close>

section \<open>Host and port\<close>

text \<open>The position of the first and of the last occurrence of a character.\<close>

fun IndexByte :: "char \<Rightarrow> string \<Rightarrow> nat option" where
  "IndexByte c [] = None"
| "IndexByte c (x # s) = (if x = c then Some 0 else map_option Suc (IndexByte c s))"

fun LastIndexByte :: "char \<Rightarrow> string \<Rightarrow> nat option" where
  "LastIndexByte c [] = None"
| "LastIndexByte c (x # s) =
    (case LastIndexByte c s of Some i \<Rightarrow> Some (Suc i) | None \<Rightarrow> if x = c then Some 0 else None)"

datatype addr_err = MissingPort | TooManyColons | MissingBracket | UnexpectedBracket

definition SplitHostPort :: "string \<Rightarrow> addr_err + string \<times> string" where
  "SplitHostPort hostport =
    (case LastIndexByte CHR '':'' hostport of
       None \<Rightarrow> Inl MissingPort
     | Some i \<Rightarrow>
       let finish = (\<lambda>host j k.
             if CHR ''['' \<in> set (drop j hostport) then Inl UnexpectedBracket
             else if CHR '']'' \<in> set (drop k hostport) then Inl UnexpectedBracket
             else Inr (host, drop (i + 1) hostport)) in
       if hostport ! 0 = CHR ''['' then
         (case IndexByte CHR '']'' hostport of
            None \<Rightarrow> Inl MissingBracket
          | Some e \<Rightarrow>
            if e + 1 = length hostport then Inl MissingPort
            else if e + 1 = i then finish (drop 1 (take e hostport)) 1 (e + 1)
            else if hostport ! (e + 1) = CHR '':'' then Inl TooManyColons
            else Inl MissingPort)
       else
         let host = take i hostport in
         if CHR '':'' \<in> set host then Inl TooManyColons else finish host 0 0)"

section \<open>Literal addresses\<close>

type_synonym ip = "byte list"

definition dec_val :: "char \<Rightarrow> nat option" where
  "dec_val c = (let n = (of_char c :: nat) in if 48 \<le> n \<and> n \<le> 57 then Some (n - 48) else None)"

definition hex_val :: "char \<Rightarrow> nat option" where
  "hex_val c =
    (let n = (of_char c :: nat) in
     if 48 \<le> n \<and> n \<le> 57 then Some (n - 48)
     else if 97 \<le> n \<and> n \<le> 102 then Some (n - 87)
     else if 65 \<le> n \<and> n \<le> 70 then Some (n - 55) else None)"

text \<open>The loop of \<open>parseIPv4Fields\<close>: the fields so far, the value and the number of digits of the
  current one.\<close>

fun ipv4_loop :: "string \<Rightarrow> nat list \<Rightarrow> nat \<Rightarrow> nat \<Rightarrow> nat list option" where
  "ipv4_loop [] fields val digLen = (if length fields < 3 then None else Some (fields @ [val]))"
| "ipv4_loop (c # s) fields val digLen =
    (case dec_val c of
       Some d \<Rightarrow>
        if digLen = 1 \<and> val = 0 then None
        else if val * 10 + d > 255 then None
        else ipv4_loop s fields (val * 10 + d) (digLen + 1)
     | None \<Rightarrow>
        if c = CHR ''.'' then
          if digLen = 0 \<or> s = [] then None
          else if length fields = 3 then None
          else ipv4_loop s (fields @ [val]) 0 0
        else None)"

definition parseIPv4Fields :: "string \<Rightarrow> byte list option" where
  "parseIPv4Fields s = map_option (map word_of_nat) (ipv4_loop s [] 0 0)"

text \<open>The digits of one group and what follows them: \<^const>\<open>None\<close> on more than four digits.\<close>

fun hex_group :: "string \<Rightarrow> nat \<Rightarrow> nat \<Rightarrow> (nat \<times> nat \<times> string) option" where
  "hex_group [] off acc = Some (off, acc, [])"
| "hex_group (c # s) off acc =
    (case hex_val c of
       None \<Rightarrow> Some (off, acc, c # s)
     | Some d \<Rightarrow> if off > 3 then None else hex_group s (off + 1) (acc * 16 + d))"

text \<open>The main loop of \<open>parseIPv6\<close>: the bytes so far, the position of the ellipsis, and the rest of
  the string. A result is the bytes, the ellipsis and whether the whole string was used.\<close>

function ipv6_loop :: "string \<Rightarrow> byte list \<Rightarrow> nat option \<Rightarrow> (byte list \<times> nat option \<times> string) option" where
  "ipv6_loop s bs el =
    (if length bs \<ge> 16 then Some (bs, el, s)
     else case hex_group s 0 0 of
       None \<Rightarrow> None
     | Some (off, acc, r) \<Rightarrow>
       if off = 0 then None
       else if r \<noteq> [] \<and> hd r = CHR ''.'' then
         (if el = None \<and> length bs \<noteq> 12 then None
          else if length bs + 4 > 16 then None
          else case parseIPv4Fields s of
            None \<Rightarrow> None
          | Some v4 \<Rightarrow> Some (bs @ v4, el, []))
       else
         let bs = bs @ [word_of_nat (acc div 256), word_of_nat acc] in
         (case r of
            [] \<Rightarrow> Some (bs, el, [])
          | c # r \<Rightarrow>
            if c \<noteq> CHR '':'' then None
            else
              (case r of
                 [] \<Rightarrow> None
               | c2 # r2 \<Rightarrow>
                 if c2 = CHR '':'' then
                   (if el \<noteq> None then None
                    else if r2 = [] then Some (bs, Some (length bs), [])
                    else ipv6_loop r2 bs (Some (length bs)))
                 else ipv6_loop r bs el)))"
  by pat_completeness auto
termination by (relation "measure (\<lambda>(s, bs, el). 16 - length bs)") auto

definition parseIPv6 :: "string \<Rightarrow> ip option" where
  "parseIPv6 s =
    (let el = (if take 2 s = ''::'' then Some 0 else None);
         s = (if el = None then s else drop 2 s) in
     if el \<noteq> None \<and> s = [] then Some (replicate 16 0)
     else case ipv6_loop s [] el of
       None \<Rightarrow> None
     | Some (bs, el, r) \<Rightarrow>
       if r \<noteq> [] then None
       else if length bs < 16 then
         (case el of
            None \<Rightarrow> None
          | Some e \<Rightarrow> Some (take e bs @ replicate (16 - length bs) 0 @ drop e bs))
       else if el \<noteq> None then None
       else Some bs)"

definition v4_prefix :: "byte list" where
  "v4_prefix = replicate 10 0 @ [255, 255]"

text \<open>A percent sign starts a zone: an address with one is refused, so the rest of it is not looked
  at.\<close>

fun ParseIP_at :: "string \<Rightarrow> string \<Rightarrow> ip option" where
  "ParseIP_at s [] = None"
| "ParseIP_at s (c # r) =
    (if c = CHR ''.'' then map_option (\<lambda>v4. v4_prefix @ v4) (parseIPv4Fields s)
     else if c = CHR '':'' then (if CHR ''%'' \<in> set s then None else parseIPv6 s)
     else if c = CHR ''%'' then None
     else ParseIP_at s r)"

definition ParseIP :: "string \<Rightarrow> ip option" where "ParseIP s = ParseIP_at s s"

definition IsLoopback :: "ip \<Rightarrow> bool" where
  "IsLoopback i = (if take 12 i = v4_prefix then i ! 12 = 127 else i = replicate 15 0 @ [1])"

section \<open>Lemmas\<close>

lemma ipv4_loop_length: "ipv4_loop s fields v n = Some r \<Longrightarrow> length fields \<le> 3 \<Longrightarrow> length r = 4"
  by (induction s fields v n rule: ipv4_loop.induct) (auto split: option.splits if_splits)

lemma SplitHostPort_examples:
  "SplitHostPort ''127.0.0.1:80'' = Inr (''127.0.0.1'', ''80'')" "SplitHostPort ''[::1]:443'' = Inr (''::1'', ''443'')"
  "SplitHostPort '':18080'' = Inr ('''', ''18080'')" "SplitHostPort ''localhost'' = Inl MissingPort"
  by (simp_all add: SplitHostPort_def Let_def)

end
