(* ===== verification/Base64_Std.thy ===== *)
theory Base64_Std
  imports Encoding
begin

text \<open>
  \<open>base64.StdEncoding\<close>, in which grants and the grant key travel: the standard alphabet with
  padding. Decoding skips line breaks and wants the padding exactly; the unused bits of the last
  digit are not checked.
\<close>

definition std_char :: "nat \<Rightarrow> char" where
  "std_char n = (if n = 62 then CHR ''+'' else if n = 63 then CHR ''/'' else b64_char n)"

definition std_val :: "char \<Rightarrow> nat option" where
  "std_val c =
    (if c = CHR ''+'' then Some 62 else if c = CHR ''/'' then Some 63
     else if c = CHR ''-'' \<or> c = CHR ''_'' then None else b64_val c)"

definition std_pad :: "nat \<Rightarrow> string" where
  "std_pad n = (if n mod 3 = 1 then ''=='' else if n mod 3 = 2 then ''='' else '''')"

definition StdEncode :: "byte list \<Rightarrow> string" where
  "StdEncode b = map std_char (sextets b) @ std_pad (length b)"

definition StdDecode :: "string \<Rightarrow> byte list option" where
  "StdDecode s =
    (let s = filter (\<lambda>c. c \<noteq> CHR 0x0A \<and> c \<noteq> CHR 0x0D) s;
         body = rev (dropWhile (\<lambda>c. c = CHR ''='') (rev s));
         pad = length s - length body in
     if length s mod 4 \<noteq> 0 \<or> pad > 2 then None
     else case all_some (map std_val body) of
       None \<Rightarrow> None
     | Some xs \<Rightarrow> unsextets xs)"

lemma std_val_char: "n < 64 \<Longrightarrow> std_val (std_char n) = Some n"
proof -
  assume n: "n < 64"
  have v: "b64_val CHR ''+'' = None" "b64_val CHR ''/'' = None" "b64_val CHR ''-'' = Some 62" "b64_val CHR ''_'' = Some 63"
    by (simp_all add: b64_val_def)
  show ?thesis
  proof (cases "n = 62 \<or> n = 63")
    case False
    with v b64_val_char [OF n] have "b64_char n \<notin> {CHR ''+'', CHR ''/'', CHR ''-'', CHR ''_''}" by force
    with False b64_val_char [OF n] show ?thesis by (simp add: std_val_def std_char_def)
  qed (auto simp: std_val_def std_char_def)
qed

lemma std_char_plain: "n < 64 \<Longrightarrow> std_char n \<noteq> CHR 0x0A \<and> std_char n \<noteq> CHR 0x0D \<and> std_char n \<noteq> CHR ''=''"
proof -
  assume "n < 64"
  moreover have "std_val CHR 0x0A = None" "std_val CHR 0x0D = None" "std_val CHR ''='' = None"
    by (simp_all add: std_val_def b64_val_def)
  ultimately show ?thesis using std_val_char [of n] by force
qed

lemma length_StdEncode: "length (StdEncode b) mod 4 = 0"
proof (induction b rule: sextets.induct)
  case (4 a b c r)
  have "std_pad (length (a # b # c # r)) = std_pad (length r)" by (simp add: std_pad_def)
  with 4 show ?case by (simp add: StdEncode_def)
qed (simp_all add: StdEncode_def std_pad_def)

lemma StdDecode_StdEncode [simp]: "StdDecode (StdEncode b) = Some b"
proof -
  let ?e = "map std_char (sextets b)"
  have pad: "set (std_pad (length b)) \<subseteq> {CHR ''=''}" "length (std_pad (length b)) \<le> 2" by (auto simp: std_pad_def)
  have plain: "c \<noteq> CHR 0x0A \<and> c \<noteq> CHR 0x0D \<and> c \<noteq> CHR ''=''" if "c \<in> set ?e" for c
    using that by (auto dest!: sextets_bound std_char_plain)
  have f: "filter (\<lambda>c. c \<noteq> CHR 0x0A \<and> c \<noteq> CHR 0x0D) (StdEncode b) = StdEncode b"
    using plain pad(1) by (auto simp: StdEncode_def filter_id_conv)
  have "dropWhile (\<lambda>c. c = CHR ''='') (rev (StdEncode b)) = dropWhile (\<lambda>c. c = CHR ''='') (rev ?e)"
    unfolding StdEncode_def rev_append using pad(1) by (intro dropWhile_append2) auto
  also have "\<dots> = rev ?e" using plain by (cases ?e rule: rev_cases) (auto simp: dropWhile_eq_self_iff)
  finally have d: "rev (dropWhile (\<lambda>c. c = CHR ''='') (rev (StdEncode b))) = ?e" by simp
  have v: "map std_val ?e = map Some (sextets b)" by (simp add: std_val_char sextets_bound)
  have "length (StdEncode b) - length ?e \<le> 2" using pad(2) by (simp add: StdEncode_def)
  then show ?thesis
    unfolding StdDecode_def Let_def f d v all_some_map_Some
    using length_StdEncode [of b] by (simp add: unsextets_sextets)
qed

end
