(* ===== verification/Peer_Identity.thy ===== *)
theory Peer_Identity
  imports Enrollment Net_Addr Base64_Std
begin

text \<open>
  A peer's own credentials on disk, \<open>internal/identity\<close> and \<open>internal/keystore\<close>: loading them,
  enrolling, and renewing the certificate. The state directory is a map from file names to
  contents; a write that fails leaves what the environment says. TLS, X.509, JSON and the HTTP
  exchange are arguments: a reply is the status and, when it decodes, the body.
\<close>

section \<open>Files\<close>

type_synonym dir = "string \<rightharpoonup> byte list"

text \<open>How a write ends: it succeeds, or it fails and the file holds what it held before
  (\<^const>\<open>None\<close>) or something else.\<close>

datatype written = WOk | WFail "byte list option"

definition WriteFile :: "written \<Rightarrow> string \<Rightarrow> byte list \<Rightarrow> dir \<Rightarrow> bool \<times> dir" where
  "WriteFile w path b fs =
    (case w of
       WOk \<Rightarrow> (True, fs(path \<mapsto> b))
     | WFail None \<Rightarrow> (False, fs)
     | WFail (Some junk) \<Rightarrow> (False, fs(path \<mapsto> junk)))"

section \<open>The keystore\<close>

definition ProtectionFilePermissions :: string where "ProtectionFilePermissions = ''file-permissions''"

text \<open>How the platform seals key material, and opens it.\<close>

record keystore =
  ks_seal :: "byte list \<Rightarrow> (byte list \<times> string) option"
  ks_open :: "byte list \<Rightarrow> (byte list \<times> string) option"

definition other_keystore :: keystore where
  "other_keystore = \<lparr>ks_seal = \<lambda>m. Some (m, ProtectionFilePermissions), ks_open = \<lambda>m. Some (m, ProtectionFilePermissions)\<rparr>"

datatype peer_err =
    ErrPeerNotEnrolled | KeystoreErr | PeerReadErr | KeyPairErr | LeafErr | PeerCA ca_err | PoolErr
  | KeyGenErr | CSRErr | VerifyServerErr | RequestErr | DecodeErr | RefusedErr string | MissingCert
  | MarshalErr | MkdirErr | WriteFileErr | KeyMismatch

text \<open>The environment of one call: the failures of its directory operations, in order.\<close>

record disk_env =
  de_mkdir :: "nat \<Rightarrow> bool"  \<comment> \<open>creating the directory fails\<close>
  de_tmp :: written
  de_rename :: bool  \<comment> \<open>the rename fails\<close>
  de_write :: "nat \<Rightarrow> written"

definition ks_Save :: "keystore \<Rightarrow> disk_env \<Rightarrow> string \<Rightarrow> byte list \<Rightarrow> dir \<Rightarrow> (peer_err + string) \<times> dir" where
  "ks_Save ks env path material fs =
    (if de_mkdir env 1 then (Inl KeystoreErr, fs)
     else case ks_seal ks material of
       None \<Rightarrow> (Inl KeystoreErr, fs)
     | Some (sealed, protection) \<Rightarrow>
       let tmp = path @ ''.tmp'' in
       (case WriteFile (de_tmp env) tmp sealed fs of
          (False, fs) \<Rightarrow> (Inl KeystoreErr, fs)
        | (True, fs) \<Rightarrow>
          if de_rename env then (Inl KeystoreErr, fs(tmp := None))
          else (Inr protection, (fs(tmp := None))(path := fs tmp))))"

datatype ks_read = KsNotFound | KsErr | KsGot "byte list" string

text \<open>\<open>unreadable\<close> says that reading a file that exists fails.\<close>

definition ks_Load :: "keystore \<Rightarrow> bool \<Rightarrow> string \<Rightarrow> dir \<Rightarrow> ks_read" where
  "ks_Load ks unreadable path fs =
    (case fs path of
       None \<Rightarrow> KsNotFound
     | Some sealed \<Rightarrow>
       if unreadable then KsErr
       else case ks_open ks sealed of None \<Rightarrow> KsErr | Some (m, p) \<Rightarrow> KsGot m p)"

section \<open>The identity\<close>

definition keyFile :: string where "keyFile = ''identity.key''"
definition certFile :: string where "certFile = ''identity.crt''"
definition caFile :: string where "caFile = ''ca.crt''"
definition metaFile :: string where "metaFile = ''identity.json''"
definition grantKeyFile :: string where "grantKeyFile = ''grant-signing.pub''"

lemmas file_defs = keyFile_def certFile_def caFile_def metaFile_def grantKeyFile_def

record ('tls, 'pool) peer_identity =
  pi_Certificate :: 'tls
  pi_CAPool :: 'pool
  pi_ID :: identity
  pi_ServerName :: string
  pi_Protection :: string
  pi_NotAfter :: time
  pi_GrantKey :: "byte list option"

definition PublicKeySize :: nat where "PublicKeySize = 32"

text \<open>What the peer takes from the libraries.\<close>

record ('pk, 'tls, 'pool) peer_lib =
  pb_keypair :: "byte list \<Rightarrow> byte list \<Rightarrow> 'tls option"  \<comment> \<open>\<open>tls.X509KeyPair\<close>: certificate, key\<close>
  pb_pem :: "byte list \<Rightarrow> (string \<times> byte list) option"
  pb_parse :: "byte list \<Rightarrow> 'pk cert option"
  pb_pool :: "byte list \<Rightarrow> 'pool option"
  pb_meta_read :: "byte list \<Rightarrow> string option"
  pb_meta_write :: "string \<Rightarrow> byte list"
  pb_verify :: "'pk cert \<Rightarrow> 'pk cert \<Rightarrow> string \<Rightarrow> bool"  \<comment> \<open>root, leaf, name: a server certificate\<close>

definition leafOf :: "('pk, 'tls, 'pool) peer_lib \<Rightarrow> byte list \<Rightarrow> 'pk cert option" where
  "leafOf lib certPEM =
    (case pb_pem lib certPEM of
       None \<Rightarrow> None
     | Some (ty, der) \<Rightarrow> if ty \<noteq> ''CERTIFICATE'' then None else pb_parse lib der)"

definition peer_Load ::
  "('pk, 'tls, 'pool) peer_lib \<Rightarrow> keystore \<Rightarrow> (string \<Rightarrow> bool) \<Rightarrow> dir \<Rightarrow> peer_err + ('tls, 'pool) peer_identity" where
  "peer_Load lib ks unreadable fs =
    (case ks_Load ks (unreadable keyFile) keyFile fs of
       KsNotFound \<Rightarrow> Inl ErrPeerNotEnrolled
     | KsErr \<Rightarrow> Inl KeystoreErr
     | KsGot keyPEM protection \<Rightarrow>
       (case fs certFile of
          None \<Rightarrow> Inl ErrPeerNotEnrolled
        | Some certPEM \<Rightarrow>
          if unreadable certFile then Inl PeerReadErr
          else case fs caFile of
            None \<Rightarrow> Inl ErrPeerNotEnrolled
          | Some caPEM \<Rightarrow>
            if unreadable caFile then Inl PeerReadErr
            else case pb_keypair lib certPEM keyPEM of
              None \<Rightarrow> Inl KeyPairErr
            | Some c \<Rightarrow>
              (case leafOf lib certPEM of
                 None \<Rightarrow> Inl LeafErr
               | Some leaf \<Rightarrow>
                 (case IdentityOf leaf of
                    Inl e \<Rightarrow> Inl (PeerCA e)
                  | Inr i \<Rightarrow>
                    (case pb_pool lib caPEM of
                       None \<Rightarrow> Inl PoolErr
                     | Some pool \<Rightarrow>
                       let name = (case fs metaFile of
                             Some b \<Rightarrow> if unreadable metaFile then '''' else (case pb_meta_read lib b of Some n \<Rightarrow> n | None \<Rightarrow> '''')
                           | None \<Rightarrow> '''');
                           grantKey = (case fs grantKeyFile of
                             Some b \<Rightarrow>
                               if unreadable grantKeyFile then None
                               else (case StdDecode (TrimSpace (string_of b)) of
                                       Some raw \<Rightarrow> if length raw = PublicKeySize then Some raw else None
                                     | None \<Rightarrow> None)
                           | None \<Rightarrow> None)
                       in Inr \<lparr>pi_Certificate = c, pi_CAPool = pool, pi_ID = i, pi_ServerName = name,
                            pi_Protection = protection, pi_NotAfter = c_NotAfter leaf, pi_GrantKey = grantKey\<rparr>)))))"

section \<open>Talking to the control plane\<close>

record enroll_reply =
  er_Certificate :: string
  er_CA :: string
  er_GrantKey :: string
  er_Error :: string

definition StatusOK :: nat where "StatusOK = 200"

text \<open>A reply: \<^const>\<open>None\<close> when the request fails, else the status and the decoded body if it decodes.\<close>

type_synonym reply = "(nat \<times> enroll_reply option) option"

definition hostOf :: "string \<Rightarrow> string" where
  "hostOf addr = (case SplitHostPort addr of Inl e \<Rightarrow> addr | Inr (host, port) \<Rightarrow> host)"

definition postRenew :: "reply \<Rightarrow> peer_err + enroll_reply" where
  "postRenew r =
    (case r of
       None \<Rightarrow> Inl RequestErr
     | Some (status, body) \<Rightarrow>
       if body = None \<and> status = StatusOK then Inl DecodeErr
       else
         let out = (case body of Some out \<Rightarrow> out | None \<Rightarrow> \<lparr>er_Certificate = '''', er_CA = '''', er_GrantKey = '''', er_Error = ''''\<rparr>) in
         if status \<noteq> StatusOK then Inl (RefusedErr (er_Error out))
         else if er_Certificate out = '''' then Inl MissingCert
         else Inr out)"

fun parse_all :: "('d \<Rightarrow> 'c option) \<Rightarrow> 'd list \<Rightarrow> 'c list option" where
  "parse_all p [] = Some []"
| "parse_all p (raw # rs) =
    (case p raw of
       None \<Rightarrow> None
     | Some c \<Rightarrow> (case parse_all p rs of None \<Rightarrow> None | Some cs \<Rightarrow> Some (c # cs)))"

definition verifyAgainstFingerprint ::
  "('pk, 'tls, 'pool) peer_lib \<Rightarrow> sha \<Rightarrow> ('pk cert \<Rightarrow> byte list) \<Rightarrow> byte list list \<Rightarrow> code \<Rightarrow> bool" where
  "verifyAgainstFingerprint lib sha256 der rawCerts c =
    (if rawCerts = [] then False
     else case parse_all (pb_parse lib) rawCerts of
       None \<Rightarrow> False
     | Some certs \<Rightarrow>
       (case find (\<lambda>x. c_IsCA x \<and> VerifyFingerprint sha256 der x (cd_CAFingerprint c)) certs of
          None \<Rightarrow> False
        | Some authority \<Rightarrow> pb_verify lib authority (hd certs) (cd_ServerName c)))"

text \<open>\<open>rawCerts\<close> is the chain the server presents; the request, and with it the token, is sent only
  when the callback accepts it.\<close>

definition postEnroll ::
  "('pk, 'tls, 'pool) peer_lib \<Rightarrow> sha \<Rightarrow> ('pk cert \<Rightarrow> byte list) \<Rightarrow> byte list list \<Rightarrow> reply \<Rightarrow> code \<Rightarrow> peer_err + enroll_reply" where
  "postEnroll lib sha256 der rawCerts r c =
    (if \<not> verifyAgainstFingerprint lib sha256 der rawCerts c then Inl VerifyServerErr
     else case r of
       None \<Rightarrow> Inl RequestErr
     | Some (status, None) \<Rightarrow> Inl DecodeErr
     | Some (status, Some out) \<Rightarrow>
       if status \<noteq> StatusOK then Inl (RefusedErr (er_Error out))
       else if er_Certificate out = '''' \<or> er_CA out = '''' then Inl MissingCert
       else Inr out)"

section \<open>Enrolling and renewing\<close>

text \<open>\<open>key\<close> is the outcome of generating a key: its certificate request and its PKCS 8 encoding in PEM,
  each of which may fail.\<close>

type_synonym new_key = "(byte list option \<times> byte list option) option"

definition peer_Enroll ::
  "('pk, 'tls, 'pool) peer_lib \<Rightarrow> keystore \<Rightarrow> (string \<Rightarrow> bool) \<Rightarrow> sha \<Rightarrow> ('pk cert \<Rightarrow> byte list) \<Rightarrow> disk_env \<Rightarrow> new_key \<Rightarrow>
     byte list list \<Rightarrow> reply \<Rightarrow> code \<Rightarrow> dir \<Rightarrow> (peer_err + ('tls, 'pool) peer_identity) \<times> dir" where
  "peer_Enroll lib ks unreadable sha256 der env key rawCerts r c fs =
    (case key of
       None \<Rightarrow> (Inl KeyGenErr, fs)
     | Some (None, _) \<Rightarrow> (Inl CSRErr, fs)
     | Some (Some csrPEM, keyPEM) \<Rightarrow>
       (case postEnroll lib sha256 der rawCerts r c of
          Inl e \<Rightarrow> (Inl e, fs)
        | Inr resp \<Rightarrow>
          (case keyPEM of
             None \<Rightarrow> (Inl MarshalErr, fs)
           | Some keyPEM \<Rightarrow>
             if de_mkdir env 0 then (Inl MkdirErr, fs)
             else case ks_Save ks env keyFile keyPEM fs of
               (Inl e, fs) \<Rightarrow> (Inl e, fs)
             | (Inr _, fs) \<Rightarrow>
               (case WriteFile (de_write env 0) certFile (bytes_of (er_Certificate resp)) fs of
                  (False, fs) \<Rightarrow> (Inl WriteFileErr, fs)
                | (True, fs) \<Rightarrow>
                  (case WriteFile (de_write env 1) caFile (bytes_of (er_CA resp)) fs of
                     (False, fs) \<Rightarrow> (Inl WriteFileErr, fs)
                   | (True, fs) \<Rightarrow>
                     (case WriteFile (de_write env 2) metaFile (pb_meta_write lib (cd_ServerName c)) fs of
                        (False, fs) \<Rightarrow> (Inl WriteFileErr, fs)
                      | (True, fs) \<Rightarrow>
                        if er_GrantKey resp \<noteq> '''' then
                          (case WriteFile (de_write env 3) grantKeyFile (bytes_of (er_GrantKey resp)) fs of
                             (False, fs) \<Rightarrow> (Inl WriteFileErr, fs)
                           | (True, fs) \<Rightarrow> (peer_Load lib ks unreadable fs, fs))
                        else (peer_Load lib ks unreadable fs, fs)))))))"

definition peer_Renew ::
  "('pk, 'tls, 'pool) peer_lib \<Rightarrow> keystore \<Rightarrow> (string \<Rightarrow> bool) \<Rightarrow> disk_env \<Rightarrow> new_key \<Rightarrow> reply \<Rightarrow>
     ('tls, 'pool) peer_identity option \<Rightarrow> dir \<Rightarrow> (peer_err + ('tls, 'pool) peer_identity) \<times> dir" where
  "peer_Renew lib ks unreadable env key r current fs =
    (if current = None then (Inl ErrPeerNotEnrolled, fs)
     else case key of
       None \<Rightarrow> (Inl KeyGenErr, fs)
     | Some (None, _) \<Rightarrow> (Inl CSRErr, fs)
     | Some (Some csrPEM, keyPEM) \<Rightarrow>
       (case postRenew r of
          Inl e \<Rightarrow> (Inl e, fs)
        | Inr resp \<Rightarrow>
          (case keyPEM of
             None \<Rightarrow> (Inl MarshalErr, fs)
           | Some keyPEM \<Rightarrow>
             if pb_keypair lib (bytes_of (er_Certificate resp)) keyPEM = None then (Inl KeyMismatch, fs)
             else if de_mkdir env 0 then (Inl MkdirErr, fs)
             else case ks_Save ks env keyFile keyPEM fs of
               (Inl e, fs) \<Rightarrow> (Inl e, fs)
             | (Inr _, fs) \<Rightarrow>
               (case WriteFile (de_write env 0) certFile (bytes_of (er_Certificate resp)) fs of
                  (False, fs) \<Rightarrow> (Inl WriteFileErr, fs)
                | (True, fs) \<Rightarrow>
                  (case (if er_CA resp \<noteq> '''' then WriteFile (de_write env 1) caFile (bytes_of (er_CA resp)) fs else (True, fs)) of
                     (False, fs) \<Rightarrow> (Inl WriteFileErr, fs)
                   | (True, fs) \<Rightarrow>
                     (case (if er_GrantKey resp \<noteq> '''' then WriteFile (de_write env 2) grantKeyFile (bytes_of (er_GrantKey resp)) fs
                            else (True, fs)) of
                        (False, fs) \<Rightarrow> (Inl WriteFileErr, fs)
                      | (True, fs) \<Rightarrow> (peer_Load lib ks unreadable fs, fs)))))))"

definition RenewBefore :: duration where "RenewBefore = 10 * 24 * Hour"
definition RenewCheckInterval :: duration where "RenewCheckInterval = Hour"

definition DueForRenewal :: "('tls, 'pool) peer_identity \<Rightarrow> time \<Rightarrow> bool" where
  "DueForRenewal i now =
    (if IsZero (pi_NotAfter i) then False
     else if \<not> now < pi_NotAfter i then False
     else time_Sub (pi_NotAfter i) now < RenewBefore)"

definition peer_Expired :: "('tls, 'pool) peer_identity \<Rightarrow> time \<Rightarrow> bool" where
  "peer_Expired i now \<longleftrightarrow> \<not> IsZero (pi_NotAfter i) \<and> \<not> now < pi_NotAfter i"

definition RenewIfDue ::
  "('pk, 'tls, 'pool) peer_lib \<Rightarrow> keystore \<Rightarrow> (string \<Rightarrow> bool) \<Rightarrow> disk_env \<Rightarrow> new_key \<Rightarrow> reply \<Rightarrow> time \<Rightarrow>
     ('tls, 'pool) peer_identity option \<Rightarrow> string \<Rightarrow> dir \<Rightarrow>
     (('tls, 'pool) peer_identity option \<times> bool \<times> peer_err option) \<times> dir" where
  "RenewIfDue lib ks unreadable env key r now current controlAddr fs =
    (if current = None \<or> controlAddr = '''' \<or> \<not> DueForRenewal (the current) now then ((current, False, None), fs)
     else case peer_Renew lib ks unreadable env key r current fs of
       (Inl e, fs) \<Rightarrow> ((current, False, Some e), fs)
     | (Inr renewed, fs) \<Rightarrow> ((Some renewed, True, None), fs))"

section \<open>Lemmas\<close>

lemma WriteFile_other: "WriteFile w p b fs = (ok, fs') \<Longrightarrow> f \<noteq> p \<Longrightarrow> fs' f = fs f"
  by (auto simp: WriteFile_def split: written.splits option.splits)

lemma WriteFile_ok: "WriteFile w p b fs = (True, fs') \<Longrightarrow> fs' = fs(p \<mapsto> b)"
  by (auto simp: WriteFile_def split: written.splits option.splits)

lemma ks_Save_Inr:
  "ks_Save ks env path m fs = (Inr p, fs') \<Longrightarrow>
    \<exists>sealed. ks_seal ks m = Some (sealed, p) \<and> fs' = fs(path @ ''.tmp'' := None, path \<mapsto> sealed)"
  by (auto simp: ks_Save_def Let_def dest!: WriteFile_ok split: if_splits option.splits prod.splits bool.splits)

lemma ks_Save_Inl: "ks_Save ks env path m fs = (Inl e, fs') \<Longrightarrow> f \<noteq> path @ ''.tmp'' \<Longrightarrow> fs' f = fs f"
  by (auto simp: ks_Save_def Let_def dest: WriteFile_other split: if_splits option.splits prod.splits bool.splits)

lemma other_keystore_opens: "ks_seal other_keystore m = Some (s, p) \<Longrightarrow> ks_open other_keystore s = Some (m, p)"
  by (simp add: other_keystore_def)

text \<open>The part of a renewal that writes, once the key is installed.\<close>

lemma Renew_writes:
  assumes k: "ks_seal ks keyPEM = Some (sealed, p)" "ks_open ks sealed = Some (keyPEM, p)"
    and f: "fs1 keyFile = Some sealed" "fs1 metaFile = m"
    and w: "(case WriteFile (de_write env 0) certFile cert fs1 of
        (False, fs) \<Rightarrow> (Inl WriteFileErr, fs)
      | (True, fs) \<Rightarrow>
        (case (if ca \<noteq> '''' then WriteFile (de_write env 1) caFile (bytes_of ca) fs else (True, fs)) of
           (False, fs) \<Rightarrow> (Inl WriteFileErr, fs)
         | (True, fs) \<Rightarrow>
           (case (if gk \<noteq> '''' then WriteFile (de_write env 2) grantKeyFile (bytes_of gk) fs else (True, fs)) of
              (False, fs) \<Rightarrow> (Inl WriteFileErr, fs)
            | (True, fs) \<Rightarrow> (peer_Load lib ks unreadable fs, fs)))) = (res, fs')"
  shows "ks_Load ks False keyFile fs' = KsGot keyPEM p" and "fs' metaFile = m"
    and "res = Inl WriteFileErr \<or> res = peer_Load lib ks unreadable fs' \<and> fs' certFile = Some cert"
proof -
  have "fs' keyFile = Some sealed \<and> fs' metaFile = m \<and>
      (res = Inl WriteFileErr \<or> res = peer_Load lib ks unreadable fs' \<and> fs' certFile = Some cert)"
    using w f
    by (auto simp: file_defs WriteFile_def split: written.splits option.splits if_splits)
  with k show "ks_Load ks False keyFile fs' = KsGot keyPEM p" "fs' metaFile = m"
    "res = Inl WriteFileErr \<or> res = peer_Load lib ks unreadable fs' \<and> fs' certFile = Some cert"
    by (auto simp: ks_Load_def)
qed

section \<open>Properties\<close>


text \<open>The last case leaves a peer that cannot start again: the old key is gone, and with the old
  certificate in place the directory no longer loads.\<close>

lemma interrupted_renewal_unloadable:
  assumes "\<And>m s p. ks_seal ks m = Some (s, p) \<Longrightarrow> ks_open ks s = Some (m, p)"
    and "peer_Load lib ks (\<lambda>_. False) fs = Inr cur" and "fs certFile = Some old" and "pb_keypair lib old keyPEM = None"
    and "postRenew r = Inr out" and "pb_keypair lib (bytes_of (er_Certificate out)) keyPEM = Some tls"
    and "ks_seal ks keyPEM = Some (sealed, p)" and "\<And>k. \<not> de_mkdir env k" and "de_tmp env = WOk" and "\<not> de_rename env"
    and "de_write env 0 = WFail None"
  shows "\<exists>fs'. peer_Renew lib ks unreadable env (Some (Some csr, Some keyPEM)) r (Some cur) fs = (Inl WriteFileErr, fs') \<and>
    peer_Load lib ks (\<lambda>_. False) fs' = Inl KeyPairErr"
proof -
  let ?fs = "fs(keyFile @ ''.tmp'' := None, keyFile \<mapsto> sealed)"
  have "ks_Save ks env keyFile keyPEM fs = (Inr p, ?fs)"
    using assms(7-10) by (simp add: ks_Save_def WriteFile_def)
  then have r: "peer_Renew lib ks unreadable env (Some (Some csr, Some keyPEM)) r (Some cur) fs = (Inl WriteFileErr, ?fs)"
    using assms by (simp add: peer_Renew_def WriteFile_def)
  have ca: "\<exists>ca. fs caFile = Some ca"
    using assms(2) by (auto simp: peer_Load_def split: ks_read.splits option.splits)
  then have "peer_Load lib ks (\<lambda>_. False) ?fs = Inl KeyPairErr"
    using assms(1) [OF assms(7)] assms(3,4) by (auto simp: peer_Load_def ks_Load_def file_defs)
  with r show ?thesis by blast
qed

definition demo_peer_lib :: "(unit, byte list, byte list) peer_lib" where
  "demo_peer_lib = \<lparr>pb_keypair = \<lambda>c k. if c = k then Some c else None, pb_pem = \<lambda>b. Some (''CERTIFICATE'', b), pb_parse = \<lambda>_. None,
     pb_pool = Some, pb_meta_read = \<lambda>_. None, pb_meta_write = \<lambda>_. [], pb_verify = \<lambda>_ _ _. False\<rparr>"

definition demo_peer :: "(byte list, byte list) peer_identity" where
  "demo_peer = \<lparr>pi_Certificate = [], pi_CAPool = [], pi_ID = \<lparr>n_Role = ''device'', n_ID = ''d''\<rparr>, pi_ServerName = [],
     pi_Protection = [], pi_NotAfter = Hour, pi_GrantKey = None\<rparr>"


end
