(* ===== verification/E2ee.thy ===== *)
theory E2ee
  imports CA
begin

text \<open>
  The session inside the stream, \<open>internal/e2ee/e2ee.go\<close>. TLS itself is not modelled: a handshake is
  what it ends with, the certificates the far end presented and proved to hold and the protocol
  agreed on, or \<^const>\<open>None\<close> when it fails. What the code adds is the verification callback, which TLS
  calls before the handshake completes and whose refusal fails it, and the check of the protocol.
  Verifying a chain is an argument.
\<close>

definition ALPN :: string where "ALPN = ''sar/e2ee/1''"

datatype e2ee_err = ErrHandshake | ErrPeerIdentity

record 'pk conn_state =
  cs_PeerCertificates :: "'pk cert list"
  cs_NegotiatedProtocol :: string

type_synonym ('pk, 'pool) chain_verify = "'pool \<Rightarrow> 'pk cert \<Rightarrow> 'pk cert list \<Rightarrow> ext_key_usage \<Rightarrow> bool"

definition verifyPeer ::
  "('pk, 'pool) chain_verify \<Rightarrow> 'pool \<Rightarrow> identity \<Rightarrow> ext_key_usage \<Rightarrow> 'pk conn_state \<Rightarrow> e2ee_err option" where
  "verifyPeer chain roots expect usage st =
    (case cs_PeerCertificates st of
       [] \<Rightarrow> Some ErrPeerIdentity
     | leaf # intermediates \<Rightarrow>
       if \<not> chain roots leaf intermediates usage then Some ErrPeerIdentity
       else case IdentityOf leaf of
         Inl e \<Rightarrow> Some ErrPeerIdentity
       | Inr got \<Rightarrow> if got \<noteq> expect then Some ErrPeerIdentity else None)"

text \<open>\<open>finish\<close>, with the callback TLS runs.\<close>

definition e2ee_finish ::
  "('pk conn_state \<Rightarrow> e2ee_err option) \<Rightarrow> 'pk conn_state option \<Rightarrow> identity \<Rightarrow> e2ee_err + identity" where
  "e2ee_finish verify hs expect =
    (case hs of
       None \<Rightarrow> Inl ErrHandshake
     | Some st \<Rightarrow>
       (case verify st of
          Some e \<Rightarrow> Inl e
        | None \<Rightarrow> if cs_NegotiatedProtocol st \<noteq> ALPN then Inl ErrHandshake else Inr expect))"

definition e2ee_Client ::
  "('pk, 'pool) chain_verify \<Rightarrow> 'pool \<Rightarrow> identity \<Rightarrow> 'pk conn_state option \<Rightarrow> e2ee_err + identity" where
  "e2ee_Client chain roots expect hs = e2ee_finish (verifyPeer chain roots expect ExtKeyUsageServerAuth) hs expect"

definition e2ee_Server ::
  "('pk, 'pool) chain_verify \<Rightarrow> 'pool \<Rightarrow> identity \<Rightarrow> 'pk conn_state option \<Rightarrow> e2ee_err + identity" where
  "e2ee_Server chain roots expect hs = e2ee_finish (verifyPeer chain roots expect ExtKeyUsageClientAuth) hs expect"

text \<open>The far end is the expected identity, and the authority vouched for it.\<close>

definition proved :: "('pk, 'pool) chain_verify \<Rightarrow> 'pool \<Rightarrow> identity \<Rightarrow> ext_key_usage \<Rightarrow> 'pk conn_state \<Rightarrow> bool" where
  "proved chain roots expect usage st \<longleftrightarrow>
     (\<exists>leaf rest. cs_PeerCertificates st = leaf # rest \<and> chain roots leaf rest usage \<and> IdentityOf leaf = Inr expect)"

lemma verifyPeer_None: "verifyPeer chain roots expect usage st = None \<longleftrightarrow> proved chain roots expect usage st"
  by (auto simp: verifyPeer_def proved_def split: list.split sum.split)

lemma e2ee_Server_Inr:
  "e2ee_Server chain roots expect hs = Inr peer \<longleftrightarrow>
    (\<exists>st. hs = Some st \<and> proved chain roots expect ExtKeyUsageClientAuth st \<and> cs_NegotiatedProtocol st = ALPN \<and> peer = expect)"
  by (auto simp: e2ee_Server_def e2ee_finish_def simp flip: verifyPeer_None split: option.splits if_splits)

lemma e2ee_Client_Inr:
  "e2ee_Client chain roots expect hs = Inr peer \<longleftrightarrow>
    (\<exists>st. hs = Some st \<and> proved chain roots expect ExtKeyUsageServerAuth st \<and> cs_NegotiatedProtocol st = ALPN \<and> peer = expect)"
  by (auto simp: e2ee_Client_def e2ee_finish_def simp flip: verifyPeer_None split: option.splits if_splits)

end
