(* ===== verification/Agent.thy ===== *)
theory Agent
  imports Bridge Proto_Grant Mux_Session Peer_Identity E2ee Backoff
begin

text \<open>
  The endpoint agent, \<open>internal/agent\<close>: the local allowlist, the check of a target, and the handling of
  one stream the relay opens. The JSON file is read by an argument; the outcome of the inner
  handshake and of dialling the target come from the environment, and \<open>now\<close> gives the successive
  readings of the clock in one call.
\<close>

section \<open>Targets and resources\<close>

datatype agent_err =
    ErrTargetNotLoopback | ErrResourceUnknown | NoResourceID | BadProtocol | NegativeDuration
  | DuplicateResource | NoResources | ResourcesUnreadable | AgentNotEnrolled | NoVerificationKey

definition ValidateTarget :: "string \<Rightarrow> agent_err option" where
  "ValidateTarget addr =
    (case SplitHostPort addr of
       Inl e \<Rightarrow> Some ErrTargetNotLoopback
     | Inr (host, port) \<Rightarrow>
       if port = '''' then Some ErrTargetNotLoopback
       else case ParseIP host of
         None \<Rightarrow> Some ErrTargetNotLoopback
       | Some ip \<Rightarrow> if \<not> IsLoopback ip then Some ErrTargetNotLoopback else None)"

record resource =
  rs_ResourceID :: string
  rs_Name :: string
  rs_Protocol :: string
  rs_Target :: string
  rs_MaxBytes :: u64
  rs_MaxDuration :: duration

type_synonym allowlist = "(string \<times> resource) list"

definition validateResource :: "resource \<Rightarrow> agent_err option" where
  "validateResource r =
    (if rs_ResourceID r = '''' then Some NoResourceID
     else if rs_Protocol r \<noteq> ''tcp'' then Some BadProtocol
     else case ValidateTarget (rs_Target r) of
       Some e \<Rightarrow> Some e
     | None \<Rightarrow> if rs_MaxDuration r < 0 then Some NegativeDuration else None)"

fun load_resources :: "resource list \<Rightarrow> allowlist \<Rightarrow> agent_err + allowlist" where
  "load_resources [] list = Inr list"
| "load_resources (r # rs) list =
    (case validateResource r of
       Some e \<Rightarrow> Inl e
     | None \<Rightarrow>
       if map_of list (rs_ResourceID r) \<noteq> None then Inl DuplicateResource
       else load_resources rs (AList.update (rs_ResourceID r) r list))"

text \<open>\<open>declared\<close> is what reading and decoding the file gives.\<close>

definition LoadAllowlist :: "resource list option \<Rightarrow> agent_err + allowlist" where
  "LoadAllowlist declared =
    (case declared of
       None \<Rightarrow> Inl ResourcesUnreadable
     | Some rs \<Rightarrow>
       (case load_resources rs [] of
          Inl e \<Rightarrow> Inl e
        | Inr list \<Rightarrow> if length list = 0 then Inl NoResources else Inr list))"

definition allow_Lookup :: "string \<Rightarrow> allowlist \<Rightarrow> agent_err + resource" where
  "allow_Lookup resourceID list =
    (case map_of list resourceID of
       None \<Rightarrow> Inl ErrResourceUnknown
     | Some r \<Rightarrow> (case ValidateTarget (rs_Target r) of Some e \<Rightarrow> Inl e | None \<Rightarrow> Inr r))"

definition allow_IDs :: "allowlist \<Rightarrow> string list" where "allow_IDs list = map fst list"

section \<open>The agent\<close>

record ('tls, 'pool) agent_config =
  ac_RelayAddr :: string
  ac_Identity :: "('tls, 'pool) peer_identity option"
  ac_Resources :: allowlist
  ac_MaxStreams :: u32
  ac_RetryInterval :: duration
  ac_MaxRetryInterval :: duration
  ac_ControlAddr :: string
  ac_StateDir :: string
  ac_RenewCheckInterval :: duration
  ac_KeepAlive :: duration
  ac_IdleTimeout :: duration

record ('tls, 'pool) agent =
  ag_cfg :: "('tls, 'pool) agent_config"
  ag_identity :: "('tls, 'pool) peer_identity"

definition agent_New :: "('tls, 'pool) agent_config \<Rightarrow> agent_err + ('tls, 'pool) agent" where
  "agent_New cfg =
    (let cfg = (if ac_RetryInterval cfg \<le> 0 then cfg\<lparr>ac_RetryInterval := DefaultInitial\<rparr> else cfg);
         cfg = (if ac_MaxRetryInterval cfg \<le> 0 then cfg\<lparr>ac_MaxRetryInterval := DefaultMax\<rparr> else cfg);
         cfg = (if ac_RenewCheckInterval cfg \<le> 0 then cfg\<lparr>ac_RenewCheckInterval := RenewCheckInterval\<rparr> else cfg);
         cfg = (if ac_MaxStreams cfg = 0 then cfg\<lparr>ac_MaxStreams := MaxStreamsPerConnection\<rparr> else cfg);
         cfg = (if ac_IdleTimeout cfg = 0 then cfg\<lparr>ac_IdleTimeout := IdleTimeout\<rparr> else cfg);
         cfg = (if ac_KeepAlive cfg = 0
                then cfg\<lparr>ac_KeepAlive := sgn (ac_IdleTimeout cfg) * (\<bar>ac_IdleTimeout cfg\<bar> div 3)\<rparr> else cfg)
     in case ac_Identity cfg of
          None \<Rightarrow> Inl AgentNotEnrolled
        | Some i \<Rightarrow>
          if length (ac_Resources cfg) = 0 then Inl NoResources
          else case find (\<lambda>(_, r). ValidateTarget (rs_Target r) \<noteq> None) (ac_Resources cfg) of
            Some (_, r) \<Rightarrow> Inl (the (ValidateTarget (rs_Target r)))
          | None \<Rightarrow>
            if pi_GrantKey i = None then Inl NoVerificationKey
            else Inr \<lparr>ag_cfg = cfg, ag_identity = i\<rparr>)"

definition agent_serverName :: "('tls, 'pool) agent \<Rightarrow> string" where
  "agent_serverName a =
    (if pi_ServerName (ag_identity a) \<noteq> '''' then pi_ServerName (ag_identity a)
     else case SplitHostPort (ac_RelayAddr (ag_cfg a)) of
       Inl e \<Rightarrow> ac_RelayAddr (ag_cfg a)
     | Inr (host, port) \<Rightarrow> host)"

definition settleDelay :: duration where "settleDelay = 250 * Millisecond"

text \<open>The delay before the next attempt, after a session that was \<open>established\<close> or not.\<close>

definition run_delay :: "'f float_ops \<Rightarrow> (int \<Rightarrow> int) \<Rightarrow> bool \<Rightarrow> 'f bstate \<Rightarrow> duration \<times> 'f bstate" where
  "run_delay fl int64N established retry =
    (let retry = (if established then backoff_Reset retry else retry) in backoff_Next fl int64N retry)"

text \<open>The boolean says that a new identity was stored.\<close>

definition agent_renewIfDue ::
  "('pk, 'tls, 'pool) peer_lib \<Rightarrow> keystore \<Rightarrow> (string \<Rightarrow> bool) \<Rightarrow> disk_env \<Rightarrow> new_key \<Rightarrow> reply \<Rightarrow> (nat \<Rightarrow> time) \<Rightarrow>
     ('tls, 'pool) agent \<Rightarrow> dir \<Rightarrow> bool \<times> ('tls, 'pool) agent \<times> dir" where
  "agent_renewIfDue lib ks unreadable env key r now a fs =
    (if ac_ControlAddr (ag_cfg a) = '''' \<or> ac_StateDir (ag_cfg a) = '''' then (False, a, fs)
     else if \<not> DueForRenewal (ag_identity a) (now 0) then (False, a, fs)
     else case RenewIfDue lib ks unreadable env key r (now 1) (Some (ag_identity a)) (ac_ControlAddr (ag_cfg a)) fs of
       ((renewed, ok, err), fs) \<Rightarrow>
         if err \<noteq> None \<or> \<not> ok then (False, a, fs) else (True, a\<lparr>ag_identity := the renewed\<rparr>, fs))"

text \<open>A tick of \<open>watchForRenewal\<close>: the boolean says that the session is to end.\<close>

definition watch_tick ::
  "('pk, 'tls, 'pool) peer_lib \<Rightarrow> keystore \<Rightarrow> (string \<Rightarrow> bool) \<Rightarrow> disk_env \<Rightarrow> new_key \<Rightarrow> reply \<Rightarrow> (nat \<Rightarrow> time) \<Rightarrow>
     ('tls, 'pool) agent \<Rightarrow> dir \<Rightarrow> bool \<times> ('tls, 'pool) agent \<times> dir" where
  "watch_tick lib ks unreadable env key r now a fs =
    (if \<not> DueForRenewal (ag_identity a) (now 2) then (False, a, fs)
     else agent_renewIfDue lib ks unreadable env key r now a fs)"

text \<open>\<open>session\<close> up to its accept loop; \<open>dialled\<close> is the connection, if dialling succeeds.\<close>

definition agent_session :: "time \<Rightarrow> ('tls, 'pool) agent \<Rightarrow> conn option \<Rightarrow> (conn option + session)" where
  "agent_session now a dialled =
    (case dialled of
       None \<Rightarrow> Inl None
     | Some c \<Rightarrow>
       (case mux_Dial now c \<lparr>cf_Role = RoleAgent, cf_MaxFramePayload = 0, cf_InitialWindow = 0,
               cf_MaxStreams = ac_MaxStreams (ag_cfg a), cf_KeepAlive = ac_KeepAlive (ag_cfg a),
               cf_IdleTimeout = ac_IdleTimeout (ag_cfg a)\<rparr>
              \<lparr>a_DeviceID = n_ID (pi_ID (ag_identity a)), a_UserID = '''', a_Resource = ''''\<rparr> of
          (Inl e, c) \<Rightarrow> Inl (Some (conn_Close c))
        | (Inr s, c) \<Rightarrow> Inr s))"

section \<open>One stream\<close>

definition smallerLimit :: "u64 \<Rightarrow> u64 \<Rightarrow> u64" where
  "smallerLimit a b = (if a = 0 then b else if b = 0 then a else if a < b then a else b)"

text \<open>The agent's own decision on a stream: the grant and the resource, or the reason of the refusal.\<close>

definition stream_check ::
  "(byte list \<Rightarrow> byte list \<Rightarrow> byte list \<Rightarrow> bool) \<Rightarrow> time \<Rightarrow> ('tls, 'pool) peer_identity \<Rightarrow> allowlist \<Rightarrow> byte list \<Rightarrow>
     reason + signed_grant \<times> resource" where
  "stream_check edv now i list payload =
    (if length payload = 0 then Inl ReasonPolicyDenied
     else case DecodeGrant payload of
       Inl e \<Rightarrow> Inl (ReasonForGrant (Some e))
     | Inr g \<Rightarrow>
       (case Verify edv g (the (pi_GrantKey i)) now (n_ID (pi_ID i)) of
          Some e \<Rightarrow> Inl (ReasonForGrant (Some e))
        | None \<Rightarrow>
          (case allow_Lookup (g_ResourceID g) list of
             Inl e \<Rightarrow> Inl (if e = ErrTargetNotLoopback then ReasonResourceTargetNotLoopback else ReasonResourceUnknown)
           | Inr r \<Rightarrow> Inr (g, r))))"

definition stream_deadline :: "(nat \<Rightarrow> time) \<Rightarrow> signed_grant \<Rightarrow> resource \<Rightarrow> time" where
  "stream_deadline now g r =
    (let deadline = now 1 + Remaining g (now 2); d = rs_MaxDuration r in
     if d > 0 \<and> now 3 + d < deadline then now 4 + d else deadline)"

datatype dial = Connected | DialTimedOut | DialRefused

datatype stream_end = SRefused reason | SServing signed_grant resource time u64

definition handleStream ::
  "(byte list \<Rightarrow> byte list \<Rightarrow> byte list \<Rightarrow> bool) \<Rightarrow> ('pk, 'pool) chain_verify \<Rightarrow> (nat \<Rightarrow> time) \<Rightarrow> ('tls, 'pool) agent \<Rightarrow>
     'pk conn_state option \<Rightarrow> dial \<Rightarrow> nat \<Rightarrow> session \<Rightarrow> stream_end \<times> session" where
  "handleStream edv chain now a hs dialled x s =
    (let refuse = (\<lambda>reason. (SRefused reason, snd (stream_Reset x reason s))); i = ag_identity a in
     case stream_check edv (now 0) i (ac_Resources (ag_cfg a)) (st_openPayload (s_objs s ! x)) of
       Inl reason \<Rightarrow> refuse reason
     | Inr (g, r) \<Rightarrow>
       (case e2ee_Server chain (pi_CAPool i) \<lparr>n_Role = RoleOperatorCert, n_ID = g_UserID g\<rparr> hs of
          Inl e \<Rightarrow> refuse ReasonAuthFailed
        | Inr peer \<Rightarrow>
          (case dialled of
             DialTimedOut \<Rightarrow> refuse ReasonTargetTimeout
           | DialRefused \<Rightarrow> refuse ReasonTargetConnectionRefused
           | Connected \<Rightarrow> (SServing g r (stream_deadline now g r) (smallerLimit (g_MaxBytes g) (rs_MaxBytes r)), s))))"

text \<open>The watcher of a running stream when its context ends: \<open>stopping\<close> says that the agent itself is.\<close>

definition on_deadline :: "bool \<Rightarrow> nat \<Rightarrow> session \<Rightarrow> session" where
  "on_deadline stopping x s = (if stopping then s else snd (stream_Reset x ReasonGrantExpired s))"

definition close_reason :: "bool \<Rightarrow> copy_err option \<Rightarrow> reason" where
  "close_reason deadlineExceeded joinErr =
    (if deadlineExceeded then ReasonGrantExpired
     else case joinErr of
       Some ErrBudgetExhausted \<Rightarrow> ReasonLimitBytesExceeded
     | Some e \<Rightarrow> ReasonShutdown
     | None \<Rightarrow> ReasonOK)"

section \<open>Lemmas\<close>

definition loopback_literal :: "string \<Rightarrow> bool" where
  "loopback_literal addr \<longleftrightarrow>
     (\<exists>host port i. SplitHostPort addr = Inr (host, port) \<and> port \<noteq> '''' \<and> ParseIP host = Some i \<and> IsLoopback i)"

lemma ValidateTarget_None: "ValidateTarget addr = None \<longleftrightarrow> loopback_literal addr"
  by (auto simp: ValidateTarget_def loopback_literal_def split: sum.split option.split)

lemma load_resources_Inr:
  "load_resources rs list = Inr list' \<Longrightarrow> (\<forall>(k, r)\<in>set list. validateResource r = None \<and> k = rs_ResourceID r) \<Longrightarrow>
    \<forall>(k, r)\<in>set list'. validateResource r = None \<and> k = rs_ResourceID r"
proof (induction rs list rule: load_resources.induct)
  case (2 r rs list)
  have "set (AList.update (rs_ResourceID r) r list) \<subseteq> insert (rs_ResourceID r, r) (set list)"
    by (induction list) auto
  with 2 show ?case by (auto split: option.splits if_splits)
qed simp

text \<open>Only an allowlist of literal loopback targets is ever loaded.\<close>

lemma LoadAllowlist_loopback:
  "LoadAllowlist declared = Inr list \<Longrightarrow> map_of list i = Some r \<Longrightarrow> loopback_literal (rs_Target r) \<and> rs_ResourceID r = i"
  by (auto simp: LoadAllowlist_def validateResource_def simp flip: ValidateTarget_None
      dest!: load_resources_Inr map_of_SomeD split: option.splits sum.splits if_splits)

lemma allow_Lookup_Inr:
  "allow_Lookup i list = Inr r \<longleftrightarrow> map_of list i = Some r \<and> loopback_literal (rs_Target r)"
  by (auto simp: allow_Lookup_def simp flip: ValidateTarget_None split: option.split)

lemma stream_check_Inr:
  "stream_check edv now i list payload = Inr (g, r) \<longleftrightarrow>
    DecodeGrant payload = Inr g \<and> Verify edv g (the (pi_GrantKey i)) now (n_ID (pi_ID i)) = None \<and>
    map_of list (g_ResourceID g) = Some r \<and> loopback_literal (rs_Target r)"
proof -
  have nil: "DecodeGrant [] = Inl ErrGrantMalformed" by (simp add: DecodeGrant_def)
  show ?thesis
    by (auto simp: stream_check_def nil simp flip: allow_Lookup_Inr split: sum.splits option.splits)
qed

lemma smallerLimit_bounds:
  "a \<noteq> 0 \<Longrightarrow> smallerLimit a b \<noteq> 0 \<and> smallerLimit a b \<le> a" "b \<noteq> 0 \<Longrightarrow> smallerLimit a b \<noteq> 0 \<and> smallerLimit a b \<le> b"
  by (auto simp: smallerLimit_def)

lemma stream_deadline_bounds:
  assumes "now 1 \<le> now 2" and "now 3 \<le> now 4"
    and "g_ExpiresAt g - now 2 \<le> maxDuration" and "minDuration \<le> g_ExpiresAt g - now 2"
  shows "stream_deadline now g r \<le> max (g_ExpiresAt g) (now 1) + (now 4 - now 3)"
    and "rs_MaxDuration r > 0 \<Longrightarrow> stream_deadline now g r \<le> now 4 + rs_MaxDuration r"
proof -
  have "now 1 + Remaining g (now 2) \<le> max (g_ExpiresAt g) (now 1)"
    using assms by (auto simp: Remaining_def Let_def time_simps)
  then show "stream_deadline now g r \<le> max (g_ExpiresAt g) (now 1) + (now 4 - now 3)"
    using assms(2) by (auto simp: stream_deadline_def Let_def)
  show "rs_MaxDuration r > 0 \<Longrightarrow> stream_deadline now g r \<le> now 4 + rs_MaxDuration r"
    using assms(2) by (auto simp: stream_deadline_def Let_def)
qed

section \<open>Properties\<close>

text \<open>C3: The agent connects a stream to a local service only if it carries a grant that its own key
  verifies, for its own device and valid now, naming a resource of its own allowlist; the address it
  connects to is the one declared there, a literal loopback address with a port; and the far end has
  proved to be the operator the grant was issued to. The stream is then bounded by the expiry of the
  grant and by the limits of the resource, and carries no more bytes than either of them allows.\<close>
theorem agent_serves_only_authorized:
  assumes "handleStream edv chain now a hs dialled x s = (SServing g r deadline budget, s')"
    and "now 1 \<le> now 2" and "now 3 \<le> now 4"
    and "g_ExpiresAt g - now 2 \<le> maxDuration" and "minDuration \<le> g_ExpiresAt g - now 2"
  shows "DecodeGrant (st_openPayload (s_objs s ! x)) = Inr g \<and>
    Verify edv g (the (pi_GrantKey (ag_identity a))) (now 0) (n_ID (pi_ID (ag_identity a))) = None \<and>
    map_of (ac_Resources (ag_cfg a)) (g_ResourceID g) = Some r \<and> loopback_literal (rs_Target r) \<and>
    (\<exists>st. hs = Some st \<and> cs_NegotiatedProtocol st = ALPN \<and>
      proved chain (pi_CAPool (ag_identity a)) \<lparr>n_Role = RoleOperatorCert, n_ID = g_UserID g\<rparr> ExtKeyUsageClientAuth st) \<and>
    deadline \<le> max (g_ExpiresAt g) (now 1) + (now 4 - now 3) \<and>
    (rs_MaxDuration r > 0 \<longrightarrow> deadline \<le> now 4 + rs_MaxDuration r) \<and>
    (\<forall>j. join_run budget j \<longrightarrow>
      (g_MaxBytes g \<noteq> 0 \<longrightarrow> p_n (j_ab j) + p_n (j_ba j) \<le> unat (g_MaxBytes g)) \<and>
      (rs_MaxBytes r \<noteq> 0 \<longrightarrow> p_n (j_ab j) + p_n (j_ba j) \<le> unat (rs_MaxBytes r)))"
proof -
  have c: "stream_check edv (now 0) (ag_identity a) (ac_Resources (ag_cfg a)) (st_openPayload (s_objs s ! x)) = Inr (g, r)"
    and e: "\<exists>peer. e2ee_Server chain (pi_CAPool (ag_identity a)) \<lparr>n_Role = RoleOperatorCert, n_ID = g_UserID g\<rparr> hs = Inr peer"
    and d: "deadline = stream_deadline now g r" "budget = smallerLimit (g_MaxBytes g) (rs_MaxBytes r)"
    using assms(1) by (auto simp: handleStream_def Let_def split: sum.splits prod.splits dial.splits)
  have run: "p_n (j_ab j) + p_n (j_ba j) \<le> unat budget" if "join_run budget j" "budget \<noteq> 0" for j
    using join_run_inv [OF that] by (auto simp: join_inv_def)
  have b: "\<forall>j. join_run budget j \<longrightarrow>
      (g_MaxBytes g \<noteq> 0 \<longrightarrow> p_n (j_ab j) + p_n (j_ba j) \<le> unat (g_MaxBytes g)) \<and>
      (rs_MaxBytes r \<noteq> 0 \<longrightarrow> p_n (j_ab j) + p_n (j_ba j) \<le> unat (rs_MaxBytes r))"
    using run smallerLimit_bounds [of "g_MaxBytes g" "rs_MaxBytes r"] smallerLimit_bounds(2) [of "rs_MaxBytes r" "g_MaxBytes g"] d(2)
    by (auto simp: word_le_nat_alt intro: order_trans)
  show ?thesis
    using c e b stream_deadline_bounds [OF assms(2-5), of r]
    by (auto simp: stream_check_Inr e2ee_Server_Inr d(1))
qed

definition demo_resource :: resource where
  "demo_resource = \<lparr>rs_ResourceID = ''r'', rs_Name = ''panel'', rs_Protocol = ''tcp'', rs_Target = ''127.0.0.1:80'',
     rs_MaxBytes = 1000, rs_MaxDuration = 0\<rparr>"

definition demo_agent :: "(unit, unit) agent" where
  "demo_agent = \<lparr>ag_cfg = \<lparr>ac_RelayAddr = [], ac_Identity = None, ac_Resources = [(''r'', demo_resource)], ac_MaxStreams = 16,
       ac_RetryInterval = Second, ac_MaxRetryInterval = Second, ac_ControlAddr = [], ac_StateDir = [],
       ac_RenewCheckInterval = Hour, ac_KeepAlive = Second, ac_IdleTimeout = Second\<rparr>,
     ag_identity = \<lparr>pi_Certificate = (), pi_CAPool = (), pi_ID = \<lparr>n_Role = ''device'', n_ID = ''d''\<rparr>, pi_ServerName = [],
       pi_Protection = [], pi_NotAfter = Hour, pi_GrantKey = Some [5]\<rparr>\<rparr>"

definition demo_operator_cert :: "nat cert" where
  "demo_operator_cert = leaf_template 1 \<lparr>n_Role = RoleOperatorCert, n_ID = ''u''\<rparr> 0 0"

definition demo_agent_session :: session where
  "demo_agent_session = (newSession 0 demo_conn True demo_ack)
     \<lparr>s_objs := [(newStream 2 8)\<lparr>st_openPayload := SignedGrant_Encode demo_signed\<rparr>], s_streams := [(2, 0)]\<rparr>"

definition hd_verify :: "byte list \<Rightarrow> byte list \<Rightarrow> byte list \<Rightarrow> bool" where
  "hd_verify k = keyed_verify (hd k)"

lemma demo_signed_sel: "g_UserID demo_signed = ''u''" "g_DeviceID demo_signed = ''d''" "g_ResourceID demo_signed = ''r''"
  "g_GrantID demo_signed = ''g''" "g_ExpiresAt demo_signed = 1800 * Second" "g_MaxBytes demo_signed = 0"
  by (simp_all add: demo_signed_def demo_grant_def grant.defs)

lemma demo_signed_good:
  "DecodeGrant (SignedGrant_Encode demo_signed) = Inr demo_signed"
  "Verify keyed_verify demo_signed 5 (60 * Second) ''d'' = None"
proof -
  have s: "length (sg_Signature demo_signed) = SignatureSize" "canonical demo_signed = canonical demo_grant"
    "sg_Signature demo_signed = keyed_sign 5 (canonical demo_grant)"
    by (simp_all add: demo_signed_def grant.defs keyed_sign_ok canonical_def)
  have w: "wire_time 0" "wire_time (1800 * Second)"
    by (simp_all add: wire_time_def time_ok_def Truncate_sec_def Second_def)
  have "signed_ok demo_signed"
    using s(1) w by (simp add: signed_ok_def g_strings_def demo_signed_def grant.defs demo_grant_def GrantVersion_def MaxIdentityLen_def)
  then show "DecodeGrant (SignedGrant_Encode demo_signed) = Inr demo_signed" by (rule DecodeGrant_Encode)
  show "Verify keyed_verify demo_signed 5 (60 * Second) ''d'' = None"
    unfolding Verify_None_iff s keyed_sign_ok
    by (simp add: demo_signed_def grant.defs grant_defs keyed_sign_ok duration_defs)
qed

lemma Verify_hd: "Verify hd_verify s (k # ks) now dev = Verify keyed_verify s k now dev"
  by (simp add: Verify_def hd_verify_def)

lemma demo_target: "loopback_literal (rs_Target demo_resource)"
  unfolding loopback_literal_def demo_resource_def
  by (simp add: SplitHostPort_def Let_def ParseIP_def parseIPv4Fields_def dec_val_def v4_prefix_def IsLoopback_def nth_append)

lemma demo_operator_proved:
  "proved (\<lambda>_ _ _ _. True) () \<lparr>n_Role = RoleOperatorCert, n_ID = ''u''\<rparr> ExtKeyUsageClientAuth
     \<lparr>cs_PeerCertificates = [demo_operator_cert], cs_NegotiatedProtocol = ALPN\<rparr>"
  by (simp add: proved_def IdentityOf_def demo_operator_cert_def leaf_template_def identities_in_URI del: identities_in.simps)

theorem agent_serves_only_authorized_witness:
  "\<exists>deadline budget s'. handleStream hd_verify (\<lambda>_ _ _ _. True) (\<lambda>_. 60 * Second) demo_agent
      (Some \<lparr>cs_PeerCertificates = [demo_operator_cert], cs_NegotiatedProtocol = ALPN\<rparr>) Connected 0 demo_agent_session =
      (SServing demo_signed demo_resource deadline budget, s') \<and> deadline \<le> 1800 * Second"
proof -
  let ?hs = "Some \<lparr>cs_PeerCertificates = [demo_operator_cert], cs_NegotiatedProtocol = ALPN\<rparr>"
  have c: "stream_check hd_verify (60 * Second) (ag_identity demo_agent) (ac_Resources (ag_cfg demo_agent))
      (st_openPayload (s_objs demo_agent_session ! 0)) = Inr (demo_signed, demo_resource)"
    using demo_signed_good demo_target Verify_hd [of demo_signed 5 "[]"]
    by (simp add: stream_check_Inr demo_agent_session_def demo_agent_def demo_signed_sel)
  have e: "e2ee_Server (\<lambda>_ _ _ _. True) () \<lparr>n_Role = RoleOperatorCert, n_ID = g_UserID demo_signed\<rparr> ?hs =
      Inr \<lparr>n_Role = RoleOperatorCert, n_ID = g_UserID demo_signed\<rparr>"
    using demo_operator_proved by (simp add: e2ee_Server_Inr demo_signed_sel)
  obtain deadline budget s' where h: "handleStream hd_verify (\<lambda>_ _ _ _. True) (\<lambda>_. 60 * Second) demo_agent ?hs Connected 0
      demo_agent_session = (SServing demo_signed demo_resource deadline budget, s')"
    using c e by (simp add: handleStream_def Let_def demo_agent_def)
  have "deadline \<le> max (g_ExpiresAt demo_signed) (60 * Second) + (60 * Second - 60 * Second)"
    using agent_serves_only_authorized [OF h] by (simp add: demo_signed_sel Second_def maxDuration_def minDuration_def)
  with h show ?thesis by (auto simp: demo_signed_sel Second_def)
qed

end
