(* ===== verification/Rfc3339.thy ===== *)
theory Rfc3339
  imports Sar_Prelude
begin

text \<open>
  The timestamps of the control plane's replies, as the Go library writes and reads them:
  \<open>t.UTC().Format(time.RFC3339)\<close> and \<open>time.Parse(time.RFC3339, s)\<close>. The calendar is the proleptic
  Gregorian one. Parsing is modelled for the strings of RFC 3339 itself, with a fraction and an offset;
  the laxer forms the library also accepts (an hour of one digit, a comma before the fraction) are
  refused here.
\<close>

section \<open>The calendar\<close>

definition leap_year :: "int \<Rightarrow> bool" where
  "leap_year y \<longleftrightarrow> y mod 4 = 0 \<and> (y mod 100 \<noteq> 0 \<or> y mod 400 = 0)"

text \<open>Days from the first day of year 0 to the first day of year \<open>y\<close>.\<close>

definition year_start :: "int \<Rightarrow> int" where
  "year_start y = 365 * y + (y + 3) div 4 - (y + 99) div 100 + (y + 399) div 400"

text \<open>The zero time of Go is the first instant of year 1, 366 days after that of year 0.\<close>

definition zero_day :: int where "zero_day = 366"

text \<open>The mean year is 146097 days in 400 years; the estimate it gives is off by one at most.\<close>

definition year_of :: "int \<Rightarrow> int" where
  "year_of day =
    (let y = day * 400 div 146097 in
     if year_start (y + 1) \<le> day then y + 1 else if day < year_start y then y - 1 else y)"

definition month_lens :: "int \<Rightarrow> int list" where
  "month_lens y = [31, if leap_year y then 29 else 28, 31, 30, 31, 30, 31, 31, 30, 31, 30, 31]"

text \<open>The month and the day of the month of a day, counting both from the given month.\<close>

fun locate :: "int \<Rightarrow> int \<Rightarrow> int list \<Rightarrow> int \<times> int" where
  "locate m yday [] = (m, yday + 1)"
| "locate m yday (n # ns) = (if yday < n then (m, yday + 1) else locate (m + 1) (yday - n) ns)"

definition days_in :: "int \<Rightarrow> int \<Rightarrow> int" where
  "days_in y m = month_lens y ! nat (m - 1)"

definition date_of :: "int \<Rightarrow> int \<times> int \<times> int" where
  "date_of day = (let y = year_of day in (y, locate 1 (day - year_start y) (month_lens y)))"

definition day_of :: "int \<Rightarrow> int \<Rightarrow> int \<Rightarrow> int" where
  "day_of y m d = year_start y + sum_list (take (nat (m - 1)) (month_lens y)) + d - 1"

section \<open>Decimal numbers of a fixed width\<close>

definition digit_char :: "nat \<Rightarrow> char" where
  "digit_char n = char_of (48 + n)"

fun fixed :: "nat \<Rightarrow> nat \<Rightarrow> string" where
  "fixed 0 n = []"
| "fixed (Suc w) n = fixed w (n div 10) @ [digit_char (n mod 10)]"

fun decimal :: "nat \<Rightarrow> string" where
  "decimal n = (if n < 10 then [digit_char n] else decimal (n div 10) @ [digit_char (n mod 10)])"

definition is_digit :: "char \<Rightarrow> bool" where
  "is_digit c \<longleftrightarrow> 48 \<le> (of_char c :: nat) \<and> (of_char c :: nat) \<le> 57"

definition digits_val :: "string \<Rightarrow> nat" where
  "digits_val s = foldl (\<lambda>n c. n * 10 + (of_char c - 48)) 0 s"

text \<open>\<open>parseUint\<close>: all of \<open>s\<close> are digits and the value is within its bounds.\<close>

definition parseUint :: "string \<Rightarrow> int \<Rightarrow> int \<Rightarrow> int option" where
  "parseUint s lo hi =
    (if list_all is_digit s \<and> lo \<le> int (digits_val s) \<and> int (digits_val s) \<le> hi
     then Some (int (digits_val s)) else None)"

section \<open>Formatting and parsing\<close>

definition format_year :: "int \<Rightarrow> string" where
  "format_year y =
    (if 0 \<le> y \<and> y \<le> 9999 then fixed 4 (nat y)
     else if y < 0 then ''-'' @ (if y \<ge> -9999 then fixed 4 (nat (- y)) else decimal (nat (- y)))
     else decimal (nat y))"

definition FormatRFC3339 :: "time \<Rightarrow> string" where
  "FormatRFC3339 t =
    (let secs = t div Second; s = secs mod 86400 in
     case date_of (secs div 86400 + zero_day) of
       (y, m, d) \<Rightarrow>
         format_year y @ ''-'' @ fixed 2 (nat m) @ ''-'' @ fixed 2 (nat d) @ ''T'' @
         fixed 2 (nat (s div 3600)) @ '':'' @ fixed 2 (nat (s mod 3600 div 60)) @ '':'' @
         fixed 2 (nat (s mod 60)) @ ''Z'')"

text \<open>A fraction of a second in nanoseconds: digits beyond the ninth are dropped.\<close>

definition fraction :: "string \<Rightarrow> int \<times> string" where
  "fraction s =
    (case s of
       (c # rest) \<Rightarrow>
         (let ds = takeWhile is_digit rest in
          if c = CHR ''.'' \<and> ds \<noteq> [] then (int (digits_val (take 9 (ds @ replicate 9 (CHR ''0'')))), drop (length ds) rest)
          else (0, s))
     | [] \<Rightarrow> (0, s))"

definition zone :: "string \<Rightarrow> int option" where
  "zone s =
    (if s = ''Z'' then Some 0
     else if length s = 6 \<and> hd s \<in> {CHR ''+'', CHR ''-''} \<and> s ! 3 = CHR '':'' then
       (case (parseUint (take 2 (drop 1 s)) 0 23, parseUint (drop 4 s) 0 59) of
          (Some h, Some m) \<Rightarrow> Some ((if hd s = CHR ''-'' then -1 else 1) * (h * 3600 + m * 60))
        | _ \<Rightarrow> None)
     else None)"

definition ParseRFC3339 :: "string \<Rightarrow> time option" where
  "ParseRFC3339 str =
    (if length str < 19 \<or> str ! 4 \<noteq> CHR ''-'' \<or> str ! 7 \<noteq> CHR ''-'' \<or> str ! 10 \<noteq> CHR ''T'' \<or>
        str ! 13 \<noteq> CHR '':'' \<or> str ! 16 \<noteq> CHR '':'' then None
     else
       case (parseUint (take 4 str) 0 9999, parseUint (take 2 (drop 5 str)) 1 12) of
         (Some y, Some m) \<Rightarrow>
           (case (parseUint (take 2 (drop 8 str)) 1 (days_in y m), parseUint (take 2 (drop 11 str)) 0 23,
                  parseUint (take 2 (drop 14 str)) 0 59, parseUint (take 2 (drop 17 str)) 0 59) of
              (Some d, Some hh, Some mm, Some ss) \<Rightarrow>
                (case fraction (drop 19 str) of
                   (ns, rest) \<Rightarrow>
                     (case zone rest of
                        None \<Rightarrow> None
                      | Some off \<Rightarrow>
                          Some (((day_of y m d - zero_day) * 86400 + hh * 3600 + mm * 60 + ss - off) * Second + ns)))
            | _ \<Rightarrow> None)
       | _ \<Rightarrow> None)"

section \<open>Lemmas\<close>

lemma div_ceiling:
  assumes "0 < (n :: int)"
  shows "(y + (n - 1)) div n = y div n + (if y mod n = 0 then 0 else 1)"
proof -
  have r: "0 \<le> y mod n" "y mod n < n" using assms by auto
  have "y + (n - 1) = (y mod n + (n - 1)) + n * (y div n)" by (simp add: algebra_simps)
  then have "(y + (n - 1)) div n = (y mod n + (n - 1)) div n + y div n"
    using assms by (metis div_mult_self2 add.commute less_irrefl)
  moreover have "(y mod n + (n - 1)) div n = (if y mod n = 0 then 0 else 1)"
  proof (cases "y mod n = 0")
    case True
    then show ?thesis using assms by (simp add: div_pos_pos_trivial)
  next
    case False
    with r show ?thesis by (simp add: int_div_pos_eq [where q = 1 and r = "y mod n - 1"])
  qed
  ultimately show ?thesis by simp
qed

lemma div_ceiling_Suc:
  "0 < (n :: int) \<Longrightarrow> k = n - 1 \<Longrightarrow> (y + 1 + k) div n = (y + k) div n + (if y mod n = 0 then 1 else 0)"
  using div_ceiling [of n y] div_add_self2 [of n y] by (simp add: add.assoc)

lemma div_bounds: "0 < (n :: int) \<Longrightarrow> n * (x div n) \<le> x" "0 < n \<Longrightarrow> x - n < n * (x div n)"
  using mult_div_mod_eq [of n x] pos_mod_bound [of n x] pos_mod_sign [of n x] by linarith+

lemma year_start_Suc: "year_start (y + 1) = year_start y + 365 + (if leap_year y then 1 else 0)"
proof -
  have d: "(y + 1 + 3) div 4 = (y + 3) div 4 + (if y mod 4 = 0 then 1 else 0)"
    "(y + 1 + 99) div 100 = (y + 99) div 100 + (if y mod 100 = 0 then 1 else 0)"
    "(y + 1 + 399) div 400 = (y + 399) div 400 + (if y mod 400 = 0 then 1 else 0)"
    by (rule div_ceiling_Suc; simp)+
  have m: "y mod 400 = 0 \<longrightarrow> y mod 100 = 0" "y mod 100 = 0 \<longrightarrow> y mod 4 = 0"
    using mod_mod_cancel [of 100 400 y] mod_mod_cancel [of 4 100 y] by auto
  have sum: "365 * (y + 1) + (A + (if a then 1 else 0)) - (B + (if b then 1 else 0)) + (C + (if c then 1 else 0)) =
      365 * y + A - B + C + 365 + (if a \<and> (\<not> b \<or> c) then 1 else 0)"
    if "c \<longrightarrow> b" "b \<longrightarrow> a" for a b c and A B C :: int
    using that by (cases a; cases b; cases c) simp_all
  show ?thesis
    unfolding year_start_def leap_year_def d by (rule sum [OF m])
qed

lemma year_start_near: "400 * year_start y \<le> 146097 * y + 699" "146097 * y - 396 \<le> 400 * year_start y"
proof -
  define a b c where "a = (y + 3) div 4" and "b = (y + 99) div 100" and "c = (y + 399) div 400"
  have a: "4 * a \<le> y + 3" "y \<le> 4 * a" unfolding a_def using div_bounds [of 4 "y + 3"] by simp_all
  have b: "100 * b \<le> y + 99" "y \<le> 100 * b" unfolding b_def using div_bounds [of 100 "y + 99"] by simp_all
  have c: "400 * c \<le> y + 399" "y \<le> 400 * c" unfolding c_def using div_bounds [of 400 "y + 399"] by simp_all
  have ys: "400 * year_start y = 146000 * y + 400 * a - 400 * b + 400 * c"
    by (simp add: year_start_def a_def b_def c_def algebra_simps)
  show "400 * year_start y \<le> 146097 * y + 699" unfolding ys using a b c by linarith
  show "146097 * y - 396 \<le> 400 * year_start y" unfolding ys using a b c by linarith
qed

lemma year_of_bounds: "year_start (year_of day) \<le> day \<and> day < year_start (year_of day + 1)"
proof -
  define y where "y = day * 400 div 146097"
  have y: "146097 * y \<le> 400 * day" "400 * day < 146097 * y + 146097"
    using div_bounds [of 146097 "day * 400"] unfolding y_def by (simp_all only: mult.commute [of day])
  have "400 * year_start (y - 1) \<le> 146097 * y - 145398"
    using year_start_near(1) [of "y - 1"] by (simp add: algebra_simps)
  with y(1) have "year_start (y - 1) \<le> day" by linarith
  moreover have "146097 * y + 291798 \<le> 400 * year_start (y + 1 + 1)"
    using year_start_near(2) [of "y + 1 + 1"] by (simp add: algebra_simps)
  with y(2) have "day < year_start (y + 1 + 1)" by linarith
  ultimately show ?thesis by (auto simp: year_of_def y_def [symmetric])
qed

lemma locate_bounds:
  assumes "locate m yday ns = (m', d)" and "0 \<le> yday" and "yday < sum_list ns"
  shows "m \<le> m' \<and> nat (m' - m) < length ns \<and> 1 \<le> d \<and> d \<le> ns ! nat (m' - m) \<and>
    sum_list (take (nat (m' - m)) ns) + d - 1 = yday"
  using assms
proof (induction ns arbitrary: m yday)
  case (Cons n ns)
  show ?case
  proof (cases "yday < n")
    case True
    with Cons.prems show ?thesis by auto
  next
    case False
    with Cons.prems Cons.IH [of "m + 1" "yday - n"] have "m + 1 \<le> m'" and
      ih: "nat (m' - (m + 1)) < length ns" "1 \<le> d" "d \<le> ns ! nat (m' - (m + 1))"
        "sum_list (take (nat (m' - (m + 1))) ns) + d - 1 = yday - n" by auto
    moreover from this(1) have "nat (m' - m) = Suc (nat (m' - (m + 1)))" by simp
    ultimately show ?thesis by simp
  qed
qed simp

lemma date_of_bounds:
  assumes "date_of day = (y, m, d)"
  shows "1 \<le> m \<and> m \<le> 12 \<and> 1 \<le> d \<and> d \<le> days_in y m \<and> d \<le> 31 \<and> day_of y m d = day"
proof -
  from assms have y: "y = year_of day" and l: "locate 1 (day - year_start y) (month_lens y) = (m, d)"
    by (auto simp: date_of_def Let_def)
  have "sum_list (month_lens y) = year_start (y + 1) - year_start y"
    by (simp add: month_lens_def year_start_Suc)
  with year_of_bounds [of day] have "0 \<le> day - year_start y" "day - year_start y < sum_list (month_lens y)"
    unfolding y by auto
  note b = locate_bounds [OF l this]
  moreover have len: "length (month_lens y) = 12" by (simp add: month_lens_def)
  moreover have "\<forall>n\<in>set (month_lens y). n \<le> 31" by (simp add: month_lens_def)
  then have "month_lens y ! nat (m - 1) \<le> 31" using b by (meson nth_mem)
  ultimately show ?thesis by (auto simp: day_of_def days_in_def)
qed

lemma is_digit_char: "n < 10 \<Longrightarrow> is_digit (digit_char n) \<and> of_char (digit_char n) - 48 = n"
  by (simp add: is_digit_def digit_char_def)

lemma length_fixed [simp]: "length (fixed w n) = w"
  by (induction w arbitrary: n) auto

lemma digits_val_snoc: "digits_val (s @ [c]) = digits_val s * 10 + (of_char c - 48)"
  by (simp add: digits_val_def)

lemma fixed_digits: "list_all is_digit (fixed w n) \<and> digits_val (fixed w n) = n mod 10 ^ w"
proof (induction w arbitrary: n)
  case 0
  show ?case by (simp add: digits_val_def)
next
  case (Suc w)
  then show ?case
    using is_digit_char [of "n mod 10"] by (simp add: digits_val_snoc mod_mult2_eq)
qed

lemma parseUint_fixed:
  assumes "lo \<le> v" and "v \<le> hi" and "0 \<le> v" and "v < 10 ^ w"
  shows "parseUint (fixed w (nat v)) lo hi = Some v"
proof -
  have "nat v < 10 ^ w" using assms(4) by (metis assms(3) nat_less_iff of_nat_numeral of_nat_power)
  then show ?thesis using assms fixed_digits [of w "nat v"] by (simp add: parseUint_def)
qed

lemma length_two: "length xs = 2 \<Longrightarrow> \<exists>a b. xs = [a, b]"
  by (auto simp: numeral_2_eq_2 length_Suc_conv)

lemma length_four: "length xs = 4 \<Longrightarrow> \<exists>a b c d. xs = [a, b, c, d]"
  by (auto simp: eval_nat_numeral length_Suc_conv)

lemma plain_zone: "fraction ''Z'' = (0, ''Z'')" "zone ''Z'' = Some 0"
  by (simp_all add: fraction_def zone_def)

text \<open>What is written for a time within the years the format covers is read back to the second.\<close>

lemma Parse_Format:
  assumes "0 \<le> year_of (t div Second div 86400 + zero_day)" and "year_of (t div Second div 86400 + zero_day) \<le> 9999"
  shows "ParseRFC3339 (FormatRFC3339 t) = Some (Truncate_sec t)"
proof -
  define secs where "secs = t div Second"
  define s where "s = secs mod 86400"
  obtain y m d where dt: "date_of (secs div 86400 + zero_day) = (y, m, d)" by (metis prod_cases3)
  note b = date_of_bounds [OF dt]
  have y: "0 \<le> y" "y \<le> 9999" using assms dt by (auto simp: date_of_def secs_def Let_def)
  have s: "0 \<le> s" "s < 86400" by (simp_all add: s_def)
  define hh ii ss where "hh = s div 3600" and "ii = s mod 3600 div 60" and "ss = s mod 60"
  have hms: "0 \<le> hh" "hh \<le> 23" "0 \<le> ii" "ii \<le> 59" "0 \<le> ss" "ss \<le> 59"
    using s by (auto simp: hh_def ii_def ss_def)
  have sum: "hh * 3600 + ii * 60 + ss = s"
  proof -
    have "s mod 3600 mod 60 = s mod 60" by (rule mod_mod_cancel) simp
    then have "ii * 60 + ss = s mod 3600" unfolding ii_def ss_def by (metis div_mult_mod_eq)
    then show ?thesis unfolding hh_def by (simp only: add.assoc div_mult_mod_eq)
  qed
  let ?Y = "fixed 4 (nat y)" and ?M = "fixed 2 (nat m)" and ?D = "fixed 2 (nat d)" and
    ?h = "fixed 2 (nat hh)" and ?i = "fixed 2 (nat ii)" and ?s = "fixed 2 (nat ss)"
  have f: "FormatRFC3339 t = ?Y @ ''-'' @ ?M @ ''-'' @ ?D @ ''T'' @ ?h @ '':'' @ ?i @ '':'' @ ?s @ ''Z''"
    using dt y by (simp add: FormatRFC3339_def Let_def secs_def s_def format_year_def hh_def ii_def ss_def)
  have p: "parseUint ?Y 0 9999 = Some y" "parseUint ?M 1 12 = Some m" "parseUint ?D 1 (days_in y m) = Some d"
    "parseUint ?h 0 23 = Some hh" "parseUint ?i 0 59 = Some ii" "parseUint ?s 0 59 = Some ss"
    using y b hms by (auto intro!: parseUint_fixed)
  obtain y1 y2 y3 y4 where cY: "?Y = [y1, y2, y3, y4]" using length_fixed [of 4] by (metis length_four)
  obtain m1 m2 where cM: "?M = [m1, m2]" by (metis length_two length_fixed)
  obtain d1 d2 where cD: "?D = [d1, d2]" by (metis length_two length_fixed)
  obtain h1 h2 where ch: "?h = [h1, h2]" by (metis length_two length_fixed)
  obtain i1 i2 where ci: "?i = [i1, i2]" by (metis length_two length_fixed)
  obtain s1 s2 where cs: "?s = [s1, s2]" by (metis length_two length_fixed)
  have "ParseRFC3339 (FormatRFC3339 t) =
      Some (((day_of y m d - zero_day) * 86400 + hh * 3600 + ii * 60 + ss) * Second)"
    using p [unfolded cY cM cD ch ci cs] unfolding f cY cM cD ch ci cs ParseRFC3339_def
    by (simp add: plain_zone)
  moreover have "(day_of y m d - zero_day) * 86400 + hh * 3600 + ii * 60 + ss = secs"
  proof -
    have "day_of y m d - zero_day = secs div 86400" using b by simp
    moreover have "secs div 86400 * 86400 + s = secs" by (simp only: s_def div_mult_mod_eq)
    ultimately show ?thesis using sum by (simp only: add.assoc)
  qed
  ultimately show ?thesis by (simp add: Truncate_sec_def secs_def minus_mod_eq_div_mult)
qed

end
