(* ===== verification/Httpapi.thy ===== *)
theory Httpapi
  imports Login Enrollment Issuer Net_Addr Base64_Std Rfc3339
begin

text \<open>
  The control plane's HTTP interface (\<open>internal/control/httpapi\<close>): what each route does with a request
  whose body has been decoded. A handler takes the server, the environment of the request (which
  database calls fail, the times read, the random bytes drawn) and the request, and returns the reply
  with the new database; logging out also returns the relay it told. The TLS layer has verified the
  chain of a client certificate if there is one; JSON, routing and the listener are the library's.
\<close>

section \<open>Requests and replies\<close>

definition StatusBadRequest :: nat where "StatusBadRequest = 400"
definition StatusUnauthorized :: nat where "StatusUnauthorized = 401"
definition StatusForbidden :: nat where "StatusForbidden = 403"
definition StatusInternalServerError :: nat where "StatusInternalServerError = 500"
definition StatusNotImplemented :: nat where "StatusNotImplemented = 501"

text \<open>The first client certificate, the address of the peer, the \<open>Authorization\<close> header and the body
  (\<^const>\<open>None\<close> when it does not decode within the limit).\<close>

record ('pk, 'b) http_request =
  hq_cert :: "'pk cert option"
  hq_RemoteAddr :: string
  hq_Authorization :: string
  hq_body :: "'b option"

record 'pem enroll_request =
  eq_Token :: string
  eq_CSR :: 'pem

record 'pem enroll_response =
  ep_Certificate :: 'pem
  ep_CA :: 'pem
  ep_Identity :: string
  ep_NotAfter :: string
  ep_GrantKey :: string

record login_response =
  lp_Token :: string
  lp_SessionID :: string
  lp_UserID :: string
  lp_ExpiresAt :: string

record logout_response =
  op_SessionID :: string
  op_GrantsRevoked :: nat

text \<open>\<open>TTLSeconds\<close> is a Go \<open>int\<close>.\<close>

record grant_request =
  gq_DeviceID :: string
  gq_ResourceID :: string
  gq_TTLSeconds :: int

record grant_response =
  gp_Grant :: string
  gp_GrantID :: string
  gp_ExpiresAt :: string
  gp_PolicyID :: string
  gp_SessionID :: string

text \<open>A reply: a status with either an error message or a value.\<close>

datatype 'a http_reply = HttpError nat string | HttpOK 'a

section \<open>The server\<close>

record ('gk, 'r) http_config =
  hc_TLS :: bool
  hc_Issuer :: "'gk issuer option"
  hc_Rules :: "rule list option"
  hc_Login :: "duration option"
  hc_Audit :: bool
  hc_Terminate :: "(string list \<Rightarrow> 'r \<Rightarrow> 'r) option"

record ('pk, 'sk, 'der, 'gk, 'r) http_server =
  hs_enroll :: "('pk, 'sk, 'der) service"
  hs_issuer :: "'gk issuer option"
  hs_login :: "duration option"
  hs_audit :: bool
  hs_rules :: "rule list"
  hs_terminate :: "(string list \<Rightarrow> 'r \<Rightarrow> 'r) option"

definition http_New ::
  "('gk, 'r) http_config \<Rightarrow> ('pk, 'sk, 'der) service \<Rightarrow> string + ('pk, 'sk, 'der, 'gk, 'r) http_server" where
  "http_New cfg enroll =
    (if \<not> hc_TLS cfg then Inl ''httpapi: refusing to serve enrollment without TLS''
     else
       let rules = (case hc_Rules cfg of None \<Rightarrow> [] | Some rs \<Rightarrow> rs) in
       Inr \<lparr>hs_enroll = enroll, hs_issuer = hc_Issuer cfg, hs_login = hc_Login cfg, hs_audit = hc_Audit cfg,
            hs_rules = rules, hs_terminate = hc_Terminate cfg\<rparr>)"

text \<open>The environment of a request: how looking up and promoting the presented identity goes, the
  recorder of the handler's own audit event, how resolving the session goes and when, and the
  database calls, clock readings and random bytes of the operation itself.\<close>

record http_env =
  he_lookup :: bool
  he_promote :: faults
  he_rec :: recorder
  he_resolve :: bool
  he_now :: time
  he_faults :: "nat \<Rightarrow> faults"
  he_times :: "nat \<Rightarrow> time"
  he_rand :: "nat \<Rightarrow> byte list option"

section \<open>Who is asking\<close>

definition bearerPrefix :: string where "bearerPrefix = ''Bearer ''"

text \<open>\<open>strings.EqualFold\<close> against a string whose letters have no case variants beyond ASCII.\<close>

definition lower :: "char \<Rightarrow> char" where
  "lower c = (let n = (of_char c :: nat) in if 65 \<le> n \<and> n \<le> 90 then char_of (n + 32) else c)"

definition EqualFold :: "string \<Rightarrow> string \<Rightarrow> bool" where
  "EqualFold s t \<longleftrightarrow> map lower s = map lower t"

definition bearerToken :: "('pk, 'b) http_request \<Rightarrow> string" where
  "bearerToken r =
    (let v = hq_Authorization r in
     if length v \<le> length bearerPrefix \<or> \<not> EqualFold (take (length bearerPrefix) v) bearerPrefix then ''''
     else TrimSpace (drop (length bearerPrefix) v))"

definition remoteHost :: "('pk, 'b) http_request \<Rightarrow> string" where
  "remoteHost r = (case SplitHostPort (hq_RemoteAddr r) of Inl e \<Rightarrow> hq_RemoteAddr r | Inr (host, port) \<Rightarrow> host)"

text \<open>A refusal is the status and message the handler replies with.\<close>

definition authenticateOperator ::
  "('pk, 'sk, 'der, 'gk, 'r) http_server \<Rightarrow> http_env \<Rightarrow> ('pk, 'b) http_request \<Rightarrow> string \<Rightarrow> db \<Rightarrow>
     (nat \<times> string + identity) \<times> db" where
  "authenticateOperator s env r deniedEvent d =
    (let deny = (\<lambda>status msg reason d.
           (Inl (status, msg),
            if deniedEvent \<noteq> '''' \<and> hs_audit s then
              Record (he_rec env) (no_event\<lparr>e_Event := deniedEvent, e_ActorRole := RoleSystem,
                e_Reason := reason, e_Detail := ''from '' @ remoteHost r\<rparr>) d
            else d)) in
     case hq_cert r of
       None \<Rightarrow> deny StatusUnauthorized ''a client certificate is required'' ''no_certificate'' d
     | Some c \<Rightarrow>
       (case VerifyEnrolled (he_lookup env) (he_promote env) c d of
          (Inl e, d1) \<Rightarrow> deny StatusForbidden ''not recognised'' ''not_enrolled'' d1
        | (Inr i, d1) \<Rightarrow>
            if n_Role i \<noteq> RoleOperatorCert then deny StatusForbidden ''not an operator'' ''not_an_operator'' d1
            else (Inr i, d1)))"

definition requireSession ::
  "sha \<Rightarrow> http_env \<Rightarrow> ('pk, 'b) http_request \<Rightarrow> identity \<Rightarrow> db \<Rightarrow> nat \<times> string + session_record" where
  "requireSession sha256 env r i d =
    (let token = bearerToken r in
     if token = '''' then Inl (StatusUnauthorized, ''a session is required; run login first'')
     else case Resolve sha256 (he_resolve env) (he_now env) token d of
       Inl e \<Rightarrow>
         if e = ErrSessionExpired then Inl (StatusUnauthorized, ''session expired; run login again'')
         else if e = ErrSessionRevoked then Inl (StatusForbidden, ''session was revoked'')
         else Inl (StatusUnauthorized, ''session not recognised'')
     | Inr rec \<Rightarrow>
         if sr_UserID rec \<noteq> n_ID i then Inl (StatusForbidden, ''session not recognised'') else Inr rec)"

section \<open>The routes\<close>

definition recordEnrollDenied ::
  "('pk, 'sk, 'der, 'gk, 'r) http_server \<Rightarrow> http_env \<Rightarrow> ('pk, 'b) http_request \<Rightarrow> string \<Rightarrow> db \<Rightarrow> db" where
  "recordEnrollDenied s env r reason d =
    (if \<not> hs_audit s then d else EnrollDenied (he_rec env) (remoteHost r) reason d)"

text \<open>\<open>raw\<close> is a public key as the bytes it is in Go.\<close>

definition enroll_reply_for :: "('pk \<Rightarrow> byte list) \<Rightarrow> ('pk, 'pem) enrolled \<Rightarrow> 'pem enroll_response" where
  "enroll_reply_for raw result =
    \<lparr>ep_Certificate = en_CertificatePEM result, ep_CA = en_CAPEM result,
     ep_Identity = Identity_String (en_Identity result), ep_NotAfter = FormatRFC3339 (en_NotAfter result),
     ep_GrantKey = StdEncode (raw (en_GrantPublicKey result))\<rparr>"

definition handleEnroll ::
  "sha \<Rightarrow> ('pk, 'sk, 'pem, 'der) x509 \<Rightarrow> ('pk \<Rightarrow> byte list) \<Rightarrow> ('pk, 'sk, 'der, 'gk, 'r) http_server \<Rightarrow> http_env \<Rightarrow>
     nat option \<Rightarrow> ('pk, 'pem enroll_request) http_request \<Rightarrow> db \<Rightarrow> 'pem enroll_response http_reply \<times> db" where
  "handleEnroll sha256 lib raw s env serial r d =
    (case hq_body r of
       None \<Rightarrow> (HttpError StatusBadRequest ''malformed request'', d)
     | Some req \<Rightarrow>
       (case Enroll sha256 lib (hs_enroll s) (he_faults env) (he_times env) serial (eq_Token req) (eq_CSR req) d of
          (Inl e, d1) \<Rightarrow>
            if e \<in> {EnrollStore ErrTokenUnknown, EnrollStore ErrTokenConsumed, EnrollStore ErrTokenExpired} then
              (HttpError StatusForbidden ''enrollment refused'', recordEnrollDenied s env r ''token_refused'' d1)
            else if e = ErrInvalidCSR then
              (HttpError StatusBadRequest ''invalid certificate request'', recordEnrollDenied s env r ''invalid_csr'' d1)
            else (HttpError StatusInternalServerError ''enrollment failed'', d1)
        | (Inr result, d1) \<Rightarrow>
            (HttpOK (enroll_reply_for raw result),
             if hs_audit s then
               Enrolled (he_rec env) (n_Role (en_Identity result)) (n_ID (en_Identity result))
                 (''from '' @ remoteHost r @ '', certificate valid until '' @ FormatRFC3339 (en_NotAfter result)) d1
             else d1)))"

definition recordRenewDenied ::
  "('pk, 'sk, 'der, 'gk, 'r) http_server \<Rightarrow> http_env \<Rightarrow> ('pk, 'b) http_request \<Rightarrow> string \<Rightarrow> db \<Rightarrow> db" where
  "recordRenewDenied s env r reason d =
    (if \<not> hs_audit s then d
     else Record (he_rec env) (no_event\<lparr>e_Event := EventRenewDenied, e_ActorRole := RoleSystem,
       e_Reason := reason, e_Detail := ''from '' @ remoteHost r\<rparr>) d)"

definition handleRenew ::
  "('pk, 'sk, 'pem, 'der) x509 \<Rightarrow> ('pk \<Rightarrow> byte list) \<Rightarrow> ('pk, 'sk, 'der, 'gk, 'r) http_server \<Rightarrow> http_env \<Rightarrow>
     nat option \<Rightarrow> ('pk, 'pem) http_request \<Rightarrow> db \<Rightarrow> 'pem enroll_response http_reply \<times> db" where
  "handleRenew lib raw s env serial r d =
    (case hq_cert r of
       None \<Rightarrow> (HttpError StatusUnauthorized ''a client certificate is required'', d)
     | Some c \<Rightarrow>
       (case hq_body r of
          None \<Rightarrow> (HttpError StatusBadRequest ''malformed request'', d)
        | Some csr \<Rightarrow>
          (case Renew lib (hs_enroll s) (he_faults env) (he_times env) serial c csr d of
             (Inl e, d1) \<Rightarrow>
               if e = EnrollStore ErrRevoked \<or> e = EnrollStore ErrNotEnrolled then
                 (HttpError StatusForbidden ''not recognised'', recordRenewDenied s env r ''not_recognised'' d1)
               else if e = ErrInvalidCSR then
                 (HttpError StatusBadRequest ''invalid certificate request'', recordRenewDenied s env r ''invalid_csr'' d1)
               else (HttpError StatusInternalServerError ''renewal failed'', d1)
           | (Inr result, d1) \<Rightarrow>
               (HttpOK (enroll_reply_for raw result),
                if hs_audit s then
                  Renewed (he_rec env) (n_Role (en_Identity result)) (n_ID (en_Identity result))
                    (''from '' @ remoteHost r @ '', valid until '' @ FormatRFC3339 (en_NotAfter result)) d1
                else d1))))"

text \<open>The body of a login request is decoded into a value that nothing reads.\<close>

definition handleLogin ::
  "sha \<Rightarrow> ('pk, 'sk, 'der, 'gk, 'r) http_server \<Rightarrow> http_env \<Rightarrow> ('pk, 'b) http_request \<Rightarrow> db \<Rightarrow>
     login_response http_reply \<times> db" where
  "handleLogin sha256 s env r d =
    (case hs_login s of
       None \<Rightarrow> (HttpError StatusNotImplemented ''sessions are not configured'', d)
     | Some ttl \<Rightarrow>
       (case authenticateOperator s env r EventOperatorLoginDenied d of
          (Inl (status, msg), d1) \<Rightarrow> (HttpError status msg, d1)
        | (Inr i, d1) \<Rightarrow>
          (case Begin sha256 ttl (he_faults env 0) (he_rand env 0) (he_rand env 1) (he_times env 0) (he_times env 1)
                  (n_ID i) (remoteHost r) d1 of
             (Inl e, d2) \<Rightarrow> (HttpError StatusInternalServerError ''could not open a session'', d2)
           | (Inr sess, d2) \<Rightarrow>
               (HttpOK \<lparr>lp_Token = ln_Token sess, lp_SessionID = sr_SessionID (ln_Record sess),
                        lp_UserID = sr_UserID (ln_Record sess),
                        lp_ExpiresAt = FormatRFC3339 (sr_ExpiresAt (ln_Record sess))\<rparr>, d2))))"

definition dropRevoked ::
  "('pk, 'sk, 'der, 'gk, 'r) http_server \<Rightarrow> grant_record list \<Rightarrow> 'r \<Rightarrow> 'r" where
  "dropRevoked s revoked rl =
    (case hs_terminate s of
       None \<Rightarrow> rl
     | Some term \<Rightarrow> if length revoked = 0 then rl else term (map gr_GrantID revoked) rl)"

definition handleLogout ::
  "sha \<Rightarrow> ('pk, 'sk, 'der, 'gk, 'r) http_server \<Rightarrow> http_env \<Rightarrow> ('pk, 'b) http_request \<Rightarrow> db \<Rightarrow> 'r \<Rightarrow>
     logout_response http_reply \<times> db \<times> 'r" where
  "handleLogout sha256 s env r d rl =
    (case hs_login s of
       None \<Rightarrow> (HttpError StatusNotImplemented ''sessions are not configured'', d, rl)
     | Some ttl \<Rightarrow>
       (case authenticateOperator s env r '''' d of
          (Inl (status, msg), d1) \<Rightarrow> (HttpError status msg, d1, rl)
        | (Inr i, d1) \<Rightarrow>
          (case Resolve sha256 (he_resolve env) (he_now env) (bearerToken r) d1 of
             Inl e \<Rightarrow> (HttpOK \<lparr>op_SessionID = '''', op_GrantsRevoked = 0\<rparr>, d1, rl)
           | Inr rec \<Rightarrow>
               if sr_UserID rec \<noteq> n_ID i then (HttpError StatusForbidden ''not your session'', d1, rl)
               else (case End_session (he_faults env) (he_times env) (sr_SessionID rec) (n_ID i) ReasonLogout d1 of
                  (Inl e, d2) \<Rightarrow> (HttpError StatusInternalServerError ''could not end the session'', d2, rl)
                | (Inr revoked, d2) \<Rightarrow>
                    (HttpOK \<lparr>op_SessionID = sr_SessionID rec, op_GrantsRevoked = length revoked\<rparr>,
                     d2, dropRevoked s revoked rl)))))"

text \<open>\<open>time.Duration(req.TTLSeconds) * time.Second\<close> wraps at 64 bits.\<close>

definition request_ttl :: "grant_request \<Rightarrow> duration" where
  "request_ttl req =
    (let ttl = sint (word_of_int (gq_TTLSeconds req * Second) :: u64) in
     if ttl \<le> 0 then MaxGrantTTL else ttl)"

definition issue_request :: "identity \<Rightarrow> grant_request \<Rightarrow> string \<Rightarrow> request" where
  "issue_request i req sessionID =
    \<lparr>q_OrgID = '''', q_UserID = n_ID i, q_DeviceID = gq_DeviceID req, q_ResourceID = gq_ResourceID req,
     q_RequestedTTL = request_ttl req, q_MaxBytes = 0, q_SessionID = sessionID\<rparr>"

definition handleGrant ::
  "sha \<Rightarrow> ('gk \<Rightarrow> byte list \<Rightarrow> byte list) \<Rightarrow> ('pk, 'sk, 'der, 'gk, 'r) http_server \<Rightarrow> http_env \<Rightarrow>
     ('pk, grant_request) http_request \<Rightarrow> db \<Rightarrow> grant_response http_reply \<times> db" where
  "handleGrant sha256 ed_sign s env r d =
    (case hs_issuer s of
       None \<Rightarrow> (HttpError StatusNotImplemented ''grants are not configured'', d)
     | Some iss \<Rightarrow>
       (case authenticateOperator s env r EventGrantDenied d of
          (Inl (status, msg), d1) \<Rightarrow> (HttpError status msg, d1)
        | (Inr i, d1) \<Rightarrow>
          (case (if hs_login s = None then Inr ''''
                 else case requireSession sha256 env r i d1 of Inl e \<Rightarrow> Inl e | Inr sess \<Rightarrow> Inr (sr_SessionID sess)) of
             Inl (status, msg) \<Rightarrow> (HttpError status msg, d1)
           | Inr sessionID \<Rightarrow>
             (case hq_body r of
                None \<Rightarrow> (HttpError StatusBadRequest ''malformed request'', d1)
              | Some req \<Rightarrow>
                (case Issue ed_sign iss (he_faults env 0) (he_rand env 0) (he_times env 0) (he_times env 1) (hs_rules s)
                        (issue_request i req sessionID) d1 of
                   (Inl e, decision, d2) \<Rightarrow>
                     if e = ErrDenied then (HttpError StatusForbidden ReasonPolicyDenied, d2)
                     else (HttpError StatusInternalServerError ''could not issue a grant'', d2)
                 | (Inr sg, decision, d2) \<Rightarrow>
                     (HttpOK \<lparr>gp_Grant = StdEncode (SignedGrant_Encode sg), gp_GrantID = g_GrantID sg,
                              gp_ExpiresAt = FormatRFC3339 (g_ExpiresAt sg), gp_PolicyID = d_PolicyID decision,
                              gp_SessionID = sessionID\<rparr>, d2))))))"

section \<open>Lemmas\<close>

lemma VerifyEnrolled_tables:
  "grants (snd (VerifyEnrolled b f c d)) = grants d" "operator_sessions (snd (VerifyEnrolled b f c d)) = operator_sessions d"
  by (auto simp: VerifyEnrolled_def PromoteSerial_def Let_def split: sum.split)

lemma VerifyEnrolled_run: "\<exists>cs. snd (VerifyEnrolled b f c d) = run cs d"
proof (cases "IdentityOf c")
  case (Inl e)
  then have "snd (VerifyEnrolled b f c d) = run [] d" by (simp add: VerifyEnrolled_def)
  then show ?thesis by blast
next
  case (Inr i)
  let ?s = "hex_nat (c_SerialNumber c)"
  have "snd (VerifyEnrolled b f c d) = run [] d \<or>
      snd (VerifyEnrolled b f c d) = run [CPromoteSerial f (n_Role i) (n_ID i) ?s] d"
    using Inr by (auto simp: VerifyEnrolled_def Let_def split: sum.split prod.split)
  then show ?thesis by blast
qed

lemma authenticateOperator_Inr:
  assumes "authenticateOperator s env r ev d = (Inr i, d1)"
  obtains c where "hq_cert r = Some c" and "VerifyEnrolled (he_lookup env) (he_promote env) c d = (Inr i, d1)"
    and "n_Role i = RoleOperatorCert"
  using assms by (auto simp: authenticateOperator_def Let_def split: option.splits sum.splits prod.splits if_splits)

lemma authenticateOperator_tables:
  "grants (snd (authenticateOperator s env r ev d)) = grants d"
  "operator_sessions (snd (authenticateOperator s env r ev d)) = operator_sessions d"
proof -
  have "grants (snd (VerifyEnrolled (he_lookup env) (he_promote env) c d)) = grants d \<and>
      operator_sessions (snd (VerifyEnrolled (he_lookup env) (he_promote env) c d)) = operator_sessions d" for c :: "'a cert"
    by (simp add: VerifyEnrolled_tables)
  then show "grants (snd (authenticateOperator s env r ev d)) = grants d"
    "operator_sessions (snd (authenticateOperator s env r ev d)) = operator_sessions d"
    by (auto simp: authenticateOperator_def Let_def split: option.split sum.split prod.split) (metis snd_conv)+
qed

text \<open>A session a token resolves to is live.\<close>

lemma Resolve_Inr:
  assumes "Resolve sha256 failed now token d = Inr rec"
  shows "\<exists>x\<in>set (operator_sessions d). rec = session_of x \<and> s_token_hash x = HashToken sha256 token \<and>
    s_revoked_at x = None \<and> now \<le> fromUnix (s_expires_at x)"
  using assms
  by (auto simp: Resolve_def LookupSession_def Let_def session_of_def fromNullUnix_def find_Some_iff
      split: if_splits option.splits)

lemma requireSession_Inr:
  assumes "requireSession sha256 env r i d = Inr rec"
  shows "Resolve sha256 (he_resolve env) (he_now env) (bearerToken r) d = Inr rec" and "sr_UserID rec = n_ID i"
  using assms by (auto simp: requireSession_def Let_def split: if_splits sum.splits)

lemma handleGrant_OK:
  assumes "handleGrant sha256 ed_sign s env r d = (HttpOK p, d')" and "hs_login s \<noteq> None"
  obtains iss i d1 sess req sg dec where "hs_issuer s = Some iss"
    and "authenticateOperator s env r EventGrantDenied d = (Inr i, d1)"
    and "requireSession sha256 env r i d1 = Inr sess" and "hq_body r = Some req"
    and "Issue ed_sign iss (he_faults env 0) (he_rand env 0) (he_times env 0) (he_times env 1) (hs_rules s)
      (issue_request i req (sr_SessionID sess)) d1 = (Inr sg, dec, d')"
    and "gp_Grant p = StdEncode (SignedGrant_Encode sg)"
  using assms
  by (auto simp: handleGrant_def split: option.splits sum.splits prod.splits if_splits)

lemma handleGrant_Error:
  assumes "handleGrant sha256 ed_sign s env r d = (HttpError st msg, d')"
  shows "live d' = live d"
proof -
  obtain x d1 where a: "authenticateOperator s env r EventGrantDenied d = (x, d1)" by force
  have "d' = d \<or> d' = d1 \<or>
      (\<exists>iss req e dec. Issue ed_sign iss (he_faults env 0) (he_rand env 0) (he_times env 0) (he_times env 1) (hs_rules s) req d1
        = (Inl e, dec, d'))"
    using assms unfolding handleGrant_def a prod.case
    by (auto split: option.splits sum.splits prod.splits if_splits)
  moreover have "grants d1 = grants d" using authenticateOperator_tables(1) [of s env r EventGrantDenied d] a by simp
  ultimately have "grants d' = grants d" using Issue_refused(1) by metis
  then show ?thesis by (rule live_cong)
qed

lemma handleLogout_OK:
  assumes "handleLogout sha256 s env r d rl = (HttpOK p, d', rl')" and "op_SessionID p \<noteq> ''''"
  obtains i d1 rec revoked where "authenticateOperator s env r '''' d = (Inr i, d1)"
    and "Resolve sha256 (he_resolve env) (he_now env) (bearerToken r) d1 = Inr rec" and "sr_UserID rec = n_ID i"
    and "op_SessionID p = sr_SessionID rec"
    and "End_session (he_faults env) (he_times env) (sr_SessionID rec) (n_ID i) ReasonLogout d1 = (Inr revoked, d')"
    and "rl' = dropRevoked s revoked rl"
  using assms by (auto simp: handleLogout_def split: option.splits sum.splits prod.splits if_splits)

section \<open>Issuing grants over HTTP\<close>


definition demo_op_cert :: "nat cert" where
  "demo_op_cert = leaf_template 1 \<lparr>n_Role = ''operator'', n_ID = ''u''\<rparr> 0 0"

definition demo_http_db :: db where
  "demo_http_db = empty_db
     \<lparr>identities := [\<lparr>i_role = ''operator'', i_id = ''u'', i_enrolled_at = 0, i_serial_hex = ''1'', i_revoked_at = None,
        i_pending_serial_hex = [], i_pending_issued_at = None\<rparr>],
      operator_sessions := [\<lparr>s_session_id = ''ses_1'', s_token_hash = [], s_user_id = ''u'', s_created_at = 0,
        s_expires_at = unix (3600 * Second), s_revoked_at = None, s_remote = []\<rparr>]\<rparr>"

definition demo_server :: "(string list \<Rightarrow> 'r \<Rightarrow> 'r) option \<Rightarrow> (nat, nat, nat cert, u8, 'r) http_server" where
  "demo_server term = \<lparr>hs_enroll = demo_service, hs_issuer = Some demo_issuer, hs_login = Some Hour, hs_audit = True,
     hs_rules = [demo_rule], hs_terminate = term\<rparr>"

definition demo_env :: "(nat \<Rightarrow> faults) \<Rightarrow> http_env" where
  "demo_env fl = \<lparr>he_lookup = False, he_promote = \<lambda>_. False,
     he_rec = \<lparr>rec_store = True, rec_fails = \<lambda>_. False, rec_now = 60 * Second\<rparr>,
     he_resolve = False, he_now = 60 * Second, he_faults = fl, he_times = \<lambda>_. 60 * Second, he_rand = \<lambda>_. Some [1, 2]\<rparr>"

definition demo_req :: "'b \<Rightarrow> (nat, 'b) http_request" where
  "demo_req body = \<lparr>hq_cert = Some demo_op_cert, hq_RemoteAddr = ''192.0.2.1:9'', hq_Authorization = ''bearer t'',
     hq_body = Some body\<rparr>"

lemma demo_sel [simp]: "hs_login (demo_server term) = Some Hour" "he_resolve (demo_env fl) = False"
  "he_now (demo_env fl) = 60 * Second" "he_faults (demo_env fl) = fl" "he_times (demo_env fl) = (\<lambda>_. 60 * Second)"
  by (simp_all add: demo_server_def demo_env_def)

lemma demo_op_identity: "IdentityOf demo_op_cert = Inr \<lparr>n_Role = ''operator'', n_ID = ''u''\<rparr>"
  "hex_nat (c_SerialNumber demo_op_cert) = ''1''"
  by (simp_all add: IdentityOf_def demo_op_cert_def leaf_template_def Identity_URI_def TrimPrefix_def HasPrefix_def
      RoleDeviceCert_def RoleOperatorCert_def identityScheme_def hex_nat_1)

lemma demo_bearer: "bearerToken (demo_req body) = ''t''"
  by (simp add: bearerToken_def demo_req_def bearerPrefix_def EqualFold_def lower_def TrimSpace_def ascii_space_def Let_def
      char_of_def bit_iff_odd)

lemma demo_times: "fromUnix (unix (3600 * Second)) = 3600 * Second" "unix (60 * Second) < unix (3600 * Second)"
proof -
  show "fromUnix (unix (3600 * Second)) = 3600 * Second"
    by (simp add: time_ok_def Truncate_sec_def Second_def)
  show "unix (60 * Second) < unix (3600 * Second)"
    by (simp add: unix_sane time_sane_def Second_def)
qed

lemma demo_authenticated:
  assumes "identities d = identities demo_http_db"
  shows "authenticateOperator (demo_server term) (demo_env fl) (demo_req body) ev d = (Inr \<lparr>n_Role = ''operator'', n_ID = ''u''\<rparr>, d)"
  using assms
  by (simp add: authenticateOperator_def demo_req_def demo_env_def VerifyEnrolled_def demo_op_identity Lookup_def
      lookupAny_def record_of_def demo_http_db_def RoleOperatorCert_def Let_def)

lemma demo_session:
  "Resolve (\<lambda>_. []) False (60 * Second) ''t'' (demo_http_db\<lparr>grants := gs\<rparr>) =
    Inr (session_of (hd (operator_sessions demo_http_db)))"
  by (simp add: Resolve_def LookupSession_def HashToken_def demo_http_db_def session_of_def fromNullUnix_def demo_times
      Second_def [symmetric] Let_def)

lemma demo_handleGrant:
  "\<exists>p d'. handleGrant (\<lambda>_. []) keyed_sign (demo_server None :: (nat, nat, nat cert, u8, unit) http_server) (demo_env (\<lambda>_ _. False))
       (demo_req \<lparr>gq_DeviceID = ''d'', gq_ResourceID = ''x'', gq_TTLSeconds = 60\<rparr>) demo_http_db = (HttpOK p, d')"
proof -
  let ?q = "\<lparr>gq_DeviceID = ''d'', gq_ResourceID = ''x'', gq_TTLSeconds = 60\<rparr>"
  let ?i = "\<lparr>n_Role = ''operator'', n_ID = ''u''\<rparr>" and ?r = "demo_req ?q" and ?e = "demo_env (\<lambda>_ _. False)"
  let ?s = "demo_server None :: (nat, nat, nat cert, u8, unit) http_server"
  have a: "authenticateOperator ?s ?e ?r EventGrantDenied demo_http_db = (Inr ?i, demo_http_db)"
    by (rule demo_authenticated) simp
  define sess where "sess = session_of (hd (operator_sessions demo_http_db))"
  have sess: "sr_SessionID sess = ''ses_1''" "sr_UserID sess = ''u''"
    by (simp_all add: sess_def demo_http_db_def session_of_def)
  have ses: "requireSession (\<lambda>_. []) ?e ?r ?i demo_http_db = Inr sess"
    using demo_session [of "grants demo_http_db"] sess
    by (simp add: requireSession_def demo_bearer demo_env_def sess_def [symmetric])
  let ?q' = "issue_request ?i ?q ''ses_1''"
  define dec where "dec = Evaluate [demo_rule] (q_UserID ?q') (q_DeviceID ?q') (q_ResourceID ?q')"
  have d: "d_Allowed dec" "d_MaxTTL dec = MaxGrantTTL"
    using demo_decision by (simp_all add: dec_def issue_request_def)
  have ttl: "issue_ttl ?q' dec = 60 * Second"
    using d by (simp add: issue_ttl_def issue_request_def request_ttl_def MaxGrantTTL_def Minute_def Second_def)
  have "\<exists>sg. Sign keyed_sign (grant_for demo_issuer (''grn_'' @ hex_encode [1, 2]) (Truncate_sec (60 * Second)) (issue_ttl ?q' dec) ?q')
      (is_key demo_issuer) = Inr sg"
    unfolding ttl
    by (simp add: Sign_Inr_iff grant_signable_def grant_for_def issue_request_def MaxGrantTTL_def Minute_def Second_def)
  then obtain sg where sg: "Sign keyed_sign (grant_for demo_issuer (''grn_'' @ hex_encode [1, 2]) (Truncate_sec (60 * Second))
      (issue_ttl ?q' dec) ?q') (is_key demo_issuer) = Inr sg" by blast
  have "fst (RecordGrant (\<lambda>_. False) (60 * Second) (record_for sg dec ?q') (event_for sg dec ?q') demo_http_db) = Inr ()"
    by (simp add: RecordGrant_def record_for_def event_for_def issue_request_def demo_http_db_def empty_db_def appendAudit_def
        event_defs no_event_def maxSeq_def grant_row_of_def foreign_key_ok_def commit_def Let_def)
  then obtain d' where rg: "RecordGrant (\<lambda>_. False) (60 * Second) (record_for sg dec ?q') (event_for sg dec ?q') demo_http_db = (Inr (), d')"
    by (metis prod.collapse)
  have st: "is_store demo_issuer" by (simp add: demo_issuer_def)
  note iss = Issue_ok [OF dec_def [symmetric] d(1) sg st rg]
  have "\<exists>p. handleGrant (\<lambda>_. []) keyed_sign ?s ?e ?r demo_http_db = (HttpOK p, d')"
    unfolding handleGrant_def a prod.case sum.case ses
    using iss sess by (simp add: demo_server_def demo_req_def demo_env_def)
  then show ?thesis by blast
qed


section \<open>A logout that fails half way is not retried\<close>

text \<open>When revoking the grants of the session fails after the session itself was revoked, the operator is
  told that the logout failed. Trying again, the operator is told that it succeeded, and the grant is
  still live.\<close>

definition demo_live_grant :: grant_row where
  "demo_live_grant = grant_row_of (demo_record\<lparr>gr_GrantID := ''g'', gr_UserID := ''u'', gr_SessionID := ''ses_1'',
     gr_ExpiresAt := 3600 * Second\<rparr>)"

lemma demo_half_ended:
  "\<exists>e d1. End_session (\<lambda>k _. k = 2) (\<lambda>_. 60 * Second) ''ses_1'' ''u'' ReasonLogout (demo_http_db\<lparr>grants := [demo_live_grant]\<rparr>)
      = (Inl e, d1) \<and> identities d1 = identities demo_http_db \<and> grants d1 = [demo_live_grant] \<and>
    operator_sessions d1 = [(hd (operator_sessions demo_http_db))\<lparr>s_revoked_at := Some (unix (60 * Second))\<rparr>]"
  by (simp add: End_session_def LookupSessionByID_def RevokeSession_def RevokeGrantsWhere_def demo_http_db_def empty_db_def
      session_of_def fromNullUnix_def appendAudit_def commit_def update_where_def maxSeq_def no_event_def event_defs
      eventForReason_def Let_def)

lemma failed_logout_not_retried:
  "\<exists>d1 d2. handleLogout (\<lambda>_. []) (demo_server None) (demo_env (\<lambda>k _. k = 2)) (demo_req ())
        (demo_http_db\<lparr>grants := [demo_live_grant]\<rparr>) rl
      = (HttpError StatusInternalServerError ''could not end the session'', d1, rl) \<and>
    handleLogout (\<lambda>_. []) (demo_server None) (demo_env (\<lambda>_ _. False)) (demo_req ()) d1 rl
      = (HttpOK \<lparr>op_SessionID = '''', op_GrantsRevoked = 0\<rparr>, d2, rl) \<and>
    live d2 ''g'' = Some demo_live_grant"
proof -
  let ?d = "demo_http_db\<lparr>grants := [demo_live_grant]\<rparr>" and ?i = "\<lparr>n_Role = ''operator'', n_ID = ''u''\<rparr>"
  obtain e d1 where end1: "End_session (\<lambda>k _. k = 2) (\<lambda>_. 60 * Second) ''ses_1'' ''u'' ReasonLogout ?d = (Inl e, d1)"
    and d1: "identities d1 = identities demo_http_db" "grants d1 = [demo_live_grant]"
      "operator_sessions d1 = [(hd (operator_sessions demo_http_db))\<lparr>s_revoked_at := Some (unix (60 * Second))\<rparr>]"
    using demo_half_ended by blast
  have ses: "sr_SessionID (session_of (hd (operator_sessions demo_http_db))) = ''ses_1''"
    "sr_UserID (session_of (hd (operator_sessions demo_http_db))) = ''u''"
    by (simp_all add: demo_http_db_def session_of_def)
  have "handleLogout (\<lambda>_. []) (demo_server None) (demo_env (\<lambda>k _. k = 2)) (demo_req ()) ?d rl
      = (HttpError StatusInternalServerError ''could not end the session'', d1, rl)"
    using end1 ses demo_session [of "[demo_live_grant]"]
    by (simp add: handleLogout_def demo_authenticated demo_bearer)
  moreover have "Resolve (\<lambda>_. []) False (60 * Second) ''t'' d1 = Inl ErrSessionRevoked"
    by (simp add: Resolve_def LookupSession_def d1 HashToken_def demo_http_db_def session_of_def fromNullUnix_def Let_def)
  then have "handleLogout (\<lambda>_. []) (demo_server None) (demo_env (\<lambda>_ _. False)) (demo_req ()) d1 rl
      = (HttpOK \<lparr>op_SessionID = '''', op_GrantsRevoked = 0\<rparr>, d1, rl)"
    by (simp add: handleLogout_def demo_authenticated [OF d1(1)] demo_bearer)
  moreover have "live d1 ''g'' = Some demo_live_grant"
    by (simp add: live_def d1 demo_live_grant_def grant_row_of_def demo_record_def)
  ultimately show ?thesis by blast
qed

lemma demo_logout_db:
  "db_ok (demo_http_db\<lparr>grants := [demo_live_grant]\<rparr>)"
  "\<exists>g d1. End_session (\<lambda>_ _. False) (\<lambda>_. 60 * Second) ''ses_1'' ''u'' ReasonLogout
     (demo_http_db\<lparr>grants := [demo_live_grant]\<rparr>) = (Inr [g], d1) \<and> gr_GrantID g = ''g''"
proof -
  show "db_ok (demo_http_db\<lparr>grants := [demo_live_grant]\<rparr>)"
    by (simp add: db_ok_def demo_http_db_def empty_db_def demo_live_grant_def grant_row_of_def demo_record_def
        foreign_key_ok_def audit_ok_def maxSeq_def)
  have "unix (60 * Second) < gt_expires_at demo_live_grant" "gt_session_id demo_live_grant = Some ''ses_1''"
    "gt_revoked_at demo_live_grant = None" "gt_grant_id demo_live_grant = ''g''"
    using demo_times(2) by (simp_all add: demo_live_grant_def grant_row_of_def)
  then show "\<exists>g d1. End_session (\<lambda>_ _. False) (\<lambda>_. 60 * Second) ''ses_1'' ''u'' ReasonLogout
     (demo_http_db\<lparr>grants := [demo_live_grant]\<rparr>) = (Inr [g], d1) \<and> gr_GrantID g = ''g''"
    by (simp add: End_session_def LookupSessionByID_def RevokeSession_def RevokeGrantsWhere_def demo_http_db_def empty_db_def
        session_of_def fromNullUnix_def appendAudit_def commit_def update_where_def maxSeq_def no_event_def event_defs
        eventForReason_def affected_of_def Let_def)
qed

end
