(* ===== verification/Operator_Session.thy ===== *)
theory Operator_Session
  imports Peer_Identity Rfc3339 Encoding
begin

text \<open>
  The operator's session as its own client sees it (\<open>internal/operator/session.go\<close>): the requests to
  the control plane, the stored session and when it is used again. A reply of the control plane is
  \<^const>\<open>None\<close> when the request fails, and otherwise a status with the decoded body and whether decoding
  reported an error; Go fills the body as far as it gets. JSON is a parameter, and the session file
  lies in the directory of \<open>Peer_Identity\<close>.
\<close>

section \<open>Data\<close>

definition sessionFile :: string where "sessionFile = ''session.json''"
definition sessionRefreshMargin :: duration where "sessionRefreshMargin = 2 * Minute"

datatype operator_err =
    ErrNoSession | NoControlAddr | RequestFailed | DecodeFailed | RefusedMsg string | RefusedStatus nat
  | BadExpiry | SessionDisk peer_err | SessionRemove

record login_reply =
  lr_Token :: string
  lr_SessionID :: string
  lr_UserID :: string
  lr_ExpiresAt :: string
  lr_Error :: string

record logout_reply =
  or_SessionID :: string
  or_GrantsRevoked :: int
  or_Error :: string

record op_session =
  os_Token :: string
  os_SessionID :: string
  os_UserID :: string
  os_ExpiresAt :: time
  os_ControlAddr :: string

definition Usable :: "time \<Rightarrow> string \<Rightarrow> op_session \<Rightarrow> bool" where
  "Usable now controlAddr s \<longleftrightarrow> os_Token s \<noteq> '''' \<and> os_ControlAddr s = controlAddr \<and>
     time_Sub (os_ExpiresAt s) now > sessionRefreshMargin"

section \<open>Requests\<close>

type_synonym 'a control_reply = "(nat \<times> 'a \<times> bool) option"

text \<open>The \<open>Authorization\<close> header of a request, empty when there is none. The control planes are a function
  of the address a request goes to and of this header.\<close>

definition auth_header :: "string \<Rightarrow> string" where
  "auth_header token = (if token \<noteq> '''' then ''Bearer '' @ token else '''')"

type_synonym 'a control = "string \<Rightarrow> string \<Rightarrow> 'a control_reply"

definition postControl :: "('a \<Rightarrow> string) \<Rightarrow> 'a control \<Rightarrow> string \<Rightarrow> string \<Rightarrow> operator_err + 'a" where
  "postControl errorMessage control controlAddr token =
    (if controlAddr = '''' then Inl NoControlAddr
     else case control controlAddr (auth_header token) of
       None \<Rightarrow> Inl RequestFailed
     | Some (status, out, bad) \<Rightarrow>
       if bad \<and> status = StatusOK then Inl DecodeFailed
       else if status \<noteq> StatusOK then
         (if errorMessage out \<noteq> '''' then Inl (RefusedMsg (errorMessage out)) else Inl (RefusedStatus status))
       else Inr out)"

definition op_Login :: "login_reply control \<Rightarrow> string \<Rightarrow> operator_err + op_session" where
  "op_Login control controlAddr =
    (case postControl lr_Error control controlAddr '''' of
       Inl e \<Rightarrow> Inl e
     | Inr out \<Rightarrow>
       (case ParseRFC3339 (lr_ExpiresAt out) of
          None \<Rightarrow> Inl BadExpiry
        | Some expires \<Rightarrow>
            Inr \<lparr>os_Token = lr_Token out, os_SessionID = lr_SessionID out, os_UserID = lr_UserID out,
                 os_ExpiresAt = expires, os_ControlAddr = controlAddr\<rparr>))"

definition op_Logout :: "logout_reply control \<Rightarrow> string \<Rightarrow> op_session \<Rightarrow> operator_err + int" where
  "op_Logout control controlAddr sess =
    (case postControl or_Error control controlAddr (os_Token sess) of Inl e \<Rightarrow> Inl e | Inr out \<Rightarrow> Inr (or_GrantsRevoked out))"

section \<open>The stored session\<close>

record session_json =
  sj_Marshal :: "op_session \<Rightarrow> byte list option"
  sj_Unmarshal :: "byte list \<Rightarrow> op_session option"

definition SaveSession ::
  "session_json \<Rightarrow> keystore \<Rightarrow> disk_env \<Rightarrow> op_session \<Rightarrow> dir \<Rightarrow> operator_err option \<times> dir" where
  "SaveSession js ks env sess fs =
    (case sj_Marshal js sess of
       None \<Rightarrow> (Some (SessionDisk MarshalErr), fs)
     | Some b \<Rightarrow>
       if de_mkdir env 0 then (Some (SessionDisk MkdirErr), fs)
       else case ks_Save ks env sessionFile b fs of
         (Inl e, fs) \<Rightarrow> (Some (SessionDisk e), fs)
       | (Inr p, fs) \<Rightarrow> (None, fs))"

definition LoadSession :: "session_json \<Rightarrow> keystore \<Rightarrow> bool \<Rightarrow> dir \<Rightarrow> operator_err + op_session" where
  "LoadSession js ks unreadable fs =
    (case ks_Load ks unreadable sessionFile fs of
       KsNotFound \<Rightarrow> Inl ErrNoSession
     | KsErr \<Rightarrow> Inl (SessionDisk KeystoreErr)
     | KsGot b p \<Rightarrow> (case sj_Unmarshal js b of None \<Rightarrow> Inl ErrNoSession | Some sess \<Rightarrow> Inr sess))"

text \<open>\<open>failed\<close> says that removing a file that exists fails.\<close>

definition ClearSession :: "bool \<Rightarrow> dir \<Rightarrow> operator_err option \<times> dir" where
  "ClearSession failed fs =
    (if fs sessionFile \<noteq> None \<and> failed then (Some SessionRemove, fs) else (None, fs(sessionFile := None)))"

definition EnsureSession ::
  "session_json \<Rightarrow> keystore \<Rightarrow> bool \<Rightarrow> disk_env \<Rightarrow> time \<Rightarrow> login_reply control \<Rightarrow> string \<Rightarrow> dir \<Rightarrow>
     (operator_err + op_session) \<times> dir" where
  "EnsureSession js ks unreadable env now control controlAddr fs =
    (let open_new =
           (case op_Login control controlAddr of
              Inl e \<Rightarrow> (Inl e, fs)
            | Inr sess \<Rightarrow> (Inr sess, snd (SaveSession js ks env sess fs))) in
     case LoadSession js ks unreadable fs of
       Inl e \<Rightarrow> open_new
     | Inr sess \<Rightarrow> if Usable now controlAddr sess then (Inr sess, fs) else open_new)"

section \<open>Lemmas\<close>

text \<open>What is needed of JSON and of the keystore: a session of valid UTF-8 strings is read back as it was
  written, and so is what is sealed.\<close>

definition session_store_ok :: "session_json \<Rightarrow> keystore \<Rightarrow> op_session \<Rightarrow> bool" where
  "session_store_ok js ks s \<longleftrightarrow> (\<forall>b. sj_Marshal js s = Some b \<longrightarrow> sj_Unmarshal js b = Some s) \<and>
     (\<forall>m sealed p. ks_seal ks m = Some (sealed, p) \<longrightarrow> (\<exists>q. ks_open ks sealed = Some (m, q)))"

text \<open>A session that was saved is the session that is loaded, and after clearing there is none.\<close>

lemma SaveSession_LoadSession:
  assumes "session_store_ok js ks sess" and "SaveSession js ks env sess fs = (None, fs')"
  shows "LoadSession js ks False fs' = Inr sess"
proof -
  from assms(2) obtain b p where b: "sj_Marshal js sess = Some b" "ks_Save ks env sessionFile b fs = (Inr p, fs')"
    by (auto simp: SaveSession_def split: option.splits if_splits sum.splits prod.splits)
  from ks_Save_Inr [OF b(2)] obtain sealed where s: "ks_seal ks b = Some (sealed, p)" "fs' sessionFile = Some sealed"
    by auto
  with assms(1) obtain q where "ks_open ks sealed = Some (b, q)" unfolding session_store_ok_def by blast
  with s assms(1) b(1) show ?thesis by (simp add: LoadSession_def ks_Load_def session_store_ok_def)
qed

lemma ClearSession_LoadSession: "ClearSession failed fs = (None, fs') \<Longrightarrow> LoadSession js ks u fs' = Inl ErrNoSession"
  by (auto simp: ClearSession_def LoadSession_def ks_Load_def split: if_splits)

text \<open>A session is presented only to the control plane that issued it, and a stored one only while it
  has more than the margin left.\<close>

lemma EnsureSession_Inr:
  assumes "EnsureSession js ks u env now r addr fs = (Inr sess, fs')"
  shows "os_ControlAddr sess = addr"
    and "fs' = fs \<and> LoadSession js ks u fs = Inr sess \<and> Usable now addr sess \<or> op_Login r addr = Inr sess"
  using assms
  by (auto simp: EnsureSession_def op_Login_def Usable_def Let_def split: sum.splits if_splits option.splits)

text \<open>The second command of a shift opens no second session.\<close>

lemma EnsureSession_reuses:
  assumes "session_store_ok js ks sess" and "EnsureSession js ks u env now r addr fs = (Inr sess, fs')"
    and "SaveSession js ks env sess fs = (None, fs1)" and "op_Login r addr = Inr sess"
    and "\<not> (\<exists>s. LoadSession js ks u fs = Inr s \<and> Usable now addr s)" and "Usable now' addr sess"
  shows "EnsureSession js ks False env' now' r' addr fs' = (Inr sess, fs')"
proof -
  have "fs' = fs1" using assms(2-5) by (auto simp: EnsureSession_def Let_def split: sum.splits if_splits)
  with SaveSession_LoadSession [OF assms(1,3)] assms(6) show ?thesis by (simp add: EnsureSession_def)
qed

end
