(* ===== verification/Operator_Forward.thy ===== *)
theory Operator_Forward
  imports Operator_Session Agent Httpapi
begin

text \<open>
  The operator's forward (\<open>internal/operator/grant.go\<close>, \<open>forward.go\<close>): the grants it asks for and keeps,
  the relay session its local connections share, and the handling of one local connection, cut at its
  waits into phases. Sessions are addresses into \<open>fw_sessions\<close>, since a handler keeps the session it
  got after the forwarder has replaced it. What a turn meets outside is in \<open>forward_env\<close>.
\<close>

section \<open>Configuration\<close>

record ('tls, 'pool) op_config =
  oc_RelayAddr :: string
  oc_ListenAddr :: string
  oc_Identity :: "('tls, 'pool) peer_identity option"
  oc_Resource :: string
  oc_DeviceID :: string
  oc_ControlAddr :: string
  oc_GrantTTL :: duration
  oc_Session :: bool  \<comment> \<open>there is a session provider\<close>
  oc_KeepAlive :: duration
  oc_IdleTimeout :: duration

datatype forward_err =
    NotEnrolled | NoDeviceID | NoResource | ErrListenNotLoopback | ConnectErr | HandshakeErr mux_err
  | RelayUnreachable duration "forward_err option"
  | NoControlPlane | NoOperatorSession | GrantRequestErr | GrantDecodeErr | GrantRefusedMsg string
  | GrantRefusedStatus nat | GrantEncodingErr | GrantUnusable grant_err | GrantUnverified grant_err

record grant_cache =
  gc_encoded :: "byte list"
  gc_grant :: "signed_grant option"

record ('tls, 'pool, 'f) forwarder =
  fw_cfg :: "('tls, 'pool) op_config"
  fw_identity :: "('tls, 'pool) peer_identity"
  fw_active :: int
  fw_sessions :: "session list"
  fw_sess :: "nat option"
  fw_retry :: "'f bstate"
  fw_notBefore :: time
  fw_lastErr :: "forward_err option"
  fw_grants :: grant_cache

definition validateListenAddr :: "string \<Rightarrow> forward_err option" where
  "validateListenAddr addr =
    (case SplitHostPort addr of
       Inl e \<Rightarrow> Some ErrListenNotLoopback
     | Inr (host, port) \<Rightarrow>
       if port = '''' then Some ErrListenNotLoopback
       else if host = '''' then Some ErrListenNotLoopback
       else case ParseIP host of
         None \<Rightarrow> Some ErrListenNotLoopback
       | Some ip \<Rightarrow> if \<not> IsLoopback ip then Some ErrListenNotLoopback else None)"

definition op_New :: "'f float_ops \<Rightarrow> ('tls, 'pool) op_config \<Rightarrow> forward_err + ('tls, 'pool, 'f) forwarder" where
  "op_New fl cfg =
    (let cfg = (if oc_IdleTimeout cfg = 0 then cfg\<lparr>oc_IdleTimeout := IdleTimeout\<rparr> else cfg);
         cfg = (if oc_KeepAlive cfg = 0
                then cfg\<lparr>oc_KeepAlive := sgn (oc_IdleTimeout cfg) * (\<bar>oc_IdleTimeout cfg\<bar> div 3)\<rparr> else cfg)
     in case oc_Identity cfg of
          None \<Rightarrow> Inl NotEnrolled
        | Some i \<Rightarrow>
          if oc_DeviceID cfg = '''' then Inl NoDeviceID
          else if oc_Resource cfg = '''' then Inl NoResource
          else
            let cfg = (if oc_GrantTTL cfg \<le> 0 then cfg\<lparr>oc_GrantTTL := MaxGrantTTL\<rparr> else cfg) in
            (case validateListenAddr (oc_ListenAddr cfg) of
               Some e \<Rightarrow> Inl e
             | None \<Rightarrow>
                 Inr \<lparr>fw_cfg = cfg, fw_identity = i, fw_active = 0, fw_sessions = [], fw_sess = None,
                      fw_retry = backoff_New fl \<lparr>b_Initial = 0, b_Max = 0, b_Factor = f_of_int fl 0\<rparr>,
                      fw_notBefore = zero_time, fw_lastErr = None,
                      fw_grants = \<lparr>gc_encoded = [], gc_grant = None\<rparr>\<rparr>))"

definition op_serverName :: "('tls, 'pool, 'f) forwarder \<Rightarrow> string" where
  "op_serverName f =
    (if pi_ServerName (fw_identity f) \<noteq> '''' then pi_ServerName (fw_identity f)
     else case SplitHostPort (oc_RelayAddr (fw_cfg f)) of
       Inl e \<Rightarrow> oc_RelayAddr (fw_cfg f)
     | Inr (host, port) \<Rightarrow> host)"

section \<open>Grants\<close>

definition grantRefreshMargin :: duration where "grantRefreshMargin = 60 * Second"

record op_grant_request =
  ok_DeviceID :: string
  ok_ResourceID :: string
  ok_TTLSeconds :: int

record op_grant_response =
  ow_Grant :: string
  ow_GrantID :: string
  ow_ExpiresAt :: string
  ow_PolicyID :: string
  ow_Error :: string

text \<open>What a turn meets: the outcome of dialling the relay, the token of the session provider, the
  control plane (its reply to a request with an \<open>Authorization\<close> header), the branch a wait takes, the
  outcome of the inner handshake, how the copying ended, and the readings of the clock.\<close>

record 'pk forward_env =
  fe_now :: "nat \<Rightarrow> time"
  fe_int64N :: "int \<Rightarrow> int"
  fe_seconds :: "duration \<Rightarrow> int"  \<comment> \<open>\<open>int(d.Seconds())\<close>\<close>
  fe_dialled :: "conn option"
  fe_token :: "string option"
  fe_control :: "string \<Rightarrow> op_grant_request \<Rightarrow> op_grant_response control_reply"
  fe_branch :: wait_branch
  fe_ctxDone :: bool
  fe_inner :: "'pk conn_state option"
  fe_joinErr :: "copy_err option"

definition requestGrant ::
  "(byte list \<Rightarrow> byte list \<Rightarrow> byte list \<Rightarrow> bool) \<Rightarrow> 'pk forward_env \<Rightarrow> ('tls, 'pool, 'f) forwarder \<Rightarrow>
     forward_err + byte list \<times> signed_grant" where
  "requestGrant edv env f =
    (if oc_ControlAddr (fw_cfg f) = '''' then Inl NoControlPlane
     else
       let body = \<lparr>ok_DeviceID = oc_DeviceID (fw_cfg f), ok_ResourceID = oc_Resource (fw_cfg f),
                   ok_TTLSeconds = fe_seconds env (oc_GrantTTL (fw_cfg f))\<rparr> in
       case (if oc_Session (fw_cfg f) then map_option (\<lambda>token. ''Bearer '' @ token) (fe_token env) else Some '''') of
         None \<Rightarrow> Inl NoOperatorSession
       | Some authorization \<Rightarrow>
         (case fe_control env authorization body of
            None \<Rightarrow> Inl GrantRequestErr
          | Some (status, out, bad) \<Rightarrow>
            if bad then Inl GrantDecodeErr
            else if status \<noteq> StatusOK then
              (if ow_Error out \<noteq> '''' then Inl (GrantRefusedMsg (ow_Error out)) else Inl (GrantRefusedStatus status))
            else case StdDecode (ow_Grant out) of
              None \<Rightarrow> Inl GrantEncodingErr
            | Some encoded \<Rightarrow>
              (case DecodeGrant encoded of
                 Inl e \<Rightarrow> Inl (GrantUnusable e)
               | Inr g \<Rightarrow>
                 (case pi_GrantKey (fw_identity f) of
                    None \<Rightarrow> Inr (encoded, g)
                  | Some key \<Rightarrow>
                    (case Verify edv g key (fe_now env 1) (g_DeviceID g) of
                       Some e \<Rightarrow> Inl (GrantUnverified e)
                     | None \<Rightarrow> Inr (encoded, g))))))"

definition fwd_grant ::
  "(byte list \<Rightarrow> byte list \<Rightarrow> byte list \<Rightarrow> bool) \<Rightarrow> 'pk forward_env \<Rightarrow> ('tls, 'pool, 'f) forwarder \<Rightarrow>
     (forward_err + byte list) \<times> ('tls, 'pool, 'f) forwarder" where
  "fwd_grant edv env f =
    (let request =
           (case requestGrant edv env f of
              Inl e \<Rightarrow> (Inl e, f)
            | Inr (encoded, g) \<Rightarrow> (Inr encoded, f\<lparr>fw_grants := \<lparr>gc_encoded = encoded, gc_grant = Some g\<rparr>\<rparr>)) in
     case gc_grant (fw_grants f) of
       None \<Rightarrow> request
     | Some g \<Rightarrow>
         if Remaining g (fe_now env 0) > grantRefreshMargin then (Inr (gc_encoded (fw_grants f)), f) else request)"

section \<open>The relay session\<close>

definition fwd_failed ::
  "'f float_ops \<Rightarrow> 'pk forward_env \<Rightarrow> forward_err \<Rightarrow> ('tls, 'pool, 'f) forwarder \<Rightarrow> ('tls, 'pool, 'f) forwarder" where
  "fwd_failed fl env err f =
    (case backoff_Next fl (fe_int64N env) (fw_retry f) of
       (delay, retry) \<Rightarrow>
         f\<lparr>fw_retry := retry, fw_notBefore := fe_now env 2 + delay, fw_lastErr := Some err\<rparr>)"

text \<open>The connection in a failure is the one the call has closed.\<close>

definition fwd_session ::
  "'f float_ops \<Rightarrow> 'pk forward_env \<Rightarrow> ('tls, 'pool, 'f) forwarder \<Rightarrow>
     (forward_err \<times> conn option + nat) \<times> ('tls, 'pool, 'f) forwarder" where
  "fwd_session fl env f =
    (let f = (case fw_sess f of
                None \<Rightarrow> f
              | Some k \<Rightarrow> if s_done (fw_sessions f ! k) then f\<lparr>fw_sess := None\<rparr> else f)
     in case fw_sess f of
       Some k \<Rightarrow> (Inr k, f)
     | None \<Rightarrow>
       if fe_now env 0 < fw_notBefore f then
         (Inl (RelayUnreachable (time_Sub (fw_notBefore f) (fe_now env 0)) (fw_lastErr f), None), f)
       else case fe_dialled env of
         None \<Rightarrow> (Inl (ConnectErr, None), fwd_failed fl env ConnectErr f)
       | Some c \<Rightarrow>
         (case mux_Dial (fe_now env 1) c \<lparr>cf_Role = RoleOperator, cf_MaxFramePayload = 0, cf_InitialWindow = 0,
                 cf_MaxStreams = 0, cf_KeepAlive = oc_KeepAlive (fw_cfg f), cf_IdleTimeout = oc_IdleTimeout (fw_cfg f)\<rparr>
                \<lparr>a_DeviceID = oc_DeviceID (fw_cfg f), a_UserID = n_ID (pi_ID (fw_identity f)),
                 a_Resource = oc_Resource (fw_cfg f)\<rparr> of
            (Inl e, c) \<Rightarrow> (Inl (HandshakeErr e, Some (conn_Close c)), fwd_failed fl env (HandshakeErr e) f)
          | (Inr s, c) \<Rightarrow>
              let k = length (fw_sessions f) in
              (Inr k, f\<lparr>fw_retry := backoff_Reset (fw_retry f), fw_notBefore := zero_time, fw_lastErr := None,
                        fw_sessions := fw_sessions f @ [s], fw_sess := Some k\<rparr>)))"

definition upd_sess :: "nat \<Rightarrow> session \<Rightarrow> ('tls, 'pool, 'f) forwarder \<Rightarrow> ('tls, 'pool, 'f) forwarder" where
  "upd_sess k s f = f\<lparr>fw_sessions := (fw_sessions f)[k := s]\<rparr>"

definition fwd_closeSession :: "('tls, 'pool, 'f) forwarder \<Rightarrow> ('tls, 'pool, 'f) forwarder" where
  "fwd_closeSession f =
    (case fw_sess f of
       None \<Rightarrow> f
     | Some k \<Rightarrow> (upd_sess k (session_Close ReasonShutdown (fw_sessions f ! k)) f)\<lparr>fw_sess := None\<rparr>)"

section \<open>One local connection\<close>

datatype fwd_end =
    NoRelay forward_err | NoGrant forward_err | StreamRefused mux_err | NotAuthenticated e2ee_err | ForwardClosed reason

text \<open>Where a handler stands: about to ask for the session, for a grant, to open the stream, waiting
  for the answer, about to set up the inner session, copying, or done. The session, the stream and
  the grant it uses are carried along, and while copying what the far end has shown.\<close>

datatype 'pk fwd_phase =
    HSession | HGrant nat | HOpen nat "byte list" | HWait nat "byte list" "u32 \<times> nat \<times> nat"
  | HInner nat "byte list" nat | HCopy nat "byte list" nat "'pk conn_state" | HDone fwd_end

definition end_with :: "fwd_end \<Rightarrow> ('tls, 'pool, 'f) forwarder \<Rightarrow> 'pk fwd_phase \<times> ('tls, 'pool, 'f) forwarder" where
  "end_with e f = (HDone e, f\<lparr>fw_active := fw_active f - 1\<rparr>)"

text \<open>One turn of \<open>handle\<close>; \<^const>\<open>None\<close> when it cannot go on yet, or is done.\<close>

fun handle_turn ::
  "(byte list \<Rightarrow> byte list \<Rightarrow> byte list \<Rightarrow> bool) \<Rightarrow> ('pk, 'pool) chain_verify \<Rightarrow> 'f float_ops \<Rightarrow> 'pk forward_env \<Rightarrow>
     'pk fwd_phase \<Rightarrow> ('tls, 'pool, 'f) forwarder \<Rightarrow> ('pk fwd_phase \<times> ('tls, 'pool, 'f) forwarder) option" where
  "handle_turn edv chain fl env HSession f =
    (case fwd_session fl env f of
       (Inl (e, _), f) \<Rightarrow> Some (end_with (NoRelay e) f)
     | (Inr k, f) \<Rightarrow> Some (HGrant k, f))"
| "handle_turn edv chain fl env (HGrant k) f =
    (case fwd_grant edv env f of
       (Inl e, f) \<Rightarrow> Some (end_with (NoGrant e) f)
     | (Inr grantBytes, f) \<Rightarrow> Some (HOpen k grantBytes, f))"
| "handle_turn edv chain fl env (HOpen k grantBytes) f =
    (case Open_send grantBytes (fw_sessions f ! k) of
       (Inl e, s) \<Rightarrow> Some (end_with (StreamRefused e) (upd_sess k s f))
     | (Inr w, s) \<Rightarrow> Some (HWait k grantBytes w, upd_sess k s f))"
| "handle_turn edv chain fl env (HWait k grantBytes w) f =
    (case Open_wait (fe_branch env) (fe_ctxDone env) w (fw_sessions f ! k) of
       None \<Rightarrow> None
     | Some (Inl e, s) \<Rightarrow> Some (end_with (StreamRefused e) (upd_sess k s f))
     | Some (Inr x, s) \<Rightarrow> Some (HInner k grantBytes x, upd_sess k s f))"
| "handle_turn edv chain fl env (HInner k grantBytes x) f =
    (case e2ee_Client chain (pi_CAPool (fw_identity f)) \<lparr>n_Role = RoleDeviceCert, n_ID = oc_DeviceID (fw_cfg f)\<rparr> (fe_inner env) of
       Inl e \<Rightarrow> Some (end_with (NotAuthenticated e)
                  (upd_sess k (snd (stream_Reset x ReasonAuthFailed (fw_sessions f ! k))) f))
     | Inr peer \<Rightarrow> Some (HCopy k grantBytes x (the (fe_inner env)), f))"
| "handle_turn edv chain fl env (HCopy k grantBytes x st) f =
    Some (end_with (ForwardClosed (if fe_joinErr env \<noteq> None then ReasonShutdown else ReasonOK))
      (upd_sess k (snd (stream_Close x (fw_sessions f ! k))) f))"
| "handle_turn edv chain fl env (HDone e) f = None"

section \<open>Runs of a forwarder\<close>

type_synonym ('pk, 'tls, 'pool, 'f) forward_sys = "('tls, 'pool, 'f) forwarder \<times> 'pk fwd_phase list"

text \<open>Everything that can happen: a local connection is accepted, a handler goes on, a relay session is
  used or used up, \<open>Run\<close> ends.\<close>

inductive forward_step ::
  "(byte list \<Rightarrow> byte list \<Rightarrow> byte list \<Rightarrow> bool) \<Rightarrow> ('pk, 'pool) chain_verify \<Rightarrow> 'f float_ops \<Rightarrow>
     ('pk, 'tls, 'pool, 'f) forward_sys \<Rightarrow> ('pk, 'tls, 'pool, 'f) forward_sys \<Rightarrow> bool"
  for edv chain fl where
  fs_accept: "forward_step edv chain fl (f, hs) (f\<lparr>fw_active := fw_active f + 1\<rparr>, hs @ [HSession])"
| fs_turn: "i < length hs \<Longrightarrow> handle_turn edv chain fl env (hs ! i) f = Some (h, f') \<Longrightarrow>
    forward_step edv chain fl (f, hs) (f', hs[i := h])"
| fs_session: "k < length (fw_sessions f) \<Longrightarrow> sess_step (fw_sessions f ! k) s \<Longrightarrow>
    forward_step edv chain fl (f, hs) (upd_sess k s f, hs)"
| fs_shutdown: "forward_step edv chain fl (f, hs) (fwd_closeSession f, hs)"

section \<open>Lemmas\<close>

lemma validateListenAddr_None: "validateListenAddr addr = None \<longleftrightarrow> loopback_literal addr"
proof -
  have "ParseIP '''' = None" by (simp add: ParseIP_def)
  then show ?thesis by (auto simp: validateListenAddr_def loopback_literal_def split: sum.split option.split)
qed

text \<open>A session that has ended stays ended, whatever is done with it.\<close>

lemma done_helpers [simp]:
  "s_done (retire i s) = s_done s" "s_done (upd_stream a f s) = s_done s" "s_done (retireIfDone a s) = s_done s"
  "s_done (completeOpen i r s) = s_done s" "s_done (kill_all r s) = s_done s"
  "s_done (snd (writeFrame t i p s)) = s_done s" "s_done s \<Longrightarrow> s_done (shutdown r s)" "s_done (session_Close r s)"
  by (simp_all add: retire_def upd_stream_def retireIfDone_def completeOpen_def kill_all_def session_Close_def shutdown_def
      writeFrame_def Let_def split: option.split prod.split)

lemma done_writeFrame: "writeFrame t i p s = (e, s') \<Longrightarrow> s_done s' = s_done s"
  using done_helpers(6) [of t i p s] by simp

lemma done_sends [simp]:
  "s_done (snd (sendData i b s)) = s_done s" "s_done (snd (sendClose i r s)) = s_done s"
  "s_done (snd (sendWindowUpdate i c s)) = s_done s"
  by (auto simp: sendData_def sendClose_def sendWindowUpdate_def done_writeFrame split: prod.split)

lemma done_handleOpen: "s_done (snd (handleOpen i p s)) = s_done s"
  by (auto simp: handleOpen_def Let_def dest!: done_writeFrame split: prod.split option.split)

lemma done_ifI: "(b \<Longrightarrow> s_done (snd x)) \<Longrightarrow> (\<not> b \<Longrightarrow> s_done (snd y)) \<Longrightarrow> s_done (snd (if b then x else y))"
  by simp

lemma done_dispatch: "s_done s \<Longrightarrow> s_done (snd (dispatch f s))"
  unfolding dispatch_def Let_def
  by (intro done_ifI) (simp_all add: done_handleOpen done_writeFrame split: option.split sum.split prod.split)

lemma done_read_turn:
  assumes "s_done s"
  shows "s_done (snd (read_turn now s))"
proof -
  obtain r c where c: "conn_Read (s_conn s) = (r, c)" by force
  show ?thesis
  proof (cases r)
    case (Inr f)
    obtain e s' where d: "dispatch f (s\<lparr>s_conn := c, s_lastRecv := now\<rparr>) = (e, s')" by force
    then have "s_done s'"
      using done_dispatch [of "s\<lparr>s_conn := c, s_lastRecv := now\<rparr>" f] assms by simp
    with assms c d Inr show ?thesis
      by (simp add: read_turn_def Let_def split: option.split dispatch_err.split)
  qed (simp add: assms c read_turn_def Let_def)
qed

lemma done_streams:
  "s_done (snd (stream_Read a n s)) = s_done s" "s_done (snd (closeWith a r s)) = s_done s"
  "s_done (snd (stream_Reset a r s)) = s_done s"
  using done_sends
  by (auto simp: stream_Read_def closeWith_def stream_Reset_def Let_def split: prod.split bool.split)
    (metis done_helpers(1,2,3) done_sends(2) snd_conv)+

lemma done_write_loop: "s_done (snd (write_loop fuel a p k s)) = s_done s"
proof (induction fuel arbitrary: p k s)
  case (Suc fuel)
  have "s_done s2 = s_done s" if "sendData i b (upd_stream a f s) = (e, s2)" for i b f e s2
    using done_sends(1) [of i b "upd_stream a f s"] that by simp
  with Suc show ?case by (auto split: write_res.split option.split prod.split)
qed simp

lemma done_Open_send: "s_done (snd (Open_send p s)) = s_done s"
  by (auto simp: Open_send_def Let_def dest!: done_writeFrame split: prod.split option.split)

lemma done_Open_wait: "Open_wait b ctx w s = Some (r, s') \<Longrightarrow> s_done s' = s_done s"
  by (cases b) (auto simp: Open_wait_def Let_def split: prod.splits option.splits if_splits)

lemma sess_step_done: "sess_step s s' \<Longrightarrow> s_done s \<Longrightarrow> s_done s'"
proof (induction rule: sess_step.induct)
  case (ss_accept b ctx s r s')
  then show ?case by (cases b) (auto simp: AcceptStream_def split: list.splits if_splits)
qed (simp_all add: arrive_def done_read_turn keepAlive_tick_def done_Open_send done_Open_wait done_streams stream_Write_def done_write_loop
      del: write_loop.simps)

section \<open>What every run keeps\<close>

text \<open>A grant that decodes, and that verified when it was obtained if there is a key to verify it with.\<close>

definition usable_grant ::
  "(byte list \<Rightarrow> byte list \<Rightarrow> byte list \<Rightarrow> bool) \<Rightarrow> ('tls, 'pool) peer_identity \<Rightarrow> byte list \<Rightarrow> bool" where
  "usable_grant edv i b \<longleftrightarrow>
     (\<exists>g. DecodeGrant b = Inr g \<and> (\<forall>key. pi_GrantKey i = Some key \<longrightarrow> (\<exists>t. Verify edv g key t (g_DeviceID g) = None)))"

definition device_proved :: "('pk, 'pool) chain_verify \<Rightarrow> 'pool \<Rightarrow> string \<Rightarrow> 'pk conn_state \<Rightarrow> bool" where
  "device_proved chain roots device st \<longleftrightarrow> cs_NegotiatedProtocol st = ALPN \<and>
     proved chain roots \<lparr>n_Role = RoleDeviceCert, n_ID = device\<rparr> ExtKeyUsageServerAuth st"

fun phase_ok ::
  "(byte list \<Rightarrow> byte list \<Rightarrow> byte list \<Rightarrow> bool) \<Rightarrow> ('pk, 'pool) chain_verify \<Rightarrow> ('tls, 'pool) peer_identity \<Rightarrow> string \<Rightarrow>
     nat \<Rightarrow> 'pk fwd_phase \<Rightarrow> bool" where
  "phase_ok edv chain i device n (HGrant k) \<longleftrightarrow> k < n"
| "phase_ok edv chain i device n (HOpen k b) \<longleftrightarrow> k < n \<and> usable_grant edv i b"
| "phase_ok edv chain i device n (HWait k b w) \<longleftrightarrow> k < n \<and> usable_grant edv i b"
| "phase_ok edv chain i device n (HInner k b x) \<longleftrightarrow> k < n \<and> usable_grant edv i b"
| "phase_ok edv chain i device n (HCopy k b x st) \<longleftrightarrow>
    k < n \<and> usable_grant edv i b \<and> device_proved chain (pi_CAPool i) device st"
| "phase_ok edv chain i device n h \<longleftrightarrow> True"

fun running :: "'pk fwd_phase \<Rightarrow> bool" where
  "running (HDone e) = False"
| "running h = True"

definition forwarder_ok ::
  "(byte list \<Rightarrow> byte list \<Rightarrow> byte list \<Rightarrow> bool) \<Rightarrow> ('tls, 'pool) peer_identity \<Rightarrow> ('tls, 'pool) op_config \<Rightarrow>
     ('tls, 'pool, 'f) forwarder \<Rightarrow> bool" where
  "forwarder_ok edv i cfg f \<longleftrightarrow> fw_identity f = i \<and> fw_cfg f = cfg \<and>
     (gc_grant (fw_grants f) \<noteq> None \<longrightarrow> usable_grant edv i (gc_encoded (fw_grants f))) \<and>
     (\<forall>k. fw_sess f = Some k \<longrightarrow> k < length (fw_sessions f)) \<and>
     (\<forall>k<length (fw_sessions f). fw_sess f \<noteq> Some k \<longrightarrow> s_done (fw_sessions f ! k))"

lemma phase_ok_mono: "phase_ok edv chain i device n h \<Longrightarrow> n \<le> m \<Longrightarrow> phase_ok edv chain i device m h"
  by (cases h) auto

lemma upd_sess_sel [simp]:
  "fw_identity (upd_sess k s f) = fw_identity f" "fw_cfg (upd_sess k s f) = fw_cfg f" "fw_grants (upd_sess k s f) = fw_grants f"
  "fw_sess (upd_sess k s f) = fw_sess f" "fw_active (upd_sess k s f) = fw_active f"
  "fw_sessions (upd_sess k s f) = (fw_sessions f)[k := s]"
  by (simp_all add: upd_sess_def)

lemma nth_updated: "j < length xs \<Longrightarrow> xs[k := x] ! j = (if k = j then x else xs ! j)"
  by (simp add: nth_list_update)

lemma forwarder_ok_upd_sess:
  "forwarder_ok edv i cfg f \<Longrightarrow> (s_done (fw_sessions f ! k) \<Longrightarrow> s_done s) \<Longrightarrow> forwarder_ok edv i cfg (upd_sess k s f)"
  by (auto simp: forwarder_ok_def nth_updated)

lemma forwarder_ok_active [simp]: "forwarder_ok edv i cfg (f\<lparr>fw_active := n\<rparr>) = forwarder_ok edv i cfg f"
  by (simp add: forwarder_ok_def)

lemma requestGrant_Inr:
  "requestGrant edv env f = Inr (encoded, g) \<Longrightarrow> DecodeGrant encoded = Inr g \<and> usable_grant edv (fw_identity f) encoded"
  by (auto simp: requestGrant_def usable_grant_def Let_def split: if_splits option.splits sum.splits prod.splits)

lemma fwd_grant_ok:
  assumes "fwd_grant edv env f = (r, f')" and "forwarder_ok edv i cfg f"
  shows "forwarder_ok edv i cfg f' \<and> fw_sessions f' = fw_sessions f \<and> fw_active f' = fw_active f \<and>
    (\<forall>b. r = Inr b \<longrightarrow> usable_grant edv i b)"
  using assms
  by (auto simp: fwd_grant_def forwarder_ok_def Let_def dest!: requestGrant_Inr split: option.splits if_splits sum.splits prod.splits)

lemma fwd_failed_ok:
  "forwarder_ok edv i cfg (fwd_failed fl env e f) = forwarder_ok edv i cfg f" "fw_sessions (fwd_failed fl env e f) = fw_sessions f"
  "fw_active (fwd_failed fl env e f) = fw_active f"
  by (auto simp: fwd_failed_def forwarder_ok_def split: prod.split)

lemma fwd_session_live:
  "fw_sess f = Some k \<Longrightarrow> \<not> s_done (fw_sessions f ! k) \<Longrightarrow> fwd_session fl env f = (Inr k, f)"
  by (simp add: fwd_session_def)

lemma fwd_dial_ok:
  assumes s: "fwd_session fl env f = (r, f')" and ok: "forwarder_ok edv i cfg f" and none: "fw_sess f = None"
  shows "forwarder_ok edv i cfg f' \<and> length (fw_sessions f) \<le> length (fw_sessions f') \<and> fw_active f' = fw_active f \<and>
    (\<forall>k. r = Inr k \<longrightarrow> k < length (fw_sessions f'))"
proof (cases "fe_now env 0 < fw_notBefore f \<or> fe_dialled env = None")
  case True
  then show ?thesis using s ok none by (auto simp: fwd_session_def fwd_failed_ok split: if_splits)
next
  case False
  then obtain c where c: "fe_dialled env = Some c" by auto
  obtain d c' where d: "mux_Dial (fe_now env 1) c \<lparr>cf_Role = RoleOperator, cf_MaxFramePayload = 0, cf_InitialWindow = 0,
        cf_MaxStreams = 0, cf_KeepAlive = oc_KeepAlive (fw_cfg f), cf_IdleTimeout = oc_IdleTimeout (fw_cfg f)\<rparr>
      \<lparr>a_DeviceID = oc_DeviceID (fw_cfg f), a_UserID = n_ID (pi_ID (fw_identity f)),
       a_Resource = oc_Resource (fw_cfg f)\<rparr> = (d, c')" by force
  show ?thesis
  proof (cases d)
    case (Inl e)
    with s none False c d have "f' = fwd_failed fl env (HandshakeErr e) f" "\<forall>k. r \<noteq> Inr k"
      by (auto simp: fwd_session_def)
    with ok show ?thesis by (simp add: fwd_failed_ok)
  next
    case (Inr se)
    with s none False c d
    have f': "f' = f\<lparr>fw_retry := backoff_Reset (fw_retry f), fw_notBefore := zero_time, fw_lastErr := None,
        fw_sessions := fw_sessions f @ [se], fw_sess := Some (length (fw_sessions f))\<rparr>" "r = Inr (length (fw_sessions f))"
      by (simp_all add: fwd_session_def Let_def)
    have "\<forall>k<length (fw_sessions f). s_done (fw_sessions f ! k)" using ok none by (simp add: forwarder_ok_def)
    with ok show ?thesis unfolding f' by (auto simp: forwarder_ok_def nth_append less_Suc_eq)
  qed
qed

lemma fwd_session_ok:
  assumes "fwd_session fl env f = (r, f')" and ok: "forwarder_ok edv i cfg f"
  shows "forwarder_ok edv i cfg f' \<and> length (fw_sessions f) \<le> length (fw_sessions f') \<and> fw_active f' = fw_active f \<and>
    (\<forall>k. r = Inr k \<longrightarrow> k < length (fw_sessions f'))"
proof (cases "\<exists>k. fw_sess f = Some k \<and> \<not> s_done (fw_sessions f ! k)")
  case True
  then obtain k where k: "fw_sess f = Some k" "fwd_session fl env f = (Inr k, f)" using fwd_session_live by blast
  with assms(1) have "f' = f" "r = Inr k" by simp_all
  with k(1) ok show ?thesis by (simp add: forwarder_ok_def)
next
  case False
  define f0 where "f0 = f\<lparr>fw_sess := None\<rparr>"
  have f0: "forwarder_ok edv i cfg f0" "fw_sess f0 = None" "fw_sessions f0 = fw_sessions f" "fw_active f0 = fw_active f"
    using ok False by (auto simp: forwarder_ok_def f0_def)
  have "(case fw_sess f of None \<Rightarrow> f | Some k \<Rightarrow> if s_done (fw_sessions f ! k) then f\<lparr>fw_sess := None\<rparr> else f) = f0"
  proof (cases "fw_sess f")
    case None
    then show ?thesis by (cases f) (simp add: f0_def)
  qed (use False in \<open>simp add: f0_def\<close>)
  then have "fwd_session fl env f = fwd_session fl env f0" using f0(2) by (simp add: fwd_session_def)
  with fwd_dial_ok [of fl env f0 r f'] assms(1) f0 show ?thesis by simp
qed

text \<open>Inside the backoff window nothing is dialled: every connection gets the reason of the last failure,
  and the forwarder is as it was.\<close>

lemma fwd_session_window:
  "fw_sess f = None \<Longrightarrow> fe_now env 0 < fw_notBefore f \<Longrightarrow>
    fwd_session fl env f = (Inl (RelayUnreachable (time_Sub (fw_notBefore f) (fe_now env 0)) (fw_lastErr f), None), f)"
  by (simp add: fwd_session_def)

text \<open>A dial that fails opens the window, and one that succeeds closes it.\<close>

lemma fwd_session_failed:
  assumes "fwd_session fl env f = (Inl (e, c), f')" and "\<not> fe_now env 0 < fw_notBefore f" and "\<And>n. 0 \<le> fe_int64N env n"
  shows "fw_lastErr f' = Some e \<and> fe_now env 2 \<le> fw_notBefore f' \<and> fw_sess f' = None \<and>
    bs_attempt (fw_retry f') = bs_attempt (fw_retry f) + 1"
  using assms
  by (auto simp: fwd_session_def fwd_failed_def backoff_Next_def Let_def split: option.splits if_splits prod.splits sum.splits)

text \<open>What the operator sends as its session token is what the control plane takes from the header.\<close>

lemma bearerToken_auth_header:
  assumes "token \<noteq> ''''" and "TrimSpace token = token" and "hq_Authorization r = auth_header token"
  shows "bearerToken r = token"
  using assms by (simp add: bearerToken_def auth_header_def bearerPrefix_def EqualFold_def)

text \<open>The operator accepts every grant that decodes and verifies.\<close>

lemma requestGrant_reply:
  assumes "oc_ControlAddr (fw_cfg f) \<noteq> ''''" and "oc_Session (fw_cfg f) \<Longrightarrow> fe_token env \<noteq> None"
    and "\<And>a body. fe_control env a body = Some (StatusOK, out, False)"
    and "StdDecode (ow_Grant out) = Some b" and "DecodeGrant b = Inr g"
    and "\<And>key. pi_GrantKey (fw_identity f) = Some key \<Longrightarrow> Verify edv g key (fe_now env 1) (g_DeviceID g) = None"
  shows "requestGrant edv env f = Inr (b, g)"
  using assms by (auto simp: requestGrant_def Let_def split: option.split)

lemma closeSession_ok:
  "forwarder_ok edv i cfg f \<Longrightarrow> forwarder_ok edv i cfg (fwd_closeSession f) \<and>
    length (fw_sessions (fwd_closeSession f)) = length (fw_sessions f) \<and> fw_active (fwd_closeSession f) = fw_active f"
  by (auto simp: fwd_closeSession_def forwarder_ok_def nth_updated split: option.split)

lemma handle_turn_ok:
  assumes "handle_turn edv chain fl env h f = Some (h', f')" and ok: "forwarder_ok edv i cfg f"
    and "phase_ok edv chain i (oc_DeviceID cfg) (length (fw_sessions f)) h"
  shows "forwarder_ok edv i cfg f' \<and> length (fw_sessions f) \<le> length (fw_sessions f') \<and>
    phase_ok edv chain i (oc_DeviceID cfg) (length (fw_sessions f')) h' \<and> running h \<and>
    fw_active f' = fw_active f - (if running h' then 0 else 1)"
proof (cases h)
  case HSession
  obtain r f1 where r: "fwd_session fl env f = (r, f1)" by force
  with assms(1) HSession fwd_session_ok [OF r ok] show ?thesis by (cases r) (auto simp: end_with_def)
next
  case (HGrant k)
  obtain r f1 where r: "fwd_grant edv env f = (r, f1)" by force
  with assms HGrant fwd_grant_ok [OF r ok] show ?thesis by (cases r) (auto simp: end_with_def)
next
  case (HOpen k b)
  obtain r s where r: "Open_send b (fw_sessions f ! k) = (r, s)" by force
  then have "forwarder_ok edv i cfg (upd_sess k s f)"
    using done_Open_send [of b "fw_sessions f ! k"] ok by (auto intro!: forwarder_ok_upd_sess)
  with assms HOpen r show ?thesis by (cases r) (auto simp: end_with_def)
next
  case (HWait k b w)
  then obtain r s where r: "Open_wait (fe_branch env) (fe_ctxDone env) w (fw_sessions f ! k) = Some (r, s)"
    using assms(1) by (auto split: option.splits)
  have "forwarder_ok edv i cfg (upd_sess k s f)"
    using done_Open_wait [OF r] ok by (auto intro!: forwarder_ok_upd_sess)
  with assms HWait r show ?thesis by (cases r) (auto simp: end_with_def)
next
  case (HInner k b x)
  let ?s = "snd (stream_Reset x ReasonAuthFailed (fw_sessions f ! k))"
  have "forwarder_ok edv i cfg (upd_sess k ?s f)" using ok by (auto intro!: forwarder_ok_upd_sess simp: done_streams)
  with assms HInner show ?thesis
    by (auto simp: end_with_def device_proved_def e2ee_Client_Inr forwarder_ok_def split: sum.splits)
next
  case (HCopy k b x st)
  let ?s = "snd (stream_Close x (fw_sessions f ! k))"
  have "forwarder_ok edv i cfg (upd_sess k ?s f)"
    using ok by (auto intro!: forwarder_ok_upd_sess simp: stream_Close_def done_streams)
  with assms HCopy show ?thesis by (auto simp: end_with_def)
qed (use assms in simp)

definition forward_inv ::
  "(byte list \<Rightarrow> byte list \<Rightarrow> byte list \<Rightarrow> bool) \<Rightarrow> ('pk, 'pool) chain_verify \<Rightarrow> ('tls, 'pool) peer_identity \<Rightarrow>
     ('tls, 'pool) op_config \<Rightarrow> ('pk, 'tls, 'pool, 'f) forward_sys \<Rightarrow> bool" where
  "forward_inv edv chain i cfg S \<longleftrightarrow> forwarder_ok edv i cfg (fst S) \<and>
     (\<forall>h\<in>set (snd S). phase_ok edv chain i (oc_DeviceID cfg) (length (fw_sessions (fst S))) h) \<and>
     fw_active (fst S) = int (length (filter running (snd S)))"

lemma filter_update:
  "i < length xs \<Longrightarrow> P (xs ! i) \<Longrightarrow>
    int (length (filter P (xs[i := x]))) = int (length (filter P xs)) - (if P x then 0 else 1)"
proof (induction xs arbitrary: i)
  case (Cons y ys)
  then show ?case by (cases i) auto
qed simp

lemma forward_step_inv: "forward_step edv chain fl S S' \<Longrightarrow> forward_inv edv chain i cfg S \<Longrightarrow> forward_inv edv chain i cfg S'"
proof (induction rule: forward_step.induct)
  case (fs_accept f hs)
  then show ?case by (simp add: forward_inv_def)
next
  case (fs_turn j hs env f h f')
  from fs_turn(1,3) have ok: "forwarder_ok edv i cfg f" "phase_ok edv chain i (oc_DeviceID cfg) (length (fw_sessions f)) (hs ! j)"
    by (simp_all add: forward_inv_def)
  note t = handle_turn_ok [OF fs_turn(2) ok]
  have "phase_ok edv chain i (oc_DeviceID cfg) (length (fw_sessions f')) h'" if "h' \<in> set (hs[j := h])" for h'
    using that set_update_subset_insert [of hs j h] t fs_turn(3) phase_ok_mono by (fastforce simp: forward_inv_def)
  with t filter_update [OF fs_turn(1), of running h] fs_turn(3) show ?case by (simp add: forward_inv_def)
next
  case (fs_session k f s hs)
  then show ?case using sess_step_done by (auto simp: forward_inv_def intro!: forwarder_ok_upd_sess)
next
  case (fs_shutdown f hs)
  then show ?case using closeSession_ok by (auto simp: forward_inv_def)
qed

lemma op_New_inv:
  assumes "op_New fl cfg = Inr f"
  shows "\<exists>i cfg'. oc_Identity cfg = Some i \<and> oc_DeviceID cfg' = oc_DeviceID cfg \<and> oc_DeviceID cfg \<noteq> '''' \<and>
    loopback_literal (oc_ListenAddr cfg) \<and> fw_cfg f = cfg' \<and> (\<forall>edv chain. forward_inv edv chain i cfg' (f, []))"
proof -
  from assms obtain i where "oc_Identity cfg = Some i" "fw_identity f = i" "fw_active f = 0" "fw_sessions f = []" "fw_sess f = None"
    "gc_grant (fw_grants f) = None" "oc_DeviceID (fw_cfg f) = oc_DeviceID cfg" "oc_DeviceID cfg \<noteq> ''''"
    "validateListenAddr (oc_ListenAddr cfg) = None"
    by (auto simp: op_New_def Let_def split: option.splits if_splits)
  then show ?thesis by (simp add: forward_inv_def forwarder_ok_def validateListenAddr_None)
qed

section \<open>Properties\<close>


definition demo_op_cfg :: "(unit, unit) op_config" where
  "demo_op_cfg = \<lparr>oc_RelayAddr = ''relay:1'', oc_ListenAddr = ''127.0.0.1:80'',
     oc_Identity = Some \<lparr>pi_Certificate = (), pi_CAPool = (), pi_ID = \<lparr>n_Role = ''operator'', n_ID = ''u''\<rparr>, pi_ServerName = [],
       pi_Protection = [], pi_NotAfter = Hour, pi_GrantKey = Some [5]\<rparr>,
     oc_Resource = ''r'', oc_DeviceID = ''d'', oc_ControlAddr = ''c'', oc_GrantTTL = 0, oc_Session = False,
     oc_KeepAlive = Second, oc_IdleTimeout = Second\<rparr>"

definition relay_cfg :: config where
  "relay_cfg = \<lparr>cf_Role = 0, cf_MaxFramePayload = 0, cf_InitialWindow = 0, cf_MaxStreams = 0, cf_KeepAlive = 0, cf_IdleTimeout = 0\<rparr>"

definition stream_ok_bytes :: "byte list" where
  "stream_ok_bytes = frame_bytes \<lparr>fr_Type = TypeStreamOK, fr_StreamID = 1, fr_Payload = []\<rparr>"

definition relay_conn :: conn where
  "relay_conn = hs_conn None (frame_bytes (ctl TypeHelloAck (HelloAck_Encode (ack_of relay_cfg))) @
     frame_bytes (ctl TypeAuthOK (AuthOK_Encode ''s'')) @ stream_ok_bytes) []"

definition demo_device_state :: "nat conn_state" where
  "demo_device_state = \<lparr>cs_PeerCertificates = [leaf_template 1 \<lparr>n_Role = RoleDeviceCert, n_ID = ''d''\<rparr> 0 0],
     cs_NegotiatedProtocol = ALPN\<rparr>"

definition demo_forward_env :: "nat forward_env" where
  "demo_forward_env = \<lparr>fe_now = (\<lambda>_. 60 * Second), fe_int64N = (\<lambda>_. 0), fe_seconds = (\<lambda>d. d div Second), fe_dialled = Some relay_conn,
     fe_token = None, fe_control = (\<lambda>_ _. Some (StatusOK, \<lparr>ow_Grant = StdEncode (SignedGrant_Encode demo_signed),
       ow_GrantID = ''g'', ow_ExpiresAt = '''', ow_PolicyID = '''', ow_Error = ''''\<rparr>, False)),
     fe_branch = OnValue, fe_ctxDone = False, fe_inner = Some demo_device_state, fe_joinErr = None\<rparr>"

text \<open>A session the relay has just admitted, with its answer to the first stream on the way.\<close>

lemma open_answered:
  assumes s: "s = (newSession t (hs_conn None stream_ok_bytes out) True (ack_of relay_cfg))\<lparr>s_ID := sid, s_Peer := a\<rparr>"
    and p: "length p \<le> 65536"
  shows "\<exists>w s1 s2. Open_send p s = (Inr w, s1) \<and> Open_wait OnValue False w (snd (read_turn t s1)) = Some (Inr 0, s2)"
proof -
  let ?f = "\<lparr>fr_Type = TypeStreamOK, fr_StreamID = 1, fr_Payload = []\<rparr>"
  have k: "k_MaxStreams (ack_of relay_cfg) = 16"
    by (simp add: ack_of_def relay_cfg_def withDefaults_def MaxStreamsPerConnection_def Let_def)
  obtain out' where w: "conn_WriteFrame TypeOpenStream 1 p (hs_conn None stream_ok_bytes out) = (None, hs_conn None stream_ok_bytes out')"
    using p by (simp add: conn_WriteFrame_ok hs_conn_def open_sink_def)
  have r: "conn_Read (hs_conn None stream_ok_bytes out') = (Inr ?f, hs_conn None [] out')"
    using ReadFrame_frame_bytes [of MaxFramePayload ?f "[]" EOF]
    by (simp add: conn_Read_def hs_conn_def stream_ok_bytes_def frame_ok_def type_known_def)
  let ?s1 = "s\<lparr>s_nextID := 3, s_objs := [newStream 1 (s_window s)], s_streams := [(1, 0)], s_chans := [None],
    s_pending := [(1, 0)], s_conn := hs_conn None stream_ok_bytes out'\<rparr>"
  have 1: "Open_send p s = (Inr (1, 0, 0), ?s1)"
    using k w by (simp add: Open_send_def s isClosed_def newSession_def Let_def writeFrame_def)
  have "dispatch ?f s' = (None, completeOpen 1 ReasonOK s')" for s'
    by (simp add: dispatch_def) (simp add: type_defs)
  then have "snd (read_turn t ?s1) =
      completeOpen 1 ReasonOK (?s1\<lparr>s_conn := hs_conn None [] out', s_lastRecv := t\<rparr>)"
    using r by (simp add: read_turn_def Let_def)
  then have "s_chans (snd (read_turn t ?s1)) = [Some ReasonOK]"
    by (simp add: completeOpen_def try_send_def)
  then show ?thesis using 1 by (simp add: Open_wait_def Let_def)
qed

lemma demo_forward_start:
  obtains f0 where "op_New rat_ops demo_op_cfg = Inr f0" and "fw_identity f0 = the (oc_Identity demo_op_cfg)"
    and "fw_cfg f0 = demo_op_cfg\<lparr>oc_GrantTTL := MaxGrantTTL\<rparr>" and "fw_sess f0 = None" and "fw_notBefore f0 = 0"
    and "fw_sessions f0 = []" and "gc_grant (fw_grants f0) = None"
proof -
  have "validateListenAddr ''127.0.0.1:80'' = None"
    using demo_target by (simp add: validateListenAddr_None demo_resource_def)
  then show ?thesis using that by (simp add: op_New_def demo_op_cfg_def Let_def Second_def zero_time_def)
qed

lemma demo_dials:
  assumes "fw_identity f = the (oc_Identity demo_op_cfg)" and "fw_cfg f = demo_op_cfg\<lparr>oc_GrantTTL := MaxGrantTTL\<rparr>"
    and "fw_sess f = None" and "fw_notBefore f = 0" and "fw_sessions f = []"
  obtains s f' out where "fwd_session rat_ops demo_forward_env f = (Inr 0, f')" and "fw_sessions f' = [s]"
    and "s = (newSession (60 * Second) (hs_conn None stream_ok_bytes out) True (ack_of relay_cfg))\<lparr>s_ID := ''s'',
      s_Peer := \<lparr>a_DeviceID = ''d'', a_UserID = ''u'', a_Resource = ''r''\<rparr>\<rparr>"
    and "fw_identity f' = fw_identity f" and "fw_cfg f' = fw_cfg f" and "fw_grants f' = fw_grants f"
proof -
  let ?a = "\<lparr>a_DeviceID = ''d'', a_UserID = ''u'', a_Resource = ''r''\<rparr>"
  have "cf_MaxFramePayload relay_cfg \<le> MaxFramePayload" "auth_ok ?a" "length ''s'' \<le> MaxIdentityLen"
    by (simp_all add: relay_cfg_def auth_ok_def MaxIdentityLen_def)
  note d = Dial_ok [OF this, of "60 * Second" stream_ok_bytes, unfolded Let_def, folded relay_conn_def]
  define s where "s = (newSession (60 * Second) (hs_conn None stream_ok_bytes
      (frame_bytes (ctl TypeHello (Hello_Encode (hello_of \<lparr>cf_Role = RoleOperator, cf_MaxFramePayload = 0, cf_InitialWindow = 0,
         cf_MaxStreams = 0, cf_KeepAlive = Second, cf_IdleTimeout = Second\<rparr>))) @ frame_bytes (ctl TypeAuth (Auth_Encode ?a))))
      True (ack_of relay_cfg))\<lparr>s_ID := ''s'', s_Peer := ?a\<rparr>"
  have "\<not> 60 * Second < 0" by (simp add: Second_def)
  with assms d have "fwd_session rat_ops demo_forward_env f = (Inr 0, f\<lparr>fw_retry := backoff_Reset (fw_retry f),
      fw_notBefore := zero_time, fw_lastErr := None, fw_sessions := [s], fw_sess := Some 0\<rparr>)"
    by (simp add: fwd_session_def demo_forward_env_def demo_op_cfg_def Let_def s_def)
  then show ?thesis by (rule that [OF _ _ s_def]) simp_all
qed

lemma demo_grant_obtained:
  assumes "fw_identity f = the (oc_Identity demo_op_cfg)" and "fw_cfg f = demo_op_cfg\<lparr>oc_GrantTTL := MaxGrantTTL\<rparr>"
    and "gc_grant (fw_grants f) = None"
  obtains f' where "fwd_grant hd_verify demo_forward_env f = (Inr (SignedGrant_Encode demo_signed), f')"
    and "fw_sessions f' = fw_sessions f" and "fw_identity f' = fw_identity f" and "fw_cfg f' = fw_cfg f"
proof -
  have "requestGrant hd_verify demo_forward_env f = Inr (SignedGrant_Encode demo_signed, demo_signed)"
    using assms demo_signed_good Verify_hd [of demo_signed 5 "[]"]
    by (simp add: requestGrant_def demo_forward_env_def demo_op_cfg_def demo_signed_sel Let_def)
  then show ?thesis using assms that by (simp add: fwd_grant_def)
qed

lemma demo_device_proved:
  "e2ee_Client (\<lambda>_ _ _ _. True) () \<lparr>n_Role = RoleDeviceCert, n_ID = ''d''\<rparr> (Some demo_device_state) =
     Inr \<lparr>n_Role = RoleDeviceCert, n_ID = ''d''\<rparr>"
  by (simp add: e2ee_Client_Inr proved_def IdentityOf_def demo_device_state_def leaf_template_def identities_in_URI
      del: identities_in.simps)

text \<open>A run in which one connection gets as far as copying.\<close>

lemma demo_forward_run:
  obtains f0 f x where "op_New rat_ops demo_op_cfg = Inr f0" and
    "(forward_step hd_verify (\<lambda>_ _ _ _. True) rat_ops)\<^sup>*\<^sup>* (f0, [])
       (f, [HCopy 0 (SignedGrant_Encode demo_signed) x demo_device_state])"
proof -
  let ?b = "SignedGrant_Encode demo_signed" and ?chain = "\<lambda>_ _ _ _. True" and ?e = demo_forward_env
  let ?R = "forward_step hd_verify ?chain rat_ops :: (nat, unit, unit, rat) forward_sys \<Rightarrow> _"
  note turn = fs_turn [of 0, where edv = hd_verify and chain = ?chain and fl = rat_ops and env = ?e]
  obtain f0 where f0: "op_New rat_ops demo_op_cfg = Inr f0" "fw_identity f0 = the (oc_Identity demo_op_cfg)"
    "fw_cfg f0 = demo_op_cfg\<lparr>oc_GrantTTL := MaxGrantTTL\<rparr>" "fw_sess f0 = None" "fw_notBefore f0 = 0"
    "fw_sessions f0 = []" "gc_grant (fw_grants f0) = None" by (rule demo_forward_start)
  let ?f0 = "f0\<lparr>fw_active := fw_active f0 + 1\<rparr>"
  obtain s f1 out where f1: "fwd_session rat_ops ?e ?f0 = (Inr 0, f1)" "fw_sessions f1 = [s]" and
    s: "s = (newSession (60 * Second) (hs_conn None stream_ok_bytes out) True (ack_of relay_cfg))\<lparr>s_ID := ''s'',
      s_Peer := \<lparr>a_DeviceID = ''d'', a_UserID = ''u'', a_Resource = ''r''\<rparr>\<rparr>" and
    f1': "fw_identity f1 = fw_identity ?f0" "fw_cfg f1 = fw_cfg ?f0" "fw_grants f1 = fw_grants ?f0"
    by (rule demo_dials [of ?f0]) (use f0 in simp_all)
  obtain f2 where f2: "fwd_grant hd_verify ?e f1 = (Inr ?b, f2)" "fw_sessions f2 = [s]"
    "fw_identity f2 = fw_identity f1" "fw_cfg f2 = fw_cfg f1"
    by (rule demo_grant_obtained [of f1]) (use f0 f1(2) f1' in simp_all)
  have "length ?b \<le> 65536"
    by (simp add: SignedGrant_Encode_def canonical_def demo_signed_def grant.defs demo_grant_def keyed_sign_def)
  from open_answered [OF s this] obtain w s1 s2 where w: "Open_send ?b s = (Inr w, s1)"
    "Open_wait OnValue False w (snd (read_turn (60 * Second) s1)) = Some (Inr 0, s2)" by blast
  let ?f3 = "upd_sess 0 s1 f2" and ?f4 = "upd_sess 0 (snd (read_turn (60 * Second) s1)) (upd_sess 0 s1 f2)"
  have "?R\<^sup>*\<^sup>* (f0, []) (?f0, [HSession])" by (rule r_into_rtranclp) (use fs_accept [of hd_verify ?chain rat_ops f0 "[]"] in simp)
  also have "?R\<^sup>*\<^sup>* (?f0, [HSession]) (f1, [HGrant 0])"
    by (rule r_into_rtranclp) (use turn [of "[HSession]" ?f0] f1 in simp)
  also have "?R\<^sup>*\<^sup>* (f1, [HGrant 0]) (f2, [HOpen 0 ?b])"
    by (rule r_into_rtranclp) (use turn [of "[HGrant 0]" f1] f2 in simp)
  also have "?R\<^sup>*\<^sup>* (f2, [HOpen 0 ?b]) (?f3, [HWait 0 ?b w])"
    by (rule r_into_rtranclp) (use turn [of "[HOpen 0 ?b]" f2] f2 w in simp)
  also have "?R\<^sup>*\<^sup>* (?f3, [HWait 0 ?b w]) (?f4, [HWait 0 ?b w])"
    by (rule r_into_rtranclp) (use f2 in \<open>auto intro!: fs_session ss_receive\<close>)
  also have "?R\<^sup>*\<^sup>* (?f4, [HWait 0 ?b w]) (upd_sess 0 s2 ?f4, [HInner 0 ?b 0])"
    by (rule r_into_rtranclp) (use turn [of "[HWait 0 ?b w]" ?f4] f2 w in \<open>simp add: demo_forward_env_def\<close>)
  also have "?R\<^sup>*\<^sup>* (upd_sess 0 s2 ?f4, [HInner 0 ?b 0]) (upd_sess 0 s2 ?f4, [HCopy 0 ?b 0 demo_device_state])"
    by (rule r_into_rtranclp) (use turn [of "[HInner 0 ?b 0]" "upd_sess 0 s2 ?f4"] f0 f1' f2 demo_device_proved in
        \<open>simp add: demo_forward_env_def demo_op_cfg_def\<close>)
  finally show ?thesis using f0(1) that by blast
qed


text \<open>The grant is checked against the device it names itself, so that one for another device than the
  configured one is accepted, cached and presented.\<close>

lemma other_device_grant_accepted:
  assumes "op_New rat_ops (demo_op_cfg\<lparr>oc_DeviceID := ''e''\<rparr>) = Inr f"
  shows "oc_DeviceID (fw_cfg f) = ''e'' \<and> g_DeviceID demo_signed = ''d'' \<and>
    requestGrant hd_verify demo_forward_env f = Inr (SignedGrant_Encode demo_signed, demo_signed)"
proof -
  have "oc_DeviceID (fw_cfg f) = ''e''" "oc_ControlAddr (fw_cfg f) \<noteq> ''''" "\<not> oc_Session (fw_cfg f)"
    "pi_GrantKey (fw_identity f) = Some [5]"
    using assms by (auto simp: op_New_def demo_op_cfg_def Let_def Second_def split: option.splits)
  then show ?thesis
    using demo_signed_good Verify_hd [of demo_signed 5 "[]"]
    by (simp add: requestGrant_def demo_forward_env_def demo_signed_sel Let_def)
qed

end
