(* ===== verification/Server_Admin.thy ===== *)
theory Server_Admin
  imports Peer_Identity Enrollment Login Issuer
begin

text \<open>
  The commands of the server (\<open>cmd/sar-server/main.go\<close>, \<open>admin.go\<close>): opening a deployment, and what the
  administrator's commands do to it and show of it. A command's flags are arguments, its output is
  its value; formatting it as a table is left out. The state directory is that of \<open>Peer_Identity\<close> and
  the database is passed through. An Ed25519 private key is its bytes.
\<close>

section \<open>Opening a deployment\<close>

definition caTTL :: duration where "caTTL = 10 * 365 * 24 * Hour"
definition serverCertTTL :: duration where "serverCertTTL = 90 * 24 * Hour"
definition grantKeyID :: string where "grantKeyID = ''key_1''"

datatype admin_err =
    StateDirErr | AuthorityErr ca_err | AuthorityKeystore peer_err | CertWriteErr | AuthorityIncomplete
  | SigningKeyErr | SigningKeystore peer_err | AdminStore store_err | AdminEnroll enroll_err | AdminCode code_err
  | ExactlyOne | NoSuchGrant | NoSuchSession | SlicePanic

record ('pk, 'der) open_env =
  oe_disk :: disk_env  \<comment> \<open>for the authority\<close>
  oe_disk_grant :: disk_env  \<comment> \<open>for the signing key\<close>
  oe_unreadable :: "string \<Rightarrow> bool"
  oe_authority_key :: "('pk \<times> byte list) option"
  oe_serial :: "nat option"
  oe_now :: "nat \<Rightarrow> time"
  oe_signing_key :: "byte list option"
  oe_marshal :: "byte list \<Rightarrow> 'der option"  \<comment> \<open>\<open>x509.MarshalPKCS8PrivateKey\<close>\<close>
  oe_store :: bool  \<comment> \<open>opening the database fails\<close>

text \<open>The two halves of the authority are loaded, or both created; anything between is refused.\<close>

definition openAuthority ::
  "('pk, byte list, byte list, 'der) x509 \<Rightarrow> keystore \<Rightarrow> ('pk, 'der) open_env \<Rightarrow> dir \<Rightarrow>
     (admin_err + ('pk, byte list, 'der) authority) \<times> dir" where
  "openAuthority lib ks env fs =
    (if de_mkdir (oe_disk env) 0 then (Inl StateDirErr, fs)
     else
       let cert = (case fs ''ca.crt'' of None \<Rightarrow> KsNotFound
                   | Some b \<Rightarrow> if oe_unreadable env ''ca.crt'' then KsErr else KsGot b '''');
           key = ks_Load ks (oe_unreadable env ''ca.key'') ''ca.key'' fs in
       case (cert, key) of
         (KsGot certPEM _, KsGot keyPEM _) \<Rightarrow>
           (case ca_Load lib certPEM keyPEM of Inl e \<Rightarrow> (Inl (AuthorityErr e), fs) | Inr ca \<Rightarrow> (Inr ca, fs))
       | (KsNotFound, KsNotFound) \<Rightarrow>
           (case ca_Create lib (oe_authority_key env) (oe_serial env) (oe_now env 0)
                   ''secure-access-relay development authority'' caTTL of
              Inl e \<Rightarrow> (Inl (AuthorityErr e), fs)
            | Inr ca \<Rightarrow>
              (case oe_marshal env (ca_key ca) of
                 None \<Rightarrow> (Inl (AuthorityErr BadKey), fs)
               | Some der \<Rightarrow>
                 (case ks_Save ks (oe_disk env) ''ca.key'' (x_pem_encode lib ''PRIVATE KEY'' der) fs of
                    (Inl e, fs) \<Rightarrow> (Inl (AuthorityKeystore e), fs)
                  | (Inr _, fs) \<Rightarrow>
                    (case WriteFile (de_write (oe_disk env) 0) ''ca.crt'' (CertPEM lib ca) fs of
                       (False, fs) \<Rightarrow> (Inl CertWriteErr, fs)
                     | (True, fs) \<Rightarrow> (Inr ca, fs)))))
       | _ \<Rightarrow> (Inl AuthorityIncomplete, fs))"

definition openIssuer ::
  "('pk, byte list, byte list, 'der) x509 \<Rightarrow> keystore \<Rightarrow> ('pk, 'der) open_env \<Rightarrow> dir \<Rightarrow>
     (admin_err + byte list issuer) \<times> dir" where
  "openIssuer lib ks env fs =
    (let new = (\<lambda>priv. case NewIssuer priv grantKeyID of Inl e \<Rightarrow> Inl SigningKeyErr | Inr i \<Rightarrow> Inr i) in
     case ks_Load ks (oe_unreadable env ''grant-signing.key'') ''grant-signing.key'' fs of
       KsGot keyPEM _ \<Rightarrow>
         (case x_pem_decode lib keyPEM of
            None \<Rightarrow> (Inl SigningKeyErr, fs)
          | Some (ty, der) \<Rightarrow>
            (case x_parse_key lib der of
               None \<Rightarrow> (Inl SigningKeyErr, fs)
             | Some None \<Rightarrow> (Inl SigningKeyErr, fs)
             | Some (Some priv) \<Rightarrow> (new priv, fs)))
     | KsNotFound \<Rightarrow>
         (case oe_signing_key env of
            None \<Rightarrow> (Inl SigningKeyErr, fs)
          | Some priv \<Rightarrow>
            (case oe_marshal env priv of
               None \<Rightarrow> (Inl SigningKeyErr, fs)
             | Some der \<Rightarrow>
               (case ks_Save ks (oe_disk_grant env) ''grant-signing.key'' (x_pem_encode lib ''PRIVATE KEY'' der) fs of
                  (Inl e, fs) \<Rightarrow> (Inl (SigningKeystore e), fs)
                | (Inr _, fs) \<Rightarrow> (new priv, fs))))
     | KsErr \<Rightarrow> (Inl (SigningKeystore KeystoreErr), fs))"

record ('pk, 'der) deployment =
  dp_authority :: "('pk, byte list, 'der) authority"
  dp_enroll :: "('pk, byte list, 'der) service"
  dp_issuer :: "byte list issuer"
  dp_login :: duration

text \<open>\<open>import\<close> is the import of the former store; \<open>pub\<close> gives the public part of a key.\<close>

definition openDeployment ::
  "('pk, byte list, byte list, 'der) x509 \<Rightarrow> keystore \<Rightarrow> (byte list \<Rightarrow> 'pk) \<Rightarrow> ('pk, 'der) open_env \<Rightarrow> duration \<Rightarrow>
     (db \<Rightarrow> (nat, db) result) \<Rightarrow> dir \<times> db \<Rightarrow> (admin_err + ('pk, 'der) deployment) \<times> dir \<times> db" where
  "openDeployment lib ks pub env certTTL import S =
    (case S of (fs, d) \<Rightarrow>
     (case openAuthority lib ks env fs of
        (Inl e, fs) \<Rightarrow> (Inl e, fs, d)
      | (Inr ca, fs) \<Rightarrow>
        if oe_store env then (Inl (AdminStore ErrSQL), fs, d)
        else case import d of
          (Inl e, d) \<Rightarrow> (Inl (AdminStore e), fs, d)
        | (Inr imported, d) \<Rightarrow>
          (case openIssuer lib ks env fs of
             (Inl e, fs) \<Rightarrow> (Inl e, fs, d)
           | (Inr iss, fs) \<Rightarrow>
               let iss = WithStore True iss in
               (Inr \<lparr>dp_authority = ca, dp_enroll = WithCertTTL certTTL (enrollment_New ca (pub (is_key iss))),
                     dp_issuer = iss, dp_login = login_New DefaultTTL\<rparr>, fs, d))))"

section \<open>Tokens and revocation\<close>

text \<open>The role and the identifier the two flags name.\<close>

definition subject :: "string \<Rightarrow> string \<Rightarrow> (string \<times> string) option" where
  "subject device operator =
    (if (device = '''') = (operator = '''') then None
     else if operator \<noteq> '''' then Some (RoleOperatorCert, operator) else Some (RoleDeviceCert, device))"

definition cmdToken ::
  "sha \<Rightarrow> ('pk cert \<Rightarrow> byte list) \<Rightarrow> (code \<Rightarrow> byte list option) \<Rightarrow> ('pk, 'der) deployment \<Rightarrow> faults \<Rightarrow> byte list option \<Rightarrow> time \<Rightarrow>
     string \<Rightarrow> string \<Rightarrow> string \<Rightarrow> string \<Rightarrow> db \<Rightarrow> (admin_err + string) \<times> db" where
  "cmdToken sha256 der marshal dep fails rnd now device operator controlAddr serverName d =
    (case subject device operator of
       None \<Rightarrow> (Inl ExactlyOne, d)
     | Some (role, ident) \<Rightarrow>
       (case IssueToken sha256 (dp_enroll dep) fails rnd now role ident d of
          (Inl e, d) \<Rightarrow> (Inl (AdminEnroll e), d)
        | (Inr token, d) \<Rightarrow>
          (case Code_Encode marshal \<lparr>cd_Addr = controlAddr, cd_Token = token,
                  cd_CAFingerprint = Fingerprint sha256 der (ca_cert (dp_authority dep)), cd_ServerName = serverName\<rparr> of
             Inl e \<Rightarrow> (Inl (AdminCode e), d)
           | Inr code \<Rightarrow> (Inr code, d))))"

definition revokeEvent :: "string \<Rightarrow> string" where
  "revokeEvent role = (if role = ''operator'' then EventOperatorRevoked else EventDeviceRevoked)"

definition deviceOf :: "string \<Rightarrow> string \<Rightarrow> string" where
  "deviceOf role ident = (if role = ''device'' then ident else '''')"

text \<open>The \<open>k\<close>-th call on the store meets the failures \<open>fl k\<close> at the time \<open>now k\<close>; those of the loop over
  the sessions come from number 3 on. The value is the grants revoked.\<close>

definition cmdRevoke ::
  "recorder \<Rightarrow> (nat \<Rightarrow> faults) \<Rightarrow> (nat \<Rightarrow> time) \<Rightarrow> string \<Rightarrow> string \<Rightarrow> db \<Rightarrow> (admin_err + grant_record list) \<times> db" where
  "cmdRevoke rec fl now device operator d =
    (case subject device operator of
       None \<Rightarrow> (Inl ExactlyOne, d)
     | Some (role, ident) \<Rightarrow>
       (case Revoke (fl 0) (now 0) role ident d of
          (Inl e, d) \<Rightarrow> (Inl (AdminStore e), d)
        | (Inr _, d) \<Rightarrow>
          let d = Record rec (no_event\<lparr>e_Event := revokeEvent role, e_ActorRole := RoleAdmin, e_ActorID := ident,
                    e_DeviceID := deviceOf role ident, e_Reason := ReasonIdentityRevoked\<rparr>) d in
          case (if role = RoleOperatorCert then
                  EndAllForUser (fl 1) (now 1) (\<lambda>j. fl (3 + j)) (\<lambda>j. now (3 + j)) (fl 2) (now 2) ident ''admin''
                    ReasonIdentityRevoked d
                else
                  RevokeGrantsWhere (fl 2) (now 2) (Some ScopeDevice) ident ReasonIdentityRevoked
                    (no_event\<lparr>e_Event := EventGrantRevoked, e_ActorRole := RoleAdmin, e_ActorID := ''admin''\<rparr>) d) of
            (Inl e, d) \<Rightarrow> (Inl (AdminStore e), d)
          | (Inr revoked, d) \<Rightarrow> (Inr revoked, d)))"

text \<open>What \<open>list\<close> shows of one identity: whether it is revoked, and whether a renewal is outstanding.\<close>

definition list_line :: "id_record \<Rightarrow> string \<times> string \<times> bool" where
  "list_line r = (r_ID r, if r_Revoked r then ''REVOKED'' else ''active'', r_PendingSerialHex r \<noteq> '''')"

definition cmdList :: "(string \<Rightarrow> bool) \<Rightarrow> (string \<Rightarrow> nat option) \<Rightarrow> db \<Rightarrow> (string \<times> (string \<times> string \<times> bool) list) list" where
  "cmdList failed bad d =
    concat (map (\<lambda>role. let records = List_identities (failed role) (bad role) role d in
      if length records = 0 then [] else [(role, map list_line records)]) [''device'', ''operator''])"

fun split_comma :: "string \<Rightarrow> string \<Rightarrow> string list" where
  "split_comma part [] = [part]"
| "split_comma part (c # s) = (if c = CHR '','' then part # split_comma [] s else split_comma (part @ [c]) s)"

definition splitList :: "string \<Rightarrow> string list" where
  "splitList s = filter (\<lambda>p. p \<noteq> '''') (map TrimSpace (split_comma [] s))"

section \<open>Grants and sessions\<close>

definition cmdGrants_revoke :: "faults \<Rightarrow> time \<Rightarrow> string \<Rightarrow> db \<Rightarrow> (admin_err + grant_record) \<times> db" where
  "cmdGrants_revoke fails now gid d =
    (case RevokeGrant fails now gid ''revoked_by_admin''
            (no_event\<lparr>e_Event := EventGrantRevoked, e_ActorRole := RoleAdmin, e_ActorID := ''admin''\<rparr>) d of
       (Inl e, d) \<Rightarrow> (Inl (if e = ErrGrantUnknown then NoSuchGrant else AdminStore e), d)
     | (Inr g, d) \<Rightarrow> (Inr g, d))"

definition cmdSessions_revoke :: "(nat \<Rightarrow> faults) \<Rightarrow> (nat \<Rightarrow> time) \<Rightarrow> string \<Rightarrow> db \<Rightarrow> (admin_err + nat) \<times> db" where
  "cmdSessions_revoke fl now sid d =
    (case End_session fl now sid ''admin'' ReasonRevokedByAdmin d of
       (Inl e, d) \<Rightarrow> (Inl (if e = ErrSessionUnknown then NoSuchSession else AdminStore e), d)
     | (Inr gs, d) \<Rightarrow> (Inr (length gs), d))"

definition grantState :: "grant_record \<Rightarrow> time \<Rightarrow> string" where
  "grantState g now = (if grant_Revoked g then ''REVOKED'' else if grant_Expired g now then ''expired'' else ''active'')"

definition sessionState :: "session_record \<Rightarrow> time \<Rightarrow> string" where
  "sessionState r now = (if sr_RevokedAt r \<noteq> None then ''ENDED'' else if \<not> session_Active r now then ''expired'' else ''active'')"

definition dash :: "string \<Rightarrow> string" where "dash s = (if s = '''' then ''-'' else s)"

definition shortGrant :: "string \<Rightarrow> string" where
  "shortGrant s = (if length s > 14 then take 14 s @ ''...'' else s)"

definition shortSession :: "string \<Rightarrow> string" where
  "shortSession s = (if length s > 12 then take 12 s @ ''...'' else s)"

text \<open>The columns of the two listings, the times aside.\<close>

definition cmdGrants_list ::
  "faults \<Rightarrow> time \<Rightarrow> time \<Rightarrow> grant_filter \<Rightarrow> db \<Rightarrow> admin_err + (string \<times> string \<times> string \<times> string \<times> string \<times> string \<times> string) list" where
  "cmdGrants_list fails now now' f d =
    (case ListGrants fails now f d of
       Inl e \<Rightarrow> Inl (AdminStore e)
     | Inr gs \<Rightarrow> Inr (map (\<lambda>g. (gr_GrantID g, grantState g now', gr_UserID g, gr_DeviceID g, gr_ResourceID g,
         dash (gr_PolicyID g), dash (shortSession (gr_SessionID g)))) gs))"

definition cmdSessions_list ::
  "faults \<Rightarrow> time \<Rightarrow> time \<Rightarrow> session_filter \<Rightarrow> db \<Rightarrow> admin_err + (string \<times> string \<times> string \<times> string) list" where
  "cmdSessions_list fails now now' f d =
    (case ListSessions fails now f d of
       Inl e \<Rightarrow> Inl (AdminStore e)
     | Inr rs \<Rightarrow> Inr (map (\<lambda>r. (sr_SessionID r, sessionState r now', sr_UserID r, dash (sr_Remote r))) rs))"

section \<open>The audit trail\<close>

text \<open>The inner loop of the insertion sort, from position \<open>j\<close> down, and the outer one.\<close>

fun sift :: "audit_event list \<Rightarrow> nat \<Rightarrow> audit_event list" where
  "sift es 0 = es"
| "sift es (Suc j) =
    (if e_Seq (es ! Suc j) > e_Seq (es ! j) then sift (es[Suc j := es ! j, j := es ! Suc j]) j else es)"

definition sortBySeqDesc :: "audit_event list \<Rightarrow> audit_event list" where
  "sortBySeqDesc es = fold (\<lambda>i es. sift es i) [1..<length es] es"

definition denialEvents :: "string list" where
  "denialEvents = [EventGrantDenied, EventStreamDenied, EventEnrollDenied, EventOperatorLoginDenied]"

fun collect_denials ::
  "(nat \<Rightarrow> faults) \<Rightarrow> nat \<Rightarrow> audit_filter \<Rightarrow> string list \<Rightarrow> db \<Rightarrow> audit_event list \<Rightarrow> admin_err + audit_event list" where
  "collect_denials fl k f [] d events = Inr events"
| "collect_denials fl k f (name # names) d events =
    (case QueryAudit (fl k) (f\<lparr>af_Event := name\<rparr>) d of
       Inl e \<Rightarrow> Inl (AdminStore e)
     | Inr batch \<Rightarrow> collect_denials fl (k + 1) f names d (events @ batch))"

text \<open>Slicing to a negative length panics.\<close>

definition cmdAudit_events :: "(nat \<Rightarrow> faults) \<Rightarrow> bool \<Rightarrow> audit_filter \<Rightarrow> db \<Rightarrow> admin_err + audit_event list" where
  "cmdAudit_events fl denials f d =
    (if denials then
       (case collect_denials fl 0 f denialEvents d [] of
          Inl e \<Rightarrow> Inl e
        | Inr events \<Rightarrow>
          let events = sortBySeqDesc events in
          if int (length events) > af_Limit f then
            (if af_Limit f < 0 then Inl SlicePanic else Inr (take (nat (af_Limit f)) events))
          else Inr events)
     else case QueryAudit (fl 0) f d of Inl e \<Rightarrow> Inl (AdminStore e) | Inr events \<Rightarrow> Inr events)"

text \<open>The note that the output was capped.\<close>

definition output_capped :: "audit_filter \<Rightarrow> audit_event list \<Rightarrow> bool" where
  "output_capped f events \<longleftrightarrow> int (length events) = af_Limit f"

definition eventNames :: "(string \<times> string list) list" where
  "eventNames =
    [(''enrollment and identity'', [EventDeviceEnrolled, EventDeviceRevoked, EventOperatorEnrolled, EventOperatorRevoked,
        EventEnrollDenied]),
     (''connections'', [EventDeviceConnected, EventDeviceDisconnected]),
     (''operator sessions'', [EventOperatorLogin, EventOperatorLoginDenied, EventOperatorLogout, EventOperatorSessionEnded]),
     (''authorization'', [EventGrantCreated, EventGrantDenied, EventGrantRevoked]),
     (''access'', [EventStreamOpened, EventStreamDenied, EventStreamClosed]),
     (''administration'', [EventAdminAction])]"

datatype prune_report = PruneEmpty | PruneEstimate nat nat time | Pruned nat

definition auditPrune ::
  "(nat \<Rightarrow> time \<Rightarrow> string) \<Rightarrow> (nat \<Rightarrow> faults) \<Rightarrow> (nat \<Rightarrow> time) \<Rightarrow> duration \<Rightarrow> bool \<Rightarrow> db \<Rightarrow> (admin_err + prune_report) \<times> db" where
  "auditPrune detail fl now age confirm d =
    (let cutoff = now 0 - age in
     case AuditSpan (fl 0) d of
       Inl e \<Rightarrow> (Inl (AdminStore e), d)
     | Inr (count, oldest) \<Rightarrow>
       if count = 0 then (Inr PruneEmpty, d)
       else if \<not> confirm then
         (case QueryAudit (fl 1) \<lparr>af_Since = zero_time, af_Until = cutoff, af_Event = '''', af_ActorID = '''', af_DeviceID = '''',
                 af_ResourceID = '''', af_GrantID = '''', af_Limit = MaxAuditLimit\<rparr> d of
            Inl e \<Rightarrow> (Inl (AdminStore e), d)
          | Inr doomed \<Rightarrow> (Inr (PruneEstimate (length doomed) count oldest), d))
       else case PruneAudit detail (fl 1) (now 1) cutoff ''admin'' d of
         (Inl e, d) \<Rightarrow> (Inl (AdminStore e), d)
       | (Inr removed, d) \<Rightarrow> (Inr (Pruned removed), d))"

section \<open>Lemmas\<close>

text \<open>An authority or a signing key that is on disk is never replaced.\<close>

lemma openAuthority_keeps:
  assumes "fs ''ca.crt'' \<noteq> None \<or> fs ''ca.key'' \<noteq> None"
  shows "snd (openAuthority lib ks env fs) = fs"
  using assms by (auto simp: openAuthority_def ks_Load_def Let_def split: option.split sum.split ks_read.split prod.split)

lemma openIssuer_keeps: "fs ''grant-signing.key'' \<noteq> None \<Longrightarrow> snd (openIssuer lib ks env fs) = fs"
  by (auto simp: openIssuer_def ks_Load_def Let_def split: option.split)

lemma grantState_active: "grantState g now = ''active'' \<longleftrightarrow> grant_Usable g now"
  by (simp add: grantState_def grant_Usable_def)

lemma sessionState_active: "sessionState r now = ''active'' \<longleftrightarrow> session_Active r now"
  by (auto simp: sessionState_def session_Active_def)

text \<open>The names that are shown are the names that can be queried, but for those of renewals.\<close>

lemma eventNames_distinct: "distinct (concat (map snd eventNames))"
  by (simp add: eventNames_def event_defs)

lemma eventNames_omit: "EventDeviceRenewed \<notin> set (concat (map snd eventNames)) \<and>
    EventOperatorRenewed \<notin> set (concat (map snd eventNames)) \<and> EventRenewDenied \<notin> set (concat (map snd eventNames)) \<and>
    EventRenewDenied \<notin> set denialEvents"
  by (simp add: eventNames_def denialEvents_def event_defs)

text \<open>A retention run removes nothing unless it is confirmed.\<close>

lemma auditPrune_unconfirmed: "snd (auditPrune detail fl now age False d) = d"
  by (auto simp: auditPrune_def Let_def split: sum.split)

subsection \<open>Revoking an identity\<close>

text \<open>What follows the revocation leaves the identities alone.\<close>

lemma identities_cascade [simp]:
  "identities (snd (RevokeGrantsWhere f n sc v r e d)) = identities d"
  "identities (snd (RevokeSession f n sid r e d)) = identities d"
  by (auto simp: RevokeGrantsWhere_def RevokeSession_def Let_def audit_grown_def dest!: audit_cascade_Inr appendAudit_Inr
      split: option.split sum.split)

lemma identities_End_session: "identities (snd (End_session fl now sid actor r d)) = identities d"
proof (cases "LookupSessionByID (fl 0 0) sid d")
  case (Inr own)
  let ?role = "actorRole actor (sr_UserID own)"
  let ?e = "no_event\<lparr>e_Event := eventForReason r, e_ActorRole := ?role, e_ActorID := actor\<rparr>"
  obtain x d1 where x: "RevokeSession (fl 1) (now 1) sid r ?e d = (x, d1)" by force
  have "identities d1 = identities d" using arg_cong [OF x, of "\<lambda>r. identities (snd r)"] by simp
  with Inr x show ?thesis by (cases x) (simp_all add: End_session_def Let_def)
qed (simp add: End_session_def)

lemma identities_end_loop: "identities (snd (end_loop fl now k actor r ss d)) = identities d"
proof (induction ss arbitrary: k d)
  case (Cons s ss)
  obtain x d1 where x: "End_session (\<lambda>j. fl (3 * k + j)) (\<lambda>j. now (3 * k + j)) (sr_SessionID s) actor r d = (x, d1)" by force
  obtain y d2 where y: "end_loop fl now (k + 1) actor r ss d1 = (y, d2)" by force
  have "identities d1 = identities d" using identities_End_session [of "\<lambda>j. fl (3 * k + j)"] x by (metis snd_conv)
  moreover have "identities d2 = identities d1" using Cons.IH [of "k + 1" d1] y by simp
  ultimately show ?case using x y by (simp split: sum.split)
qed simp

lemma identities_EndAllForUser: "identities (snd (EndAllForUser f0 n0 fl now f1 n1 u actor r d)) = identities d"
proof (cases "ActiveSessionsForUser f0 n0 u d")
  case (Inr ss)
  let ?e = "no_event\<lparr>e_Event := EventGrantRevoked, e_ActorRole := RoleAdmin, e_ActorID := actor\<rparr>"
  obtain x d1 where x: "end_loop fl now 0 actor r ss d = (x, d1)" by force
  obtain y d2 where y: "RevokeGrantsWhere f1 n1 (Some ScopeUser) u r ?e d1 = (y, d2)" by force
  have "identities d1 = identities d" using identities_end_loop [of fl now 0 actor r ss d] x by simp
  moreover have "identities d2 = identities d1" using arg_cong [OF y, of "\<lambda>r. identities (snd r)"] by simp
  ultimately show ?thesis using Inr x y by (simp add: EndAllForUser_def split: sum.split)
qed (simp add: EndAllForUser_def)

lemma Record_ok: "db_ok d \<Longrightarrow> db_ok (Record rec e d)"
  using exec_ok [of d "CAppendAudit (rec_fails rec) (rec_now rec) x" for x] by (auto simp: Record_def Let_def)

lemma subject_Some:
  "subject device operator = Some (role, ident) \<longleftrightarrow>
    operator \<noteq> '''' \<and> device = '''' \<and> role = RoleOperatorCert \<and> ident = operator \<or>
    operator = '''' \<and> device \<noteq> '''' \<and> role = RoleDeviceCert \<and> ident = device"
  by (auto simp: subject_def)

text \<open>A revocation that succeeds is the revocation of the identity, an event, and the cascade.\<close>

lemma cmdRevoke_Inr:
  assumes "cmdRevoke rec fl now device operator d = (Inr gs, d')"
  obtains role ident d1 e where "subject device operator = Some (role, ident)"
    and "Revoke (fl 0) (now 0) role ident d = (Inr (), d1)"
    and "operator \<noteq> '''' \<longrightarrow> EndAllForUser (fl 1) (now 1) (\<lambda>j. fl (3 + j)) (\<lambda>j. now (3 + j)) (fl 2) (now 2) operator ''admin''
        ReasonIdentityRevoked (Record rec e d1) = (Inr gs, d')"
    and "operator = '''' \<longrightarrow> RevokeGrantsWhere (fl 2) (now 2) (Some ScopeDevice) device ReasonIdentityRevoked
        (no_event\<lparr>e_Event := EventGrantRevoked, e_ActorRole := RoleAdmin, e_ActorID := ''admin''\<rparr>) (Record rec e d1) = (Inr gs, d')"
proof -
  have ne: "RoleDeviceCert \<noteq> RoleOperatorCert" by (simp add: RoleDeviceCert_def RoleOperatorCert_def)
  obtain role ident where sb: "subject device operator = Some (role, ident)"
    using assms by (cases "subject device operator") (auto simp: cmdRevoke_def)
  obtain x d1 where r: "Revoke (fl 0) (now 0) role ident d = (x, d1)" by force
  with assms sb have x: "x = Inr ()" by (cases x) (auto simp: cmdRevoke_def)
  define d2 where "d2 = Record rec (no_event\<lparr>e_Event := revokeEvent role, e_ActorRole := RoleAdmin, e_ActorID := ident,
    e_DeviceID := deviceOf role ident, e_Reason := ReasonIdentityRevoked\<rparr>) d1"
  have "operator \<noteq> '''' \<longrightarrow> EndAllForUser (fl 1) (now 1) (\<lambda>j. fl (3 + j)) (\<lambda>j. now (3 + j)) (fl 2) (now 2) operator ''admin''
        ReasonIdentityRevoked d2 = (Inr gs, d')"
    "operator = '''' \<longrightarrow> RevokeGrantsWhere (fl 2) (now 2) (Some ScopeDevice) device ReasonIdentityRevoked
        (no_event\<lparr>e_Event := EventGrantRevoked, e_ActorRole := RoleAdmin, e_ActorID := ''admin''\<rparr>) d2 = (Inr gs, d')"
    using assms sb [unfolded subject_Some] ne unfolding cmdRevoke_def sb option.case prod.case r x sum.case Let_def d2_def [symmetric]
    by (auto split: sum.splits prod.splits)
  then show ?thesis unfolding d2_def by (rule that [OF sb r [unfolded x]])
qed

lemma Revoke_sessions: "operator_sessions (snd (Revoke f n role ident d)) = operator_sessions d"
  by (auto simp: Revoke_def Let_def split: sum.split)

subsection \<open>The insertion sort\<close>

lemma sift_insort: "sift (xs @ x # zs) (length xs) = rev (insort_key e_Seq x (rev xs)) @ zs"
proof (induction xs arbitrary: zs rule: rev_induct)
  case (snoc y xs)
  show ?case
  proof (cases "e_Seq x > e_Seq y")
    case True
    have "sift ((xs @ [y]) @ x # zs) (length (xs @ [y])) = sift (xs @ x # y # zs) (length xs)"
      using True by (simp add: nth_append list_update_append)
    with True snoc show ?thesis by simp
  next
    case False
    then show ?thesis by (simp add: nth_append)
  qed
qed simp

lemma sort_loop:
  "Suc n \<le> length es \<Longrightarrow> fold (\<lambda>i es. sift es i) [1..<Suc n] es = rev (sort_key e_Seq (rev (take (Suc n) es))) @ drop (Suc n) es"
proof (induction n)
  case 0
  then show ?case by (cases es) simp_all
next
  case (Suc n)
  let ?S = "sort_key e_Seq (rev (take (Suc n) es))"
  from Suc.prems have d: "drop (Suc n) es = es ! Suc n # drop (Suc (Suc n)) es" by (simp add: Cons_nth_drop_Suc)
  have "fold (\<lambda>i es. sift es i) [1..<Suc (Suc n)] es = sift (rev ?S @ es ! Suc n # drop (Suc (Suc n)) es) (length (rev ?S))"
    using Suc d by simp
  also have "\<dots> = rev (insort_key e_Seq (es ! Suc n) ?S) @ drop (Suc (Suc n)) es"
    by (subst sift_insort) simp
  finally show ?case using Suc.prems by (simp add: take_Suc_conv_app_nth [of "Suc n"])
qed

lemma sortBySeqDesc_sorts: "sortBySeqDesc es = rev (sort_key e_Seq (rev es))"
proof (cases es)
  case (Cons e es')
  then show ?thesis using sort_loop [of "length es'" es] by (simp add: sortBySeqDesc_def)
qed (simp add: sortBySeqDesc_def)

subsection \<open>The newest of several listings\<close>

lemma in_take_filter: "x \<in> set (take k xs) \<Longrightarrow> P x \<Longrightarrow> x \<in> set (take k (filter P xs))"
proof (induction xs arbitrary: k)
  case (Cons y ys)
  then show ?case
  proof (cases k)
    case (Suc j)
    with Cons show ?thesis by (auto dest: set_take_subset_set_take [of j "Suc j", THEN subsetD, rotated])
  qed simp
qed simp

lemma take_filter_superset: "set (take k xs) \<subseteq> S \<Longrightarrow> take k (filter (\<lambda>x. x \<in> S) xs) = take k xs"
proof (induction xs arbitrary: k)
  case (Cons y ys)
  then show ?case by (cases k) auto
qed simp

lemma descending_distinct: "sorted_wrt (\<lambda>a b. f b < (f a :: 'b :: linorder)) xs \<Longrightarrow> distinct (map f xs)"
  by (induction xs) auto

lemma distinct_classes:
  "distinct names \<Longrightarrow> distinct xs \<Longrightarrow> distinct (concat (map (\<lambda>n. take k (filter (\<lambda>x. c x = n) xs)) names))"
  by (induction names) (auto dest!: in_set_takeD)

text \<open>The best \<open>k\<close> of the best \<open>k\<close> of each of several classes are the best \<open>k\<close> of all of them.\<close>

lemma merge_newest:
  assumes s: "sorted_wrt (\<lambda>a b. f b < (f a :: 'b :: linorder)) xs" and c: "\<forall>x\<in>set xs. c x \<in> set names" and d: "distinct names"
  shows "take k (rev (sort_key f (rev (concat (map (\<lambda>n. take k (filter (\<lambda>x. c x = n) xs)) names))))) = take k xs"
proof -
  let ?L = "concat (map (\<lambda>n. take k (filter (\<lambda>x. c x = n) xs)) names)"
  have dx: "distinct (map f xs)" using s by (rule descending_distinct)
  have sub: "set ?L \<subseteq> set xs" by (auto dest: in_set_takeD)
  have inj: "inj_on f (set xs)" using dx by (simp add: distinct_map)
  have dL: "distinct ?L"
    using distinct_classes [OF d, of xs k c] dx by (simp add: distinct_map)
  have top: "x \<in> set ?L" if x: "x \<in> set (take k xs)" for x
  proof -
    have "x \<in> set (take k (filter (\<lambda>y. c y = c x) xs))" by (rule in_take_filter [OF x]) simp
    moreover have "c x \<in> set names" using c in_set_takeD [OF x] by blast
    ultimately show ?thesis by auto
  qed
  have sx: "sorted (map f (rev xs))" using s by (induction xs) (auto simp: sorted_append)
  have "sort_key f (rev ?L) = filter (\<lambda>x. x \<in> set ?L) (rev xs)"
  proof (rule map_sorted_distinct_set_unique [where f = f])
    show "inj_on f (set (sort_key f (rev ?L)) \<union> set (filter (\<lambda>x. x \<in> set ?L) (rev xs)))"
      using inj_on_subset [OF inj] sub by auto
    show "sorted (map f (filter (\<lambda>x. x \<in> set ?L) (rev xs)))" using sx by (rule sorted_filter)
    show "distinct (map f (sort_key f (rev ?L)))" using dL inj_on_subset [OF inj sub] by (simp add: distinct_map)
    show "distinct (map f (filter (\<lambda>x. x \<in> set ?L) (rev xs)))" using dx by (simp add: distinct_map_filter rev_map [symmetric])
  qed (use sub in auto)
  then show ?thesis using take_filter_superset [of k xs "set ?L"] top by (simp add: rev_filter subset_iff)
qed

text \<open>All refusals a query selects, newest first.\<close>

definition denial_trail :: "audit_filter \<Rightarrow> db \<Rightarrow> audit_event list" where
  "denial_trail f d = map event_of (rev (filter (\<lambda>r. audit_match (f\<lparr>af_Event := ''''\<rparr>) r \<and> a_event r \<in> set denialEvents) (audit_events d)))"

lemma event_of_sel [simp]: "e_Seq (event_of r) = a_seq r" "e_Event (event_of r) = a_event r"
  by (simp_all add: event_of_def)

lemma denialEvents_named: "n \<in> set denialEvents \<Longrightarrow> n \<noteq> ''''" "distinct denialEvents"
  by (auto simp: denialEvents_def event_defs)

lemma audit_rows_sorted: "db_ok d \<Longrightarrow> sorted_wrt (\<lambda>a b. a_seq a < a_seq b) (audit_events d)"
  by (simp add: db_ok_def audit_ok_def sorted_wrt_map)

lemma QueryAudit_rows:
  assumes "db_ok d" and "1 \<le> af_Limit f" and "af_Limit f \<le> MaxAuditLimit"
  shows "QueryAudit fails f d = (if fails 0 then Inl ErrSQL
    else Inr (map event_of (take (nat (af_Limit f)) (rev (filter (audit_match f) (audit_events d))))))"
proof -
  have "sorted_wrt (\<lambda>a b. a_seq a < a_seq b) (filter (audit_match f) (audit_events d))"
    using audit_rows_sorted [OF assms(1)] by (rule sorted_wrt_filter)
  then have "sorted (map a_seq (filter (audit_match f) (audit_events d)))"
    by (auto simp: sorted_wrt_map intro: sorted_wrt_mono_rel [rotated])
  then have "sort_key a_seq (filter (audit_match f) (audit_events d)) = filter (audit_match f) (audit_events d)"
    by (rule sort_key_id_if_sorted)
  moreover have "clamp_limit (af_Limit f) = nat (af_Limit f)" using assms(2,3) by (simp add: clamp_limit_def Let_def)
  ultimately show ?thesis by (simp add: QueryAudit_def)
qed

lemma denial_batch:
  assumes "n \<in> set denialEvents"
  shows "filter (\<lambda>e. e_Event e = n) (denial_trail f d) = map event_of (rev (filter (audit_match (f\<lparr>af_Event := n\<rparr>)) (audit_events d)))"
proof -
  have "(audit_match (f\<lparr>af_Event := ''''\<rparr>) r \<and> a_event r \<in> set denialEvents) \<and> a_event r = n \<longleftrightarrow> audit_match (f\<lparr>af_Event := n\<rparr>) r" for r
    using assms denialEvents_named(1) [OF assms] by (auto simp: audit_match_def)
  then show ?thesis by (simp add: denial_trail_def filter_map rev_filter comp_def conj_commute)
qed

lemma collect_denials_eq:
  assumes "db_ok d" and "1 \<le> af_Limit f" and "af_Limit f \<le> MaxAuditLimit"
  shows "set names \<subseteq> set denialEvents \<Longrightarrow> collect_denials fl k f names d es =
    (if \<exists>j<length names. fl (k + j) 0 then Inl (AdminStore ErrSQL)
     else Inr (es @ concat (map (\<lambda>n. take (nat (af_Limit f)) (filter (\<lambda>e. e_Event e = n) (denial_trail f d))) names)))"
proof (induction names arbitrary: k es)
  case (Cons n names)
  have "QueryAudit (fl k) (f\<lparr>af_Event := n\<rparr>) d = (if fl k 0 then Inl ErrSQL
      else Inr (take (nat (af_Limit f)) (filter (\<lambda>e. e_Event e = n) (denial_trail f d))))"
    using QueryAudit_rows [of d "f\<lparr>af_Event := n\<rparr>"] assms denial_batch [of n f d] Cons.prems by (simp add: take_map)
  with Cons show ?case by (simp add: Ex_less_Suc2)
qed simp

section \<open>Properties\<close>


definition demo_trail :: db where
  "demo_trail = empty_db\<lparr>audit_events :=
     [audit_row_of 1 (no_event\<lparr>e_Event := EventGrantDenied\<rparr>), audit_row_of 2 (no_event\<lparr>e_Event := EventStreamDenied\<rparr>),
      audit_row_of 3 (no_event\<lparr>e_Event := EventGrantCreated\<rparr>)], audit_last := 3\<rparr>"

definition demo_filter :: "int \<Rightarrow> audit_filter" where
  "demo_filter limit = \<lparr>af_Since = zero_time, af_Until = zero_time, af_Event = '''', af_ActorID = '''', af_DeviceID = '''',
     af_ResourceID = '''', af_GrantID = '''', af_Limit = limit\<rparr>"

lemma audit_row_of_sel [simp]: "a_seq (audit_row_of n e) = n" "a_event (audit_row_of n e) = e_Event e"
  by (simp_all add: audit_row_of_def)

lemma demo_trail_ok: "db_ok demo_trail"
  by (simp add: db_ok_def audit_ok_def demo_trail_def empty_db_def no_event_def event_defs maxSeq_def)

lemma demo_match [simp]: "audit_match (demo_filter l) r" "audit_match (demo_filter l\<lparr>af_Event := n\<rparr>) r \<longleftrightarrow> n = '''' \<or> a_event r = n"
  by (auto simp: audit_match_def demo_filter_def IsZero_def)

lemma demo_denial_trail:
  "map e_Seq (denial_trail (demo_filter l) demo_trail) = [2, 1]"
  by (simp add: denial_trail_def demo_trail_def denialEvents_def no_event_def event_defs)


text \<open>A limit of zero means the default to the store, and none at all to the listing of refusals; a
  negative one ends the program.\<close>

lemma denials_limit_zero:
  "cmdAudit_events (\<lambda>_ _. False) True (demo_filter 0) demo_trail = Inr []"
  "cmdAudit_events (\<lambda>_ _. False) False (demo_filter 0) demo_trail = Inr (map event_of (rev (audit_events demo_trail)))"
  "cmdAudit_events (\<lambda>_ _. False) True (demo_filter (- 1)) demo_trail = Inl SlicePanic"
proof -
  have c: "collect_denials (\<lambda>_ _. False) 0 (demo_filter l) denialEvents demo_trail [] =
      Inr [event_of (audit_row_of 1 (no_event\<lparr>e_Event := EventGrantDenied\<rparr>)), event_of (audit_row_of 2 (no_event\<lparr>e_Event := EventStreamDenied\<rparr>))]"
    if "l \<le> 0" for l
    using that by (simp add: denialEvents_def QueryAudit_def demo_trail_def no_event_def event_defs clamp_limit_def DefaultAuditLimit_def
        MaxAuditLimit_def Let_def)
  have l: "af_Limit (demo_filter l) = l" for l by (simp add: demo_filter_def)
  show "cmdAudit_events (\<lambda>_ _. False) True (demo_filter 0) demo_trail = Inr []"
    "cmdAudit_events (\<lambda>_ _. False) True (demo_filter (- 1)) demo_trail = Inl SlicePanic"
    by (simp_all add: cmdAudit_events_def c l Let_def sortBySeqDesc_sorts)
  show "cmdAudit_events (\<lambda>_ _. False) False (demo_filter 0) demo_trail = Inr (map event_of (rev (audit_events demo_trail)))"
    by (simp add: cmdAudit_events_def QueryAudit_def l clamp_limit_def DefaultAuditLimit_def MaxAuditLimit_def demo_trail_def)
qed

text \<open>C13: Revoking an identity is complete. When the command reports success, no certificate of the
  identity is accepted any more; of an operator, no session that was active when the sessions were
  listed is still open (for up to the ten thousand it can list) and no unexpired grant is live; of a
  device, no unexpired grant naming it is live.\<close>
theorem cmdRevoke_complete:
  assumes "db_ok d" and "cmdRevoke rec fl now device operator d = (Inr gs, d')"
    and "length (filter (\<lambda>x. s_user_id x = operator \<and> s_revoked_at x = None \<and> s_expires_at x > unix (now 1))
      (operator_sessions d)) \<le> 10000"
  shows "(\<forall>i c. subject device operator = Some (n_Role i, n_ID i) \<and> IdentityOf c = Inr i \<longrightarrow> \<not> accepted d' c) \<and>
    (operator \<noteq> '''' \<longrightarrow>
      (\<forall>x\<in>set (operator_sessions d'). s_user_id x = operator \<and> s_revoked_at x = None \<longrightarrow> s_expires_at x \<le> unix (now 1)) \<and>
      (\<forall>gid x. live d' gid = Some x \<and> gt_user_id x = operator \<longrightarrow> gt_expires_at x \<le> unix (now 2))) \<and>
    (device \<noteq> '''' \<longrightarrow> (\<forall>gid x. live d' gid = Some x \<and> gt_device_id x = device \<longrightarrow> gt_expires_at x \<le> unix (now 2)))"
proof -
  obtain role ident d1 e where sb: "subject device operator = Some (role, ident)"
    and r: "Revoke (fl 0) (now 0) role ident d = (Inr (), d1)"
    and E: "operator \<noteq> '''' \<longrightarrow> EndAllForUser (fl 1) (now 1) (\<lambda>j. fl (3 + j)) (\<lambda>j. now (3 + j)) (fl 2) (now 2) operator ''admin''
        ReasonIdentityRevoked (Record rec e d1) = (Inr gs, d')"
    and G: "operator = '''' \<longrightarrow> RevokeGrantsWhere (fl 2) (now 2) (Some ScopeDevice) device ReasonIdentityRevoked
        (no_event\<lparr>e_Event := EventGrantRevoked, e_ActorRole := RoleAdmin, e_ActorID := ''admin''\<rparr>) (Record rec e d1) = (Inr gs, d')"
    by (rule cmdRevoke_Inr [OF assms(2)], rule that, assumption+)
  have ids: "identities d' = identities d1"
  proof (cases "operator = ''''")
    case True
    then show ?thesis using arg_cong [OF G [rule_format, OF True], of "\<lambda>r. identities (snd r)"] by simp
  next
    case False
    then show ?thesis using arg_cong [OF E [rule_format, OF False], of "\<lambda>r. identities (snd r)"] by (simp add: identities_EndAllForUser)
  qed
  have "\<not> accepted d' c" if "subject device operator = Some (n_Role i, n_ID i)" "IdentityOf c = Inr i" for i and c :: "'a cert"
    using Revoke_id_at [of "fl 0" "now 0" i d d1] r that sb ids by (auto simp: accepted_iff acceptable_def id_at_def)
  moreover have "(\<forall>x\<in>set (operator_sessions d'). s_user_id x = operator \<and> s_revoked_at x = None \<longrightarrow> s_expires_at x \<le> unix (now 1)) \<and>
      (\<forall>gid x. live d' gid = Some x \<and> gt_user_id x = operator \<longrightarrow> gt_expires_at x \<le> unix (now 2))" if "operator \<noteq> ''''"
  proof (rule EndAllForUser_complete [OF _ that E [rule_format, OF that]])
    show "db_ok (Record rec e d1)" using exec_ok [OF assms(1), of "CRevoke (fl 0) (now 0) role ident"] r by (simp add: Record_ok)
    show "length (filter (\<lambda>x. s_user_id x = operator \<and> s_revoked_at x = None \<and> s_expires_at x > unix (now 1))
      (operator_sessions (Record rec e d1))) \<le> 10000"
      using assms(3) Revoke_sessions [of "fl 0" "now 0" role ident d] r by simp
  qed
  moreover have "gt_expires_at x \<le> unix (now 2)" if "device \<noteq> ''''" "live d' gid = Some x" "gt_device_id x = device" for gid x
  proof -
    have "operator = ''''" using sb that(1) by (auto simp: subject_Some)
    note g = G [rule_format, OF this]
    from live_RevokeGrantsWhere [OF arg_cong [OF g, of fst, unfolded fst_conv], of gid] that
    show ?thesis unfolding g by (auto split: option.splits if_splits)
  qed
  ultimately show ?thesis by blast
qed

theorem cmdRevoke_complete_witness:
  "\<exists>gs d d'. accepted d (demo_cert 1) \<and>
     cmdRevoke \<lparr>rec_store = True, rec_fails = (\<lambda>_. False), rec_now = 9\<rparr> (\<lambda>_ _. False) (\<lambda>_. 9) ''d1'' '''' d = (Inr gs, d') \<and>
     \<not> accepted d' (demo_cert 1)"
proof -
  let ?d = "empty_db\<lparr>identities := [\<lparr>i_role = ''device'', i_id = ''d1'', i_enrolled_at = 0, i_serial_hex = ''1'',
    i_revoked_at = None, i_pending_serial_hex = [], i_pending_issued_at = None\<rparr>]\<rparr>"
  let ?rec = "\<lparr>rec_store = True, rec_fails = (\<lambda>_. False), rec_now = 9\<rparr>"
  have a: "accepted ?d (demo_cert 1)"
    by (auto simp: accepted_iff demo_identity id_at_def acceptable_def hex_nat_1)
  have g: "grants (Record rec e d) = grants d" for rec e d
    by (auto simp: Record_def AppendAudit_def Let_def dest: appendAudit_grants split: sum.split)
  have "\<exists>gs d'. cmdRevoke ?rec (\<lambda>_ _. False) (\<lambda>_. 9) ''d1'' '''' ?d = (Inr gs, d')"
    by (auto simp: cmdRevoke_def subject_def Revoke_def RoleDeviceCert_def RoleOperatorCert_def RevokeGrantsWhere_def commit_def Let_def g
        empty_db_def split: sum.split)
  then obtain gs d' where r: "cmdRevoke ?rec (\<lambda>_ _. False) (\<lambda>_. 9) ''d1'' '''' ?d = (Inr gs, d')" by blast
  have "db_ok ?d" by (simp add: db_ok_def empty_db_def audit_ok_def maxSeq_def)
  from cmdRevoke_complete [OF this r, THEN conjunct1, rule_format, of "\<lparr>n_Role = ''device'', n_ID = ''d1''\<rparr>" "demo_cert 1"]
  have "\<not> accepted d' (demo_cert 1)"
    by (simp add: subject_def RoleDeviceCert_def demo_identity empty_db_def)
  with a r show ?thesis by blast
qed

text \<open>What is needed of the library for keys and of the keystore: they read back what they wrote.\<close>

definition keys_ok :: "('pk, byte list, byte list, 'der) x509 \<Rightarrow> keystore \<Rightarrow> ('pk, 'der) open_env \<Rightarrow> bool" where
  "keys_ok lib ks env \<longleftrightarrow> x509_ok lib \<and> (\<forall>k der. oe_marshal env k = Some der \<longrightarrow> x_parse_key lib der = Some (Some k)) \<and>
     (\<forall>m s p. ks_seal ks m = Some (s, p) \<longrightarrow> (\<exists>q. ks_open ks s = Some (m, q)))"

text \<open>Nothing fails.\<close>

definition quiet :: "('pk, 'der) open_env \<Rightarrow> bool" where
  "quiet env \<longleftrightarrow> \<not> de_mkdir (oe_disk env) 0 \<and> (\<forall>p. \<not> oe_unreadable env p) \<and> \<not> oe_store env"

lemma ca_Load_created:
  assumes "x509_ok lib" and "ca_Create lib kp serial now name ttl = Inr ca"
    and "x_parse_key lib der = Some (Some (ca_key ca))"
  shows "ca_Load lib (CertPEM lib ca) (x_pem_encode lib ''PRIVATE KEY'' der) = Inr ca"
proof -
  from assms(2) obtain sn pub priv d c where c: "x_create lib (ca_template sn name now ttl) (ca_template sn name now ttl) pub priv = Some d"
    "x_parse_cert lib d = Some c" "ca = \<lparr>ca_cert = c, ca_key = priv, ca_der = d\<rparr>"
    by (auto simp: ca_Create_def Let_def split: option.splits prod.splits)
  with assms(1) have "c_IsCA c" unfolding x509_ok_def by (fastforce simp: ca_template_def)
  with assms c show ?thesis by (simp add: ca_Load_def CertPEM_def x509_ok_def)
qed

lemma openAuthority_again:
  assumes ok: "keys_ok lib ks env" and "openAuthority lib ks env fs = (Inr ca, fs1)" and "quiet env2"
    and same: "fs2 ''ca.crt'' = fs1 ''ca.crt''" "fs2 ''ca.key'' = fs1 ''ca.key''"
  shows "openAuthority lib ks env2 fs2 = (Inr ca, fs2)"
proof -
  have "\<exists>certPEM keyPEM sealed q. fs1 ''ca.crt'' = Some certPEM \<and> fs1 ''ca.key'' = Some sealed \<and> ks_open ks sealed = Some (keyPEM, q) \<and>
      ca_Load lib certPEM keyPEM = Inr ca"
  proof (cases "fs ''ca.crt'' = None \<and> ks_Load ks (oe_unreadable env ''ca.key'') ''ca.key'' fs = KsNotFound")
    case False
    with assms(2) show ?thesis
      by (auto simp: openAuthority_def ks_Load_def Let_def split: if_splits option.splits ks_read.splits sum.splits prod.splits)
  next
    case True
    with assms(2) obtain der p fs' where c: "ca_Create lib (oe_authority_key env) (oe_serial env) (oe_now env 0)
        ''secure-access-relay development authority'' caTTL = Inr ca" and m: "oe_marshal env (ca_key ca) = Some der"
      and s: "ks_Save ks (oe_disk env) ''ca.key'' (x_pem_encode lib ''PRIVATE KEY'' der) fs = (Inr p, fs')"
      and w: "WriteFile (de_write (oe_disk env) 0) ''ca.crt'' (CertPEM lib ca) fs' = (True, fs1)"
      by (auto simp: openAuthority_def Let_def split: if_splits sum.splits option.splits prod.splits bool.splits)
    from ks_Save_Inr [OF s] obtain sealed where k: "ks_seal ks (x_pem_encode lib ''PRIVATE KEY'' der) = Some (sealed, p)"
      "fs' ''ca.key'' = Some sealed" by auto
    from ok k(1) obtain q where q: "ks_open ks sealed = Some (x_pem_encode lib ''PRIVATE KEY'' der, q)"
      unfolding keys_ok_def by blast
    have f: "fs1 ''ca.crt'' = Some (CertPEM lib ca)" "fs1 ''ca.key'' = Some sealed" using WriteFile_ok [OF w] k(2) by auto
    have "ca_Load lib (CertPEM lib ca) (x_pem_encode lib ''PRIVATE KEY'' der) = Inr ca"
      using ok m by (intro ca_Load_created [OF _ c]) (auto simp: keys_ok_def)
    with f q show ?thesis by blast
  qed
  then show ?thesis
    using assms(3) same by (auto simp: openAuthority_def ks_Load_def quiet_def Let_def)
qed

lemma openIssuer_again:
  assumes ok: "keys_ok lib ks env" and "openIssuer lib ks env fs = (Inr iss, fs1)" and "quiet env2"
  shows "openIssuer lib ks env2 fs1 = (Inr iss, fs1)"
proof (cases "fs ''grant-signing.key''")
  case (Some sealed)
  with assms(2) have "fs1 = fs" using openIssuer_keeps [of fs lib ks env] by simp
  with Some assms(2,3) show ?thesis
    by (auto simp: openIssuer_def ks_Load_def quiet_def Let_def split: option.splits if_splits prod.splits)
next
  case None
  with assms(2) obtain priv der p fs' where k: "oe_signing_key env = Some priv" "oe_marshal env priv = Some der"
    and s: "ks_Save ks (oe_disk_grant env) ''grant-signing.key'' (x_pem_encode lib ''PRIVATE KEY'' der) fs = (Inr p, fs1)"
    and n: "NewIssuer priv grantKeyID = Inr iss"
    by (auto simp: openIssuer_def ks_Load_def Let_def split: option.splits sum.splits prod.splits)
  from ks_Save_Inr [OF s] obtain sealed where f: "ks_seal ks (x_pem_encode lib ''PRIVATE KEY'' der) = Some (sealed, p)"
    "fs1 ''grant-signing.key'' = Some sealed" by auto
  from ok f(1) obtain q where "ks_open ks sealed = Some (x_pem_encode lib ''PRIVATE KEY'' der, q)" unfolding keys_ok_def by blast
  with f ok k n assms(3) show ?thesis by (auto simp: openIssuer_def ks_Load_def quiet_def keys_ok_def x509_ok_def Let_def)
qed

lemma openIssuer_authority:
  assumes "openIssuer lib ks env fs = (r, fs1)"
  shows "fs1 ''ca.crt'' = fs ''ca.crt''" "fs1 ''ca.key'' = fs ''ca.key''"
  using assms
  by (auto simp: openIssuer_def Let_def dest!: ks_Save_Inr dest: ks_Save_Inl [where f = "''ca.crt''"] ks_Save_Inl [where f = "''ca.key''"]
      split: ks_read.splits option.splits sum.splits prod.splits)

text \<open>C39: A deployment keeps its keys. Once it has been opened, created or not, opening it again finds the
  same authority and the same signing key, whatever keys would be generated otherwise, writes nothing,
  and succeeds if the state is readable and the former store's import does not fail.\<close>
theorem deployment_stable:
  assumes "keys_ok lib ks env" and "openDeployment lib ks pub env ttl import (fs, d) = (Inr dep, fs1, d1)"
    and "quiet env2" and "import2 d2 = (Inr n, d3)"
  shows "\<exists>dep2. openDeployment lib ks pub env2 ttl2 import2 (fs1, d2) = (Inr dep2, fs1, d3) \<and>
    dp_authority dep2 = dp_authority dep \<and> dp_issuer dep2 = dp_issuer dep"
proof -
  obtain ca fs' where a: "openAuthority lib ks env fs = (Inr ca, fs')"
    using assms(2) by (auto simp: openDeployment_def split: sum.splits prod.splits)
  obtain iss where i: "openIssuer lib ks env fs' = (Inr iss, fs1)" and
    dep: "dp_authority dep = ca" "dp_issuer dep = WithStore True iss"
    using assms(2) a by (auto simp: openDeployment_def Let_def split: if_splits sum.splits prod.splits)
  have "openAuthority lib ks env2 fs1 = (Inr ca, fs1)"
    using openAuthority_again [OF assms(1) a assms(3) openIssuer_authority [OF i]] .
  with openIssuer_again [OF assms(1) i assms(3)] assms(3,4) dep show ?thesis
    by (simp add: openDeployment_def quiet_def Let_def)
qed

text \<open>A library with one certificate, and text before its contents escaped.\<close>

fun plain_decode :: "byte list \<Rightarrow> (string \<times> byte list) option" where
  "plain_decode (x # y # r) = (if x = 1 then map_option (\<lambda>(ty, der). (string_of [y] @ ty, der)) (plain_decode r) else Some ('''', y # r))"
| "plain_decode (x # []) = Some ('''', [])"
| "plain_decode [] = None"

fun plain_encode :: "string \<Rightarrow> byte list \<Rightarrow> byte list" where
  "plain_encode [] der = 0 # der"
| "plain_encode (c # ty) der = 1 # bytes_of [c] @ plain_encode ty der"

lemma plain_decode_encode [simp]: "plain_decode (plain_encode ty der) = Some (ty, der)"
proof (induction ty)
  case Nil
  then show ?case by (cases der) simp_all
next
  case (Cons c ty)
  have "bytes_of [c] = [hd (bytes_of [c])]" by (simp add: bytes_of_def)
  moreover have "string_of [hd (bytes_of [c])] = [c]" by (simp add: bytes_of_def string_of_def)
  ultimately show ?case using Cons by (simp add: bytes_of_def)
qed

definition plain_ca :: "unit cert" where
  "plain_ca = ca_template 1 ''secure-access-relay development authority'' 0 caTTL"

definition plain_lib :: "(unit, byte list, byte list, byte list) x509" where
  "plain_lib = \<lparr>x_pem_encode = plain_encode, x_pem_decode = plain_decode,
     x_create = (\<lambda>t p k sk. if t = plain_ca then Some [7] else None),
     x_parse_cert = (\<lambda>der. if der = [7] then Some (plain_ca\<lparr>c_PublicKey := Some ()\<rparr>) else None),
     x_parse_csr = (\<lambda>_. None), x_parse_key = (\<lambda>der. Some (Some der)), x_parse_ip = (\<lambda>_. None)\<rparr>"

definition plain_env :: "byte \<Rightarrow> (unit, byte list) open_env" where
  "plain_env b = \<lparr>oe_disk = \<lparr>de_mkdir = (\<lambda>_. False), de_tmp = WOk, de_rename = False, de_write = (\<lambda>_. WOk)\<rparr>,
     oe_disk_grant = \<lparr>de_mkdir = (\<lambda>_. False), de_tmp = WOk, de_rename = False, de_write = (\<lambda>_. WOk)\<rparr>,
     oe_unreadable = (\<lambda>_. False), oe_authority_key = Some ((), [b]), oe_serial = Some 1, oe_now = (\<lambda>_. 0),
     oe_signing_key = Some (replicate 64 b), oe_marshal = Some, oe_store = False\<rparr>"

theorem deployment_stable_witness:
  "\<exists>dep fs1 dep2. openDeployment plain_lib other_keystore (\<lambda>_. ()) (plain_env 3) 0 (\<lambda>d. (Inr 0, d)) (Map.empty, empty_db) =
       (Inr dep, fs1, empty_db) \<and>
     openDeployment plain_lib other_keystore (\<lambda>_. ()) (plain_env 4) 0 (\<lambda>d. (Inr 0, d)) (fs1, empty_db) = (Inr dep2, fs1, empty_db) \<and>
     is_key (dp_issuer dep2) = replicate 64 3"
proof -
  let ?O = "\<lambda>b. openDeployment plain_lib other_keystore (\<lambda>_. ()) (plain_env b) 0 (\<lambda>d. (Inr 0, d))"
  have "x509_ok plain_lib" by (auto simp: x509_ok_def plain_lib_def)
  then have ok: "keys_ok plain_lib other_keystore (plain_env 3)"
    by (simp add: keys_ok_def plain_lib_def plain_env_def other_keystore_def)
  have q: "quiet (plain_env 4)" by (simp add: quiet_def plain_env_def)
  have "\<exists>dep fs1. ?O 3 (Map.empty, empty_db) = (Inr dep, fs1, empty_db) \<and> is_key (dp_issuer dep) = replicate 64 3"
    by (simp add: openDeployment_def openAuthority_def openIssuer_def ks_Load_def ks_Save_def WriteFile_def other_keystore_def
        plain_env_def plain_lib_def ca_Create_def plain_ca_def Let_def NewIssuer_def PrivateKeySize_def grantKeyID_def WithStore_def)
  then obtain dep fs1 where d: "?O 3 (Map.empty, empty_db) = (Inr dep, fs1, empty_db)" "is_key (dp_issuer dep) = replicate 64 3" by blast
  from deployment_stable [OF ok d(1) q, of "\<lambda>d. (Inr 0, d)" empty_db 0 empty_db 0] d show ?thesis by auto
qed

end
