(* ===== verification/Commands.thy ===== *)
theory Commands
  imports Operator_Forward
begin

text \<open>
  The commands of the two clients: \<open>cmd/sarctl/main.go\<close> (login, logout, connect and the renewal before them)
  and what \<open>cmd/sar-agent/main.go\<close> serves. Flags are arguments, messages are left out, and a command's
  context never ends.
\<close>

section \<open>The operator's commands\<close>

datatype command_err = CmdIdentity peer_err | CmdOperator operator_err | CmdForward forward_err | NoDevice | NoResourceGiven
  | CmdCode code_err | NoCode | TwoSources | NoResourceFlag | NothingToServe | CmdAgent agent_err

text \<open>What the disk and the network do during a command: reading and writing the identity, and the key
  and the reply of a renewal.\<close>

record command_env =
  ce_unreadable :: "string \<Rightarrow> bool"
  ce_disk :: disk_env
  ce_key :: new_key
  ce_reply :: reply
  ce_session_disk :: disk_env
  ce_remove_fails :: bool
  ce_now :: "nat \<Rightarrow> time"

definition sarctl_renewIfDue ::
  "('pk, 'tls, 'pool) peer_lib \<Rightarrow> keystore \<Rightarrow> command_env \<Rightarrow> string \<Rightarrow> ('tls, 'pool) peer_identity \<Rightarrow> dir \<Rightarrow>
     ('tls, 'pool) peer_identity \<times> dir" where
  "sarctl_renewIfDue lib ks env controlAddr i fs =
    (if peer_Expired i (ce_now env 0) then (i, fs)
     else if \<not> DueForRenewal i (ce_now env 1) then (i, fs)
     else case RenewIfDue lib ks (ce_unreadable env) (ce_disk env) (ce_key env) (ce_reply env) (ce_now env 2) (Some i) controlAddr fs of
       ((renewed, ok, err), fs) \<Rightarrow> if err \<noteq> None then (i, fs) else (the renewed, fs))"

definition cmdEnroll ::
  "(byte list \<Rightarrow> code option) \<Rightarrow> (code \<Rightarrow> dir \<Rightarrow> (peer_err + ('tls, 'pool) peer_identity) \<times> dir) \<Rightarrow> string \<Rightarrow> dir \<Rightarrow>
     (command_err + ('tls, 'pool) peer_identity) \<times> dir" where
  "cmdEnroll unmarshal enroll code fs =
    (if code = '''' then (Inl NoCode, fs)
     else case DecodeCode unmarshal code of
       Inl e \<Rightarrow> (Inl (CmdCode e), fs)
     | Inr parsed \<Rightarrow>
       (case enroll parsed fs of
          (Inl e, fs) \<Rightarrow> (Inl (CmdIdentity e), fs)
        | (Inr i, fs) \<Rightarrow> (Inr i, fs)))"

definition cmdLogin ::
  "('pk, 'tls, 'pool) peer_lib \<Rightarrow> keystore \<Rightarrow> session_json \<Rightarrow> command_env \<Rightarrow> login_reply control \<Rightarrow> string \<Rightarrow> dir \<Rightarrow>
     (command_err + op_session) \<times> dir" where
  "cmdLogin lib ks js env control controlAddr fs =
    (case peer_Load lib ks (ce_unreadable env) fs of
       Inl e \<Rightarrow> (Inl (CmdIdentity e), fs)
     | Inr i \<Rightarrow>
       (case sarctl_renewIfDue lib ks env controlAddr i fs of
          (i, fs) \<Rightarrow>
          (case op_Login control controlAddr of
             Inl e \<Rightarrow> (Inl (CmdOperator e), fs)
           | Inr sess \<Rightarrow>
             (case SaveSession js ks (ce_session_disk env) sess fs of
                (Some e, fs) \<Rightarrow> (Inl (CmdOperator e), fs)
              | (None, fs) \<Rightarrow> (Inr sess, fs)))))"

text \<open>The value is the number of grants revoked, or \<^const>\<open>None\<close> if there was no session.\<close>

definition cmdLogout ::
  "('pk, 'tls, 'pool) peer_lib \<Rightarrow> keystore \<Rightarrow> session_json \<Rightarrow> command_env \<Rightarrow> logout_reply control \<Rightarrow> string \<Rightarrow> dir \<Rightarrow>
     (command_err + int option) \<times> dir" where
  "cmdLogout lib ks js env control controlAddr fs =
    (case peer_Load lib ks (ce_unreadable env) fs of
       Inl e \<Rightarrow> (Inl (CmdIdentity e), fs)
     | Inr i \<Rightarrow>
       (case LoadSession js ks (ce_unreadable env sessionFile) fs of
          Inl e \<Rightarrow> (Inr None, fs)
        | Inr sess \<Rightarrow>
          let logout = op_Logout control controlAddr sess in
          case ClearSession (ce_remove_fails env) fs of
            (Some e, fs) \<Rightarrow> (Inl (CmdOperator e), fs)
          | (None, fs) \<Rightarrow> (case logout of Inl e \<Rightarrow> (Inl (CmdOperator e), fs) | Inr n \<Rightarrow> (Inr (Some n), fs))))"

text \<open>The session provider \<open>connect\<close> gives to its forwarder.\<close>

definition session_provider ::
  "session_json \<Rightarrow> keystore \<Rightarrow> command_env \<Rightarrow> login_reply control \<Rightarrow> string \<Rightarrow> dir \<Rightarrow> (operator_err + string) \<times> dir" where
  "session_provider js ks env control controlAddr fs =
    (case EnsureSession js ks (ce_unreadable env sessionFile) (ce_session_disk env) (ce_now env 3) control controlAddr fs of
       (Inl e, fs) \<Rightarrow> (Inl e, fs)
     | (Inr sess, fs) \<Rightarrow> (Inr (os_Token sess), fs))"

definition cmdConnect ::
  "('pk, 'tls, 'pool) peer_lib \<Rightarrow> keystore \<Rightarrow> 'f float_ops \<Rightarrow> command_env \<Rightarrow> string \<Rightarrow> string \<Rightarrow> string \<Rightarrow> string \<Rightarrow> string \<Rightarrow>
     duration \<Rightarrow> dir \<Rightarrow> (command_err + ('tls, 'pool, 'f) forwarder) \<times> dir" where
  "cmdConnect lib ks fl env relayAddr controlAddr listen device resource ttl fs =
    (if device = '''' then (Inl NoDevice, fs)
     else if resource = '''' then (Inl NoResourceGiven, fs)
     else case peer_Load lib ks (ce_unreadable env) fs of
       Inl e \<Rightarrow> (Inl (CmdIdentity e), fs)
     | Inr i \<Rightarrow>
       (case sarctl_renewIfDue lib ks env controlAddr i fs of
          (i, fs) \<Rightarrow>
          (case op_New fl \<lparr>oc_RelayAddr = relayAddr, oc_ListenAddr = listen, oc_Identity = Some i, oc_Resource = resource,
                  oc_DeviceID = device, oc_ControlAddr = controlAddr, oc_GrantTTL = ttl, oc_Session = True,
                  oc_KeepAlive = 0, oc_IdleTimeout = 0\<rparr> of
             Inl e \<Rightarrow> (Inl (CmdForward e), fs)
           | Inr f \<Rightarrow> (Inr f, fs))))"

section \<open>What the agent serves\<close>

definition resolveResources :: "resource list option \<Rightarrow> string \<Rightarrow> string \<Rightarrow> string \<Rightarrow> command_err + allowlist" where
  "resolveResources declared path target resourceID =
    (if path \<noteq> '''' \<and> target \<noteq> '''' then Inl TwoSources
     else if path \<noteq> '''' then (case LoadAllowlist declared of Inl e \<Rightarrow> Inl (CmdAgent e) | Inr list \<Rightarrow> Inr list)
     else if target \<noteq> '''' then
       (if resourceID = '''' then Inl NoResourceFlag
        else Inr [(resourceID, \<lparr>rs_ResourceID = resourceID, rs_Name = resourceID, rs_Protocol = ''tcp'', rs_Target = target,
                                rs_MaxBytes = 0, rs_MaxDuration = 0\<rparr>)])
     else Inl NothingToServe)"

definition agent_cmdRun ::
  "('pk, 'tls, 'pool) peer_lib \<Rightarrow> keystore \<Rightarrow> command_env \<Rightarrow> resource list option \<Rightarrow> string \<Rightarrow> string \<Rightarrow> string \<Rightarrow>
     ('tls, 'pool) agent_config \<Rightarrow> dir \<Rightarrow> command_err + ('tls, 'pool) agent" where
  "agent_cmdRun lib ks env declared path target resourceID cfg fs =
    (case peer_Load lib ks (ce_unreadable env) fs of
       Inl e \<Rightarrow> Inl (CmdIdentity e)
     | Inr i \<Rightarrow>
       (case resolveResources declared path target resourceID of
          Inl e \<Rightarrow> Inl e
        | Inr list \<Rightarrow>
          (case agent_New (cfg\<lparr>ac_Identity := Some i, ac_Resources := list\<rparr>) of
             Inl e \<Rightarrow> Inl (CmdAgent e)
           | Inr a \<Rightarrow> Inr a)))"

section \<open>Lemmas\<close>

text \<open>After a logout that could remove the file there is no stored session, whatever the control plane
  replied.\<close>

lemma cmdLogout_forgets:
  assumes "cmdLogout lib ks js env control addr fs = (r, fs')" and "\<not> ce_remove_fails env"
    and "LoadSession js ks (ce_unreadable env sessionFile) fs = Inr sess" and "peer_Load lib ks (ce_unreadable env) fs = Inr i"
  shows "LoadSession js ks u fs' = Inl ErrNoSession"
proof -
  have "ClearSession (ce_remove_fails env) fs = (None, fs')"
    using assms by (auto simp: cmdLogout_def ClearSession_def Let_def split: sum.splits)
  then show ?thesis by (rule ClearSession_LoadSession)
qed

text \<open>A failed renewal never keeps an operator from working: the command goes on with the identity it has.\<close>

lemma sarctl_renewIfDue_identity:
  assumes "sarctl_renewIfDue lib ks env addr i fs = (i', fs')"
  shows "i' = i \<or> (\<exists>fs1. peer_Renew lib ks (ce_unreadable env) (ce_disk env) (ce_key env) (ce_reply env) (Some i) fs = (Inr i', fs1))"
  using assms by (auto simp: sarctl_renewIfDue_def RenewIfDue_def split: if_splits prod.splits sum.splits)

text \<open>The shorthand can express nothing the file could not: an agent only ever starts with resources that
  pass the validation of the file.\<close>

lemma agent_cmdRun_validated:
  assumes "agent_cmdRun lib ks env declared path target resourceID cfg fs = Inr a" and "(k, r) \<in> set (ac_Resources (ag_cfg a))"
  shows "validateResource r = None \<and> k = rs_ResourceID r"
proof -
  from assms(1) obtain i list where l: "resolveResources declared path target resourceID = Inr list" and
    a: "agent_New (cfg\<lparr>ac_Identity := Some i, ac_Resources := list\<rparr>) = Inr a"
    by (auto simp: agent_cmdRun_def split: sum.splits)
  from a have r: "ac_Resources (ag_cfg a) = list" "find (\<lambda>(_, r). ValidateTarget (rs_Target r) \<noteq> None) list = None"
    by (auto simp: agent_New_def Let_def split: if_splits option.splits)
  show ?thesis
  proof (cases "path = ''''")
    case True
    with l have l': "list = [(resourceID, \<lparr>rs_ResourceID = resourceID, rs_Name = resourceID, rs_Protocol = ''tcp'', rs_Target = target,
        rs_MaxBytes = 0, rs_MaxDuration = 0\<rparr>)]" "resourceID \<noteq> ''''"
      by (auto simp: resolveResources_def split: if_splits)
    show ?thesis using assms(2) r unfolding l'(1) r(1) using l'(2) by (auto simp: validateResource_def split: if_splits)
  next
    case False
    then obtain rs where "declared = Some rs" "load_resources rs [] = Inr list"
      using l by (auto simp: resolveResources_def LoadAllowlist_def split: if_splits sum.splits option.splits)
    with load_resources_Inr [of rs "[]" list] assms(2) r(1) show ?thesis by auto
  qed
qed

text \<open>A stored session records the control plane that issued it, but logging out presents its token to
  whatever address is given.\<close>

lemma logout_presents_token_anywhere:
  assumes "peer_Load lib ks (ce_unreadable env) fs = Inr i" and "LoadSession js ks (ce_unreadable env sessionFile) fs = Inr sess"
    and "os_ControlAddr sess = ''home:1''" and "os_Token sess = ''t''" and "\<not> ce_remove_fails env"
    and "control = (\<lambda>addr header. if addr = ''other:1'' \<and> header = ''Bearer t''
      then Some (StatusOK, \<lparr>or_SessionID = ''s'', or_GrantsRevoked = 0, or_Error = ''''\<rparr>, False) else None)"
  shows "fst (cmdLogout lib ks js env control ''other:1'' fs) = Inr (Some 0)"
  using assms by (simp add: cmdLogout_def op_Logout_def postControl_def auth_header_def ClearSession_def Let_def)

end
