(* ===== verification/Platform.thy ===== *)
theory Platform
  imports Store_Tables Encoding "HOL-Library.Multiset"
begin

text \<open>
  What the program asks of its platform: noticing a change of the network (\<open>internal/netwatch\<close>), the logger
  that mirrors to the native log (\<open>internal/logging\<close>), and the answers of a service to the service manager of
  Windows (\<open>internal/winsvc\<close>). The interfaces of the machine, the sinks and the calls of the operating system
  are arguments or recorded in the order in which they are made.
\<close>

section \<open>Network changes\<close>

definition PollInterval :: duration where "PollInterval = 10 * Second"

record iface =
  if_Name :: string
  if_Up :: bool
  if_Loopback :: bool
  if_Addrs :: "string list option"  \<comment> \<open>\<^const>\<open>None\<close> when they cannot be read\<close>

fun join_with :: "string \<Rightarrow> string list \<Rightarrow> string" where
  "join_with sep [] = ''''"
| "join_with sep [s] = s"
| "join_with sep (s # ss) = s @ sep @ join_with sep ss"

definition iface_parts :: "iface \<Rightarrow> string list" where
  "iface_parts i =
    (if \<not> if_Up i \<or> if_Loopback i then []
     else case if_Addrs i of None \<Rightarrow> [] | Some addrs \<Rightarrow> map (\<lambda>a. if_Name i @ ''='' @ a) addrs)"

definition addressFingerprint :: "string + iface list \<Rightarrow> string" where
  "addressFingerprint r =
    (case r of
       Inl e \<Rightarrow> ''error:'' @ e
     | Inr ifaces \<Rightarrow> join_with '','' (sort (concat (map iface_parts ifaces))))"

text \<open>The channel has room for one signal.\<close>

definition notify :: "bool \<Rightarrow> bool" where "notify pending = True"

definition poll_tick :: "string + iface list \<Rightarrow> string \<times> bool \<Rightarrow> string \<times> bool" where
  "poll_tick r st =
    (case st of (prev, pending) \<Rightarrow>
      (let current = addressFingerprint r in if current \<noteq> prev then (current, notify pending) else (prev, pending)))"

text \<open>The order in which interfaces and addresses are reported does not matter, so a reordering wakes
  nobody up.\<close>

lemma sort_mset_cong: "mset xs = mset ys \<Longrightarrow> sort xs = sort (ys :: string list)"
  by (metis sorted_list_of_multiset_mset)

lemma mset_concat_map: "mset (concat (map f xs)) = sum_mset (image_mset (\<lambda>x. mset (f x)) (mset xs))"
  by (induction xs) simp_all

lemma fingerprint_reordered: "mset ifaces = mset ifaces' \<Longrightarrow> addressFingerprint (Inr ifaces) = addressFingerprint (Inr ifaces')"
  using sort_mset_cong [of "concat (map iface_parts ifaces)" "concat (map iface_parts ifaces')"]
  by (simp add: addressFingerprint_def mset_concat_map)

lemma fingerprint_unusable:
  "\<not> if_Up i \<or> if_Loopback i \<Longrightarrow> addressFingerprint (Inr (i # ifaces)) = addressFingerprint (Inr ifaces)"
  by (simp add: addressFingerprint_def iface_parts_def)

text \<open>However many readings pass before the reader looks, there is a signal if one of them differs from
  what was last seen, and it is one signal.\<close>

lemma poll_signals:
  "fold poll_tick rs (first, pending) =
    (last (first # map addressFingerprint rs), pending \<or> (\<exists>r\<in>set rs. addressFingerprint r \<noteq> first))"
proof (induction rs arbitrary: first pending)
  case (Cons r rs)
  show ?case
  proof (cases "addressFingerprint r = first")
    case True
    with Cons show ?thesis by (auto simp: poll_tick_def Let_def)
  next
    case False
    with Cons show ?thesis by (auto simp: poll_tick_def notify_def Let_def)
  qed
qed simp

section \<open>Logging\<close>

definition LevelDebug :: int where "LevelDebug = - 4"
definition LevelInfo :: int where "LevelInfo = 0"
definition LevelWarn :: int where "LevelWarn = 4"
definition LevelError :: int where "LevelError = 8"

lemmas level_defs = LevelDebug_def LevelInfo_def LevelWarn_def LevelError_def

text \<open>\<open>strings.ToLower\<close>, on the letters the names consist of.\<close>

definition to_lower :: "string \<Rightarrow> string" where
  "to_lower s = map (\<lambda>c. let n = (of_char c :: nat) in if 65 \<le> n \<and> n \<le> 90 then char_of (n + 32) else c) s"

definition parseLevel :: "string \<Rightarrow> int" where
  "parseLevel s =
    (let l = to_lower (TrimSpace s) in
     if l = ''debug'' then LevelDebug
     else if l = ''warn'' \<or> l = ''warning'' then LevelWarn
     else if l = ''error'' then LevelError
     else LevelInfo)"

record log_record =
  lg_Level :: int
  lg_Message :: string
  lg_Attrs :: "(string \<times> string) list"

datatype log_write = ToPrimary log_record | SinkWarn string | SinkError string

record tee_handler =
  th_sink :: bool
  th_minLevel :: int
  th_attrs :: "(string \<times> string) list"
  th_group :: string

definition renderEvent :: "log_record \<Rightarrow> (string \<times> string) list \<Rightarrow> string" where
  "renderEvent r extra = lg_Message r @ concat (map (\<lambda>(k, v). '' '' @ k @ ''='' @ v) (extra @ lg_Attrs r))"

definition tee_Handle :: "tee_handler \<Rightarrow> log_record \<Rightarrow> log_write list" where
  "tee_Handle h r =
    ToPrimary r #
    (if lg_Level r \<ge> th_minLevel h \<and> th_sink h then
       [if lg_Level r \<ge> LevelError then SinkError (renderEvent r (th_attrs h)) else SinkWarn (renderEvent r (th_attrs h))]
     else [])"

definition tee_WithAttrs :: "(string \<times> string) list \<Rightarrow> tee_handler \<Rightarrow> tee_handler" where
  "tee_WithAttrs attrs h = h\<lparr>th_attrs := th_attrs h @ attrs\<rparr>"

definition tee_WithGroup :: "string \<Rightarrow> tee_handler \<Rightarrow> tee_handler" where
  "tee_WithGroup name h = h\<lparr>th_group := name\<rparr>"

text \<open>\<open>sink\<close> says whether the native log is available.\<close>

definition NewWithEventLog :: "bool \<Rightarrow> tee_handler" where
  "NewWithEventLog sink = \<lparr>th_sink = sink, th_minLevel = LevelWarn, th_attrs = [], th_group = ''''\<rparr>"

text \<open>The structured record comes first and always; the native log gets warnings and errors only, and
  nothing at all without a sink.\<close>

lemma tee_Handle_mirrors:
  assumes "h = fold (\<lambda>attrs. tee_WithAttrs attrs) as (NewWithEventLog sink)"
  shows "hd (tee_Handle h r) = ToPrimary r \<and> (tl (tee_Handle h r) \<noteq> [] \<longleftrightarrow> sink \<and> lg_Level r \<ge> LevelWarn) \<and>
    (\<forall>w\<in>set (tl (tee_Handle h r)). w = (if lg_Level r \<ge> LevelError then SinkError else SinkWarn) (renderEvent r (concat as)))"
proof -
  have "fold (\<lambda>attrs. tee_WithAttrs attrs) as h0 = h0\<lparr>th_attrs := th_attrs h0 @ concat as\<rparr>" for h0
    by (induction as arbitrary: h0) (simp_all add: tee_WithAttrs_def)
  with assms show ?thesis by (auto simp: tee_Handle_def NewWithEventLog_def)
qed

section \<open>The service\<close>

definition svcStopped :: u32 where "svcStopped = 1"
definition svcStartPending :: u32 where "svcStartPending = 2"
definition svcStopPending :: u32 where "svcStopPending = 3"
definition svcRunning :: u32 where "svcRunning = 4"
definition acceptStop :: u32 where "acceptStop = 1"
definition acceptShutdown :: u32 where "acceptShutdown = 4"
definition controlStop :: u32 where "controlStop = 1"
definition controlInterrogate :: u32 where "controlInterrogate = 4"
definition controlShutdown :: u32 where "controlShutdown = 5"
definition controlPreShutdown :: u32 where "controlPreShutdown = 15"

lemmas svc_defs = svcStopped_def svcStartPending_def svcStopPending_def svcRunning_def controlStop_def
  controlInterrogate_def controlShutdown_def controlPreShutdown_def

record service_status =
  ss_CurrentState :: u32
  ss_ControlsAccepted :: u32
  ss_Win32ExitCode :: u32
  ss_CheckPoint :: u32
  ss_WaitHint :: u32

text \<open>The state the callbacks share, and the reports made so far, the latest first.\<close>

record win_service =
  sv_statusH :: bool
  sv_cancel :: bool  \<comment> \<open>there is a context to cancel\<close>
  sv_cancelled :: bool
  sv_checkNext :: u32
  sv_done :: bool
  sv_runErr :: bool
  sv_reports :: "service_status list"

definition service_init :: win_service where
  "service_init = \<lparr>sv_statusH = False, sv_cancel = False, sv_cancelled = False, sv_checkNext = 0, sv_done = False,
     sv_runErr = False, sv_reports = []\<rparr>"

definition reportStatusExit :: "u32 \<Rightarrow> u32 \<Rightarrow> u32 \<Rightarrow> u32 \<Rightarrow> win_service \<Rightarrow> win_service" where
  "reportStatusExit state accepted waitHintMS exitCode s =
    (let s = (if state = svcStartPending \<or> state = svcStopPending then s\<lparr>sv_checkNext := sv_checkNext s + 1\<rparr>
              else s\<lparr>sv_checkNext := 0\<rparr>) in
     if \<not> sv_statusH s then s
     else s\<lparr>sv_reports := \<lparr>ss_CurrentState = state, ss_ControlsAccepted = (if state = svcRunning then accepted else 0),
              ss_Win32ExitCode = exitCode, ss_CheckPoint = sv_checkNext s, ss_WaitHint = waitHintMS\<rparr> # sv_reports s\<rparr>)"

definition reportStatus :: "u32 \<Rightarrow> u32 \<Rightarrow> u32 \<Rightarrow> win_service \<Rightarrow> win_service" where
  "reportStatus state accepted waitHintMS = reportStatusExit state accepted waitHintMS 0"

text \<open>\<open>serviceMain\<close> up to its call of the program, and after it; the first does not go on if the handler
  cannot be registered. \<open>failed\<close> says that the program ended with an error other than its cancellation.\<close>

definition serviceMain_start :: "bool \<Rightarrow> win_service \<Rightarrow> bool \<times> win_service" where
  "serviceMain_start registered s =
    (if \<not> registered then (False, s)
     else (True, reportStatus svcRunning (acceptStop OR acceptShutdown) 0
             (reportStatus svcStartPending 0 10000 (s\<lparr>sv_statusH := True, sv_cancel := True\<rparr>))))"

definition serviceMain_end :: "bool \<Rightarrow> win_service \<Rightarrow> win_service" where
  "serviceMain_end failed s =
    (let s = (if failed then s\<lparr>sv_runErr := True\<rparr> else s);
         s = reportStatusExit svcStopped 0 0 (if sv_runErr s then 1 else 0) s
     in s\<lparr>sv_cancelled := True, sv_done := True\<rparr>)"

definition serviceHandler :: "u32 \<Rightarrow> win_service \<Rightarrow> u32 \<times> win_service" where
  "serviceHandler control s =
    (if control = controlStop \<or> control = controlShutdown \<or> control = controlPreShutdown then
       let s = reportStatus svcStopPending 0 15000 s in (0, if sv_cancel s then s\<lparr>sv_cancelled := True\<rparr> else s)
     else if control = controlInterrogate then
       (0, if sv_statusH s then reportStatus svcRunning (acceptStop OR acceptShutdown) 0 s else s)
     else (1, s))"

text \<open>A stop request is answered by a pending state and cancels the program; when the program then ends,
  the manager is told so, with a code that says whether it failed, and \<open>run\<close>, which waits until \<open>done\<close> is
  closed, returns that error.\<close>

lemma service_stops:
  assumes "serviceMain_start True service_init = (True, s1)" and "serviceHandler controlStop s1 = (code, s2)"
  shows "code = 0 \<and> sv_cancelled s2 \<and> map ss_CurrentState (sv_reports s2) = [svcStopPending, svcRunning, svcStartPending] \<and>
    map ss_CheckPoint (sv_reports s2) = [1, 0, 1] \<and>
    map ss_CurrentState (sv_reports (serviceMain_end failed s2)) = [svcStopped, svcStopPending, svcRunning, svcStartPending] \<and>
    ss_Win32ExitCode (hd (sv_reports (serviceMain_end failed s2))) = (if failed then 1 else 0) \<and>
    sv_done (serviceMain_end failed s2) \<and> sv_runErr (serviceMain_end failed s2) = failed"
  using assms
  by (auto simp: serviceMain_start_def serviceHandler_def serviceMain_end_def reportStatus_def reportStatusExit_def service_init_def
      svc_defs Let_def)

text \<open>Asked for its status while it stops, a service says that it is running.\<close>

lemma interrogated_while_stopping:
  assumes "serviceMain_start True service_init = (True, s1)" and "serviceHandler controlStop s1 = (0, s2)"
    and "serviceHandler controlInterrogate s2 = (0, s3)"
  shows "sv_cancelled s3 \<and> map ss_CurrentState (sv_reports s3) = [svcRunning, svcStopPending, svcRunning, svcStartPending]"
  using assms
  by (auto simp: serviceMain_start_def serviceHandler_def reportStatus_def reportStatusExit_def service_init_def svc_defs Let_def)

text \<open>If the handler cannot be registered, nothing closes \<open>done\<close>, for which \<open>run\<close> waits.\<close>

lemma unregistered_never_returns:
  assumes "serviceMain_start False service_init = (go, s)"
  shows "\<not> go \<and> \<not> sv_done s \<and> \<not> sv_done (snd (serviceHandler control s))"
  using assms
  by (auto simp: serviceMain_start_def serviceHandler_def reportStatus_def reportStatusExit_def service_init_def Let_def)

end
