(* ===== verification/Spec2Isabelle.thy ===== *)
theory Spec2Isabelle
  imports Proto_Grant Mux_Flow Mux_Session Bridge Policy Backoff
    Issuer Login Enrollment Relay_System Agent Httpapi Operator_Forward Server_Admin
    Commands Platform
begin

text \<open>
  Secure Access Relay: a model of the program and the properties that make it correct.

  The program. An operator reaches a service on the loopback interface of a remote device without the
  device accepting connections. The device's \<^emph>\<open>agent\<close> dials the \<^emph>\<open>relay\<close> and waits; the operator's \<^emph>\<open>client\<close>
  listens on a local port, asks the \<^emph>\<open>control plane\<close> for a signed grant and opens a stream through the
  relay; the relay checks the grant and joins the stream to one it opens to the agent; the agent checks the
  same grant again on its own and connects to the address its local allowlist gives. Inside the stream
  the client and the agent authenticate each other end to end. The control plane enrolls and renews
  certificates, keeps sessions, grants and an audit trail in a database, and tells the relay in its own
  process which grants to cut off. All of it is under \<open>src/cmd\<close> and \<open>src/internal\<close>.

  Conventions. Go's unsigned integers are words of their width and wrap; \<open>time.Time\<close> and \<open>time.Duration\<close>
  are integers of nanoseconds; strings are character lists with a byte view; a slice that is read
  only is a list. An error is the left side of a sum or an option, and every early return of the source is a
  branch. A Go map is an association list with one entry per key, or a map. Objects that are shared by
  reference (streams, sessions) lie in lists and are known by position, so that aliasing is visible. A
  function that holds a lock throughout is one definition. A function that waits is cut at its waits: what
  happens between two waits is one definition or one phase, and goroutines interleave as the steps
  of an inductive relation. What the environment decides (which call of the database or of the file system
  fails, what the clock and the random source return, what the peer sends, which branch of a \<open>select\<close> is
  taken) is an argument. Ed25519, SHA-256, X.509, TLS, JSON, HTTP, \<open>float64\<close> and the sealing of the key store
  are not code of this program: they are arguments as well, and a theorem that needs a fact about them has
  it as a hypothesis and a witness with a concrete function.

  The theories.

  \<^item> \<open>Sar_Prelude\<close>: words, big-endian numbers, strings, time, the collections \<open>wire_simps\<close>, \<open>time_simps\<close>, \<open>store_defs\<close>,
    and the interfaces \<open>wire_codec\<close> and \<open>strict_codec\<close> of an encoder with its validating decoder.
  \<^item> \<open>Proto_Frame\<close>, \<open>Proto_Handshake\<close>, \<open>Proto_Grant\<close> (\<open>internal/proto\<close>): frames, handshake payloads and signed
    grants. The decoders accept exactly the encodings of valid values; the signed bytes
    determine the grant; a grant that was signed verifies exactly in its skewed validity period, and
    whatever verifies is bounded in time and bound to a device.
  \<^item> \<open>Transport\<close> (\<open>internal/transport/conn.go\<close>), \<open>Mux_Stream\<close>, \<open>Mux_Flow\<close>, \<open>Mux_Session\<close> (\<open>internal/mux\<close>): the framed
    connection, one stream, two ends of a stream with the queues between them, and a whole session with its
    handshake, its read loop and every frame type. Flow control never overruns a window, never
    loses or reorders data and never deadlocks; no peer gets a session beyond its bounds; a violation and a
    shutdown release everyone who waits.
  \<^item> \<open>Bridge\<close> (\<open>internal/bridge\<close>) and \<open>Backoff\<close> (\<open>internal/backoff\<close>): the byte budget shared by the two directions of a
    stream, and reconnect delays.
  \<^item> \<open>Policy\<close> (\<open>internal/control/policy\<close>): the evaluation in one pass against a reference definition, and its
    independence of the order of the rules.
  \<^item> \<open>Store_Tables\<close>, \<open>Store_Identities\<close>, \<open>Store_Access\<close>, \<open>Store\<close> (\<open>internal/storage\<close>): the tables as lists of rows, one
    definition per method, and then all of them as the calls of one datatype. Keys stay unique and references
    resolve after any sequence of calls; a failed call changes nothing (interface \<open>transactional\<close>, once per
    method); tokens are used once, revocations last and audit rows are kept (interface \<open>lasting\<close>); the grants
    refine an abstract registry.
  \<^item> \<open>Control_Audit\<close>, \<open>Issuer\<close>, \<open>Login\<close>, \<open>CA\<close>, \<open>Encoding\<close>, \<open>Enrollment\<close> (\<open>internal/control\<close>, \<open>internal/ca\<close>): the audit recorder,
    issuing grants, sessions, the certificate authority, enrollment and renewal. \<open>Base64_Std\<close> and \<open>Rfc3339\<close> are the
    text formats of the replies.
  \<^item> \<open>Httpapi\<close> (\<open>internal/control/httpapi\<close>): the handlers of the routes on a decoded request.
  \<^item> \<open>Relay_Registers\<close>, \<open>Relay\<close>, \<open>Relay_System\<close> (\<open>internal/relay\<close>): the registers of agents and of live streams, the
    handlers, and their interleaving with the database and with revocations. The relay asks the control
    plane through the interface \<open>grant_checker\<close>, which the issuer's check satisfies.
  \<^item> \<open>Net_Addr\<close>, \<open>E2ee\<close>, \<open>Peer_Identity\<close>, \<open>Agent\<close> (\<open>internal/e2ee\<close>, \<open>internal/identity\<close>, \<open>internal/keystore\<close>,
    \<open>internal/agent\<close>): what the agent does with a stream, and the credentials on disk, where every write may fail half way.
  \<^item> \<open>Operator_Session\<close>, \<open>Operator_Forward\<close> (\<open>internal/operator\<close>), \<open>Commands\<close> (\<open>cmd/sarctl\<close>, \<open>cmd/sar-agent\<close>): the operator's
    side up to the copying of bytes, as one step relation, and the commands around it.
  \<^item> \<open>Server_Admin\<close> (\<open>cmd/sar-server\<close>): opening a deployment and the administrator's commands.
  \<^item> \<open>Platform\<close> (\<open>internal/netwatch\<close>, \<open>internal/logging\<close>, \<open>internal/winsvc\<close>): network changes, the mirrored log and the
    protocol with the service manager of Windows.
  \<^item> This theory: the path of one grant through all four parts, and what logging out takes away.

  Bounds and fuel. Recursion is structural except for the parsing of an IPv6 address, which has a measure.
  Two loops have fuel. \<open>readLoop\<close> consumes at least a frame header per turn, and it is proved to return for every
  fuel greater than the number of bytes left. \<open>write_loop\<close> sends at least a byte per turn; \<open>stream_Write\<close> gives it more
  fuel than there are bytes, and it is proved never to run out. Theorems about counters (\<open>seq\<close> of the audit
  trail, identifiers of the live register, the 32-bit length of a write) state the bound below which they
  hold; that the bound on the length of a write is needed is a lemma.

  Edges. Some lemmas show behaviour that the comments of the source exclude or do not expect: the window
  between the check of a grant and its registration (\<open>revocation_window\<close>), a renewal interrupted between its two
  files (\<open>interrupted_renewal_unloadable\<close>), a logout whose second half fails (\<open>failed_logout_not_retried\<close>), an
  ERROR frame with the reason of success (\<open>error_frame_completes_open\<close>), an identifier opened again
  (\<open>retired_identifier_reopened\<close>), a grant for another device kept by the client (\<open>other_device_grant_accepted\<close>), a token
  presented to another control plane (\<open>logout_presents_token_anywhere\<close>), the name of a policy that depends on the order of
  rules (\<open>policy_name_depends_on_order\<close>), the limit of a listing (\<open>denials_limit_zero\<close>) and two answers to the
  service manager (\<open>interrogated_while_stopping\<close>, \<open>unregistered_never_returns\<close>).

  Not modelled. The TLS handshakes and record layer, dialing and listening, HTTP routing and JSON, which are the
  standard library's; the accept and reconnect loops of the agent and the client, which only repeat modelled
  steps; the wake-ups of condition variables, since a woken call starts its loop again; opening the SQLite file and
  its connection pool; flag parsing, usage, table formatting and log messages; the Win32 calls that install and
  control services, seal keys (\<open>keystore_windows.go\<close>), watch addresses and write to the Event Log; the agent's service
  commands (\<open>cmd/sar-agent/service.go\<close>), which wrap them; packages that hold a comment only; installer, scripts and
  fixtures. Timeouts appear as the environment's choice to end a wait, not as a measured time, except where
  the code compares times itself.
\<close>

section \<open>Logging out\<close>



section \<open>From the request to the endpoint\<close>

text \<open>The check of the relay on a grant of the record: it comes down to the signature, the names and
  whether the grant is still live.\<close>

lemma join_check_live:
  assumes "db_ok d" and "find (\<lambda>x. gt_grant_id x = g_GrantID g) (grants d) = Some x"
    and "DecodeGrant payload = Inr g" and "rc_Grants cfg"
  shows "(\<exists>sid. fst (join_check edv (CheckGrant False) aud cfg t dev user payload (run cs d)) = Inr (g, sid)) \<longleftrightarrow>
    Verify edv g (the (rc_GrantKey cfg)) t (g_DeviceID g) = None \<and> g_UserID g = user \<and> g_DeviceID g = dev \<and>
    live (run cs d) (g_GrantID g) \<noteq> None"
proof -
  obtain y where y: "find (\<lambda>x. gt_grant_id x = g_GrantID g) (grants (run cs d)) = Some y"
    using later_grant [OF assms(1,2), of cs] by blast
  have "payload \<noteq> []" using assms(3) by (auto simp: DecodeGrant_def)
  then show ?thesis
    using assms(3,4) y
    by (auto simp: join_check_def CheckGrant_def StateOf_def LookupGrant_def live_def split: option.splits)
qed

lemma stream_check_verified:
  assumes "DecodeGrant payload = Inr g" and "Verify edv g (the (pi_GrantKey i)) t (n_ID (pi_ID i)) = None"
  shows "stream_check edv t i list payload =
    (case allow_Lookup (g_ResourceID g) list of
       Inl e \<Rightarrow> Inl (if e = ErrTargetNotLoopback then ReasonResourceTargetNotLoopback else ReasonResourceUnknown)
     | Inr res \<Rightarrow> Inr (g, res))"
  using assms by (auto simp: stream_check_def DecodeGrant_def split: if_splits)

lemma Issue_db_ok:
  assumes "Issue ed_sign i fails rnd now now' rules req d = (Inr sg, dec, d')" and "db_ok d"
  shows "db_ok d'"
proof (cases "is_store i")
  case True
  have "d' = exec (CRecordGrant fails now' (record_for sg dec req) (event_for sg dec req)) d"
    using Issue_issued(11) [OF assms(1) True] by simp
  then show ?thesis using exec_ok [OF assms(2)] by metis
next
  case False
  with assms show ?thesis
    by (auto simp: Issue_def Let_def split: if_splits sum.splits)
qed

lemma authenticateOperator_db_ok:
  assumes "authenticateOperator s env r ev d = (Inr i, d1)" and "db_ok d"
  shows "db_ok d1"
proof -
  obtain c where "hq_cert r = Some c" and v: "VerifyEnrolled (he_lookup env) (he_promote env) c d = (Inr i, d1)"
    by (rule authenticateOperator_Inr [OF assms(1)], rule that)
  show ?thesis
    using VerifyEnrolled_run [of "he_lookup env" "he_promote env" c d] run_ok [OF assms(2)] v by (metis snd_conv)
qed

text \<open>What a reply with a grant carries.\<close>

lemma granted_reply:
  assumes "handleGrant sha256 ed_sign s env r d = (HttpOK p, d')" and "hs_issuer s = Some iss" and "is_store iss"
    and "hs_login s \<noteq> None" and "db_ok d"
    and "hq_cert r = Some c" and "IdentityOf c = Inr i" and "hq_body r = Some req"
    and "he_rand env 0 = Some b" and "length b \<le> 16" and "time_sane (he_times env 0)"
    and "length (is_keyID iss) \<le> MaxIdentityLen" and "length (n_ID i) \<le> MaxIdentityLen"
    and "length (gq_DeviceID req) \<le> MaxIdentityLen" and "length (gq_ResourceID req) \<le> MaxIdentityLen"
    and ed_len: "\<And>m. length (ed_sign (is_key iss) m) = SignatureSize"
    and ed_ok: "\<And>m. edv pub m (ed_sign (is_key iss) m)"
  obtains g where "StdDecode (gp_Grant p) = Some (SignedGrant_Encode g)" and "DecodeGrant (SignedGrant_Encode g) = Inr g"
    and "g_UserID g = n_ID i" and "g_DeviceID g = gq_DeviceID req" and "g_ResourceID g = gq_ResourceID req"
    and "live d' (g_GrantID g) \<noteq> None" and "g_IssuedAt g \<le> g_ExpiresAt g" and "db_ok d'"
    and "\<forall>t. g_IssuedAt g \<le> t \<longrightarrow> t \<le> g_ExpiresAt g \<longrightarrow> Verify edv g pub t (gq_DeviceID req) = None"
proof -
  obtain iss' i' d1 and sess :: session_record and req' sg dec where e: "hs_issuer s = Some iss'" "hq_body r = Some req'" and
    au: "authenticateOperator s env r EventGrantDenied d = (Inr i', d1)" and
    iss': "Issue ed_sign iss' (he_faults env 0) (he_rand env 0) (he_times env 0) (he_times env 1) (hs_rules s)
      (issue_request i' req' (sr_SessionID sess)) d1 = (Inr sg, dec, d')" and
    g: "gp_Grant p = StdEncode (SignedGrant_Encode sg)" by (rule handleGrant_OK [OF assms(1,4)], rule that, assumption+)
  obtain c' where c': "hq_cert r = Some c'" and
    v: "VerifyEnrolled (he_lookup env) (he_promote env) c' d = (Inr i', d1)"
    by (rule authenticateOperator_Inr [OF au], rule that)
  have i': "i' = i" using VerifyEnrolled_Inr(1) [OF v] c' assms(6,7) by simp
  have iss: "Issue ed_sign iss (he_faults env 0) (he_rand env 0) (he_times env 0) (he_times env 1) (hs_rules s)
      (issue_request i req (sr_SessionID sess)) d1 = (Inr sg, dec, d')"
    using iss' e assms(2,8) i' by simp
  note f = Issue_issued [OF iss]
  have q: "q_UserID (issue_request i req x) = n_ID i" "q_DeviceID (issue_request i req x) = gq_DeviceID req"
    "q_ResourceID (issue_request i req x) = gq_ResourceID req" "q_OrgID (issue_request i req x) = ''''" for x
    by (simp_all add: issue_request_def)
  have "signed_ok sg"
    by (rule issued_signed_ok [OF iss [unfolded assms(9)]]) (use assms(10-15) ed_len q in simp_all)
  then have dec: "DecodeGrant (SignedGrant_Encode sg) = Inr sg" by (rule DecodeGrant_Encode)
  have ok: "db_ok d'" by (rule Issue_db_ok [OF iss authenticateOperator_db_ok [OF au assms(5)]])
  have live: "live d' (g_GrantID sg) \<noteq> None" using f(12) assms(3) by simp
  have ver: "Verify edv sg pub t (gq_DeviceID req) = None" if "g_IssuedAt sg \<le> t" "t \<le> g_ExpiresAt sg" for t
    using that f(4,7,9,10) ed_len ed_ok q by (simp add: Verify_None_iff ClockSkewTolerance_def Second_def)
  show ?thesis
    by (rule that [of sg]) (use g dec f(3-5) q live Issue_ordered [OF iss] ok ver in simp_all)
qed



end
